theory Spec2Isabelle
  imports Complex_Main "HOL-Library.Word" "HOL-Library.Sublist"
begin

section \<open>The face-fit command line driver (src/face-fit/main.cpp)\<close>

text \<open>
  The program drives an external face tracker over one image, a list of images or a
  video. Everything it calls outside main.cpp (the tracker library, OpenCV, the helpers
  of utils/) is a field of the record \<open>env\<close>; every observable call it makes is
  appended to the trace of the world, in program order. C++ exceptions are values of the
  type \<open>failure\<close>, and so are the two other ways in which a call can end without
  returning; a function that can throw returns \<open>failure + 'a\<close> together with the world
  as it was when the exception left the function.
\<close>

subsection \<open>Data\<close>

text \<open>A C++ \<open>int\<close>: 32 bits, compared as a signed number (\<open>\<le>s\<close>).\<close>

type_synonym c_int = "32 word"

text \<open>
  \<open>cv::Point_<double>\<close> and a \<open>std::vector\<close> of them. The program
  never computes with the coordinates: it only stores, counts and hands them on.
\<close>

type_synonym point = "real \<times> real"
type_synonym shape = "point list"

text \<open>
  \<open>cv::Mat\<close>, as far as main.cpp reads it: \<open>rows\<close>, \<open>cols\<close>, \<open>type()\<close> and
  the pixels. OpenCV's type code is \<open>depth + 8 * (channels - 1)\<close>;
  \<open>cv::DataType<uint8_t>::type\<close> is \<open>CV_8UC1\<close> and
  \<open>cv::DataType<cv::Vec<uint8_t,3> >::type\<close> is \<open>CV_8UC3\<close>.
\<close>

record Mat =
  rows :: int
  cols :: int
  mat_type :: nat
  pixels :: "nat list"

definition CV_MAKETYPE :: "nat \<Rightarrow> nat \<Rightarrow> nat" where
  "CV_MAKETYPE depth cn = depth + 8 * (cn - 1)"

definition CV_8UC1 :: nat where
  "CV_8UC1 = CV_MAKETYPE 0 1"

definition CV_8UC3 :: nat where
  "CV_8UC3 = CV_MAKETYPE 0 3"

definition channels :: "Mat \<Rightarrow> nat" where
  "channels m = mat_type m div 8 + 1"

definition depth :: "Mat \<Rightarrow> nat" where
  "depth m = mat_type m mod 8"

text \<open>A default constructed \<open>cv::Mat\<close>, which is also what reading past the end of a
  video leaves in the frame.\<close>

definition empty_Mat :: Mat where
  "empty_Mat = \<lparr>rows = 0, cols = 0, mat_type = 0, pixels = []\<rparr>"

record Configuration =
  wait_time :: real
  model_pathname :: string
  params_pathname :: string
  tracking_threshold :: c_int
  window_title :: string
  verbose :: bool
  circle_radius :: c_int
  circle_thickness :: c_int
  circle_linetype :: c_int
  circle_shift :: c_int

text \<open>
  What can leave a function other than its return value: the two exception classes of
  main.cpp; a failed \<open>assert\<close>, which writes a diagnostic and calls \<open>abort\<close>, so
  that the process ends without returning from \<open>main\<close> (the model reads the source as
  it is written, without \<open>NDEBUG\<close>); and behaviour that C++ leaves undefined (a call
  through a null tracker pointer, advancing or reading a list iterator at \<open>end()\<close>).
\<close>

datatype failure =
    user_pressed_escape
  | runtime_error string
  | assertion_failed
  | undefined_behaviour

text \<open>Modelled from the spec: \<open>make_runtime_error\<close> of utils/helpers.hpp is not in the
  sources; the spec has every such failure end the run with exit code 2 and a message on
  the error stream, which is what \<open>main\<close> does with a \<open>std::exception\<close>. The message is
  kept with its arguments already substituted; \<open>quoted\<close> is the \<open>'%s'\<close> of the format
  strings of main.cpp.\<close>

definition make_runtime_error :: "string \<Rightarrow> failure" where
  "make_runtime_error msg = runtime_error msg"

definition quoted :: "string \<Rightarrow> string" where
  "quoted s = CHR 0x27 # s @ [CHR 0x27]"

subsection \<open>The trace of observable calls\<close>

datatype event =
    Ev_print_usage
  | Ev_stdout string
  | Ev_stderr string
  | Ev_printf_Image c_int c_int
  | Ev_printf_Frame_number c_int
  | Ev_LoadFaceTracker string
  | Ev_LoadFaceTrackerParams string
  | Ev_read_list string
  | Ev_load_grayscale_image string
  | Ev_VideoCapture string
  | Ev_VideoCapture_read
  | Ev_NewFrame Mat c_int
  | Ev_Track Mat c_int
  | Ev_getShape
  | Ev_Reset
  | Ev_SavePts string shape
  | Ev_imshow string Mat shape "nat list"
  | Ev_waitKey real c_int
  | Ev_assert_failed string

text \<open>
  \<open>Ev_stderr\<close> is a line written to \<open>std::cerr\<close>, \<open>Ev_assert_failed\<close> the
  diagnostic of a failed \<open>assert\<close> (with the expression asserted), which the C library
  writes to the error stream before it aborts. \<open>Ev_waitKey x key\<close> is the call
  \<open>cv::waitKey(x * 1000)\<close> that returned \<open>key\<close>: the event keeps the wait time
  \<open>x\<close> of the configuration. The product and its conversion to the \<open>int\<close> parameter
  are done in \<open>double\<close> arithmetic, which the model does not compute.

  The world: the calls made so far, and the keys \<open>cv::waitKey\<close> is going to
  return (one per call; \<open>-1\<close>, no key, once the list is used up).
\<close>

record world =
  trace :: "event list"
  keys :: "c_int list"

definition emit :: "event \<Rightarrow> world \<Rightarrow> world" where
  "emit e w = w\<lparr>trace := trace w @ [e]\<rparr>"

definition events_since :: "world \<Rightarrow> world \<Rightarrow> event list" where
  "events_since w w' = drop (length (trace w)) (trace w')"

subsection \<open>External collaborators\<close>

text \<open>
  The tracker (\<open>'t\<close> is its internal state, \<open>'p\<close> its parameter set), OpenCV, the
  C library and the helpers of utils/. \<open>LoadFaceTracker\<close> and
  \<open>LoadFaceTrackerParams\<close> return a pointer, \<open>None\<close> when it is null. main.cpp calls
  the tracker through its pointer, and hands the pointer to the parameters on to
  \<open>NewFrame\<close> and \<open>Track\<close> as it is. \<open>NewFrame\<close> and \<open>Track\<close> return the
  confidence and the new tracker state. \<open>read_list\<close>, \<open>load_grayscale_image\<close> and
  \<open>VideoCapture\<close> return \<open>None\<close> where the C++ throws or the capture does not open
  (the helpers are not in the sources: the messages of their exceptions are the
  model's); \<open>load_grayscale_image\<close> returns the grey image and the image as it was
  read. \<open>assign_argument\<close> returns its result and the two arguments it was given by
  reference. \<open>parse_double\<close> and \<open>parse_int\<close> read the value of an option.
  \<open>snprintf_other\<close> is what the C library's \<open>snprintf\<close> leaves in the buffer for
  the format strings that the model below does not interpret itself.
\<close>

record ('t, 'p) env =
  DefaultFaceTrackerModelPathname :: string
  DefaultFaceTrackerParamsPathname :: string
  parse_double :: "string \<Rightarrow> real option"
  parse_int :: "string \<Rightarrow> c_int option"
  assign_argument :: "string \<Rightarrow> string option \<Rightarrow> string option
                        \<Rightarrow> bool \<times> string option \<times> string option"
  LoadFaceTracker :: "string \<Rightarrow> 't option"
  LoadFaceTrackerParams :: "string \<Rightarrow> 'p option"
  NewFrame :: "'t \<Rightarrow> Mat \<Rightarrow> 'p option \<Rightarrow> c_int \<times> 't"
  Track :: "'t \<Rightarrow> Mat \<Rightarrow> 'p option \<Rightarrow> c_int \<times> 't"
  Reset :: "'t \<Rightarrow> 't"
  getShape :: "'t \<Rightarrow> shape"
  read_list :: "string \<Rightarrow> string list option"
  load_grayscale_image :: "string \<Rightarrow> (Mat \<times> Mat) option"
  VideoCapture :: "string \<Rightarrow> Mat list option"
  cvtColor :: "Mat \<Rightarrow> Mat"
  snprintf_other :: "nat \<Rightarrow> string \<Rightarrow> c_int \<Rightarrow> string"

text \<open>\<open>input >> image\<close>: the next frame, or an empty \<open>cv::Mat\<close> at the end.\<close>

definition VideoCapture_read :: "Mat list \<Rightarrow> Mat \<times> Mat list" where
  "VideoCapture_read input = (case input of [] \<Rightarrow> (empty_Mat, []) | f # fs \<Rightarrow> (f, fs))"

text \<open>\<open>cv::waitKey\<close>: the next key of the world.\<close>

definition waitKey :: "real \<Rightarrow> world \<Rightarrow> c_int \<times> world" where
  "waitKey x w =
     (case keys w of
        [] \<Rightarrow> (- 1, emit (Ev_waitKey x (- 1)) w)
      | k # ks \<Rightarrow> (k, emit (Ev_waitKey x k) (w\<lparr>keys := ks\<rparr>)))"

subsection \<open>\<open>snprintf\<close> with one unsigned argument\<close>

text \<open>
  The call \<open>snprintf(buffer, bufsize, fmt, arg)\<close> of video mode, with one \<open>int\<close>
  argument. The model interprets the format strings made of ordinary characters,
  \<open>%%\<close>, and at most one conversion \<open>%u\<close> with the flags \<open>0\<close> and \<open>-\<close> and a
  minimum field width; the argument is then written as an unsigned number. For every
  other format string (another conversion, a precision or a length modifier, more than
  one conversion) the result is the environment's \<open>snprintf_other\<close>. Either way the
  call returns, and the result is what the buffer holds: at most \<open>bufsize - 1\<close>
  characters for the format strings the model interprets.
\<close>

datatype piece = Lit char | Slot bool bool nat

datatype scan = Text | Flags bool bool | Width bool bool nat

definition is_digit :: "char \<Rightarrow> bool" where
  "is_digit c = (48 \<le> (of_char c :: nat) \<and> (of_char c :: nat) \<le> 57)"

definition digit_val :: "char \<Rightarrow> nat" where
  "digit_val c = of_char c - 48"

definition digit_char :: "nat \<Rightarrow> char" where
  "digit_char d = char_of (48 + d)"

fun parse_format :: "scan \<Rightarrow> string \<Rightarrow> piece list option" where
  "parse_format Text [] = Some []"
| "parse_format Text (c # cs) =
     (if c = CHR ''%'' then parse_format (Flags False False) cs
      else map_option ((#) (Lit c)) (parse_format Text cs))"
| "parse_format (Flags z m) [] = None"
| "parse_format (Flags z m) (c # cs) =
     (if c = CHR ''0'' then parse_format (Flags True m) cs
      else if c = CHR ''-'' then parse_format (Flags z True) cs
      else if c = CHR ''%'' then
        (if z \<or> m then None else map_option ((#) (Lit CHR ''%'')) (parse_format Text cs))
      else if is_digit c then parse_format (Width z m (digit_val c)) cs
      else if c = CHR ''u'' then map_option ((#) (Slot z m 0)) (parse_format Text cs)
      else None)"
| "parse_format (Width z m n) [] = None"
| "parse_format (Width z m n) (c # cs) =
     (if is_digit c then parse_format (Width z m (10 * n + digit_val c)) cs
      else if c = CHR ''u'' then map_option ((#) (Slot z m n)) (parse_format Text cs)
      else None)"

fun decimal :: "nat \<Rightarrow> string" where
  "decimal n = (if n < 10 then [digit_char n] else decimal (n div 10) @ [digit_char (n mod 10)])"

declare decimal.simps [simp del]

definition conv_u :: "bool \<Rightarrow> bool \<Rightarrow> nat \<Rightarrow> nat \<Rightarrow> string" where
  "conv_u z m width n =
     (let ds = decimal n; pad = width - length ds
      in if m then ds @ replicate pad CHR '' ''
         else if z then replicate pad CHR ''0'' @ ds
         else replicate pad CHR '' '' @ ds)"

fun render_piece :: "nat \<Rightarrow> piece \<Rightarrow> string" where
  "render_piece n (Lit c) = [c]"
| "render_piece n (Slot z m width) = conv_u z m width n"

definition render :: "piece list \<Rightarrow> nat \<Rightarrow> string" where
  "render ps n = concat (map (render_piece n) ps)"

fun is_slot :: "piece \<Rightarrow> bool" where
  "is_slot (Lit c) = False"
| "is_slot (Slot z m width) = True"

definition slot_count :: "piece list \<Rightarrow> nat" where
  "slot_count ps = length (filter is_slot ps)"

definition snprintf :: "('t, 'p) env \<Rightarrow> nat \<Rightarrow> string \<Rightarrow> c_int \<Rightarrow> string" where
  "snprintf env bufsize fmt arg =
     (case parse_format Text fmt of
        None \<Rightarrow> snprintf_other env bufsize fmt arg
      | Some ps \<Rightarrow>
          if slot_count ps > 1 then snprintf_other env bufsize fmt arg
          else take (bufsize - 1) (render ps (unat arg)))"

subsection \<open>\<open>display_image_and_points\<close>\<close>

text \<open>
  The colour follows the type of the image \<open>img\<close>; the image shown is a clone of it
  with one circle per point (the event keeps the image, the points and the colour). The
  key is narrowed to a \<open>char\<close> before it is compared with 27.
\<close>

definition display_image_and_points ::
  "Configuration \<Rightarrow> Mat \<Rightarrow> shape \<Rightarrow> world \<Rightarrow> (failure + unit) \<times> world" where
  "display_image_and_points cfg img points w =
     (let colour = (if mat_type img = CV_8UC1 then [255]
                    else if mat_type img = CV_8UC3 then [0, 0, 255]
                    else [255]);
          w1 = emit (Ev_imshow (window_title cfg) img points colour) w;
          w2 = (if wait_time cfg = 0 then emit (Ev_stdout ''Press any key to continue.'') w1
                else w1);
          (key, w3) = waitKey (wait_time cfg) w2;
          ch = (ucast key :: 8 word)
      in if ch = 27 then (Inl user_pressed_escape, w3) else (Inr (), w3))"

subsection \<open>\<open>run_image_mode\<close>\<close>

text \<open>Lines 330 to 335: the shape stays empty unless the result reaches the threshold.
  There is no \<open>else\<close> branch.\<close>

definition image_decide ::
  "('t, 'p) env \<Rightarrow> Configuration \<Rightarrow> 'p option \<Rightarrow> Mat \<Rightarrow> 't \<Rightarrow> world
     \<Rightarrow> shape \<times> 't \<times> world" where
  "image_decide env cfg tracker_params gray_image tracker w =
     (let (result, tracker1) = NewFrame env tracker gray_image tracker_params;
          w1 = emit (Ev_NewFrame gray_image result) w
      in if tracking_threshold cfg \<le>s result
         then (getShape env tracker1, tracker1, emit Ev_getShape w1)
         else ([], tracker1, w1))"

text \<open>Lines 337 to 341.\<close>

definition image_route ::
  "Configuration \<Rightarrow> string option \<Rightarrow> Mat \<Rightarrow> shape \<Rightarrow> world \<Rightarrow> (failure + unit) \<times> world" where
  "image_route cfg landmarks_argument img shape w =
     (case landmarks_argument of
        None \<Rightarrow> display_image_and_points cfg img shape w
      | Some landmarks \<Rightarrow>
          if length shape > 0 then (Inr (), emit (Ev_SavePts landmarks shape) w)
          else (Inr (), w))"

text \<open>Lines 318 to 346. The pointers that the two loaders return are not checked here:
  with a null tracker the call \<open>tracker->NewFrame\<close> of line 326 is undefined.\<close>

definition run_image_mode ::
  "('t, 'p) env \<Rightarrow> Configuration \<Rightarrow> string \<Rightarrow> string option \<Rightarrow> world
     \<Rightarrow> (failure + c_int) \<times> world" where
  "run_image_mode env cfg image_argument landmarks_argument w =
     (let loaded_tracker = LoadFaceTracker env (model_pathname cfg);
          w1 = emit (Ev_LoadFaceTracker (model_pathname cfg)) w;
          tracker_params = LoadFaceTrackerParams env (params_pathname cfg);
          w2 = emit (Ev_LoadFaceTrackerParams (params_pathname cfg)) w1;
          w3 = emit (Ev_load_grayscale_image image_argument) w2
      in case load_grayscale_image env image_argument of
           None \<Rightarrow>
             (Inl (make_runtime_error (''Unable to load image '' @ quoted image_argument)), w3)
         | Some (gray_image, img) \<Rightarrow>
             (case loaded_tracker of
                None \<Rightarrow> (Inl undefined_behaviour, w3)
              | Some tracker \<Rightarrow>
                  (let (shape, tracker1, w4) =
                         image_decide env cfg tracker_params gray_image tracker w3
                   in case image_route cfg landmarks_argument img shape w4 of
                        (Inl e, w5) \<Rightarrow> (Inl e, w5)
                      | (Inr u, w5) \<Rightarrow> (Inr 0, w5))))"

subsection \<open>\<open>run_lists_mode\<close>\<close>

text \<open>Lines 223 to 230.\<close>

definition lists_decide ::
  "('t, 'p) env \<Rightarrow> Configuration \<Rightarrow> 'p option \<Rightarrow> Mat \<Rightarrow> 't \<Rightarrow> world
     \<Rightarrow> shape \<times> 't \<times> world" where
  "lists_decide env cfg tracker_params gray_image tracker w =
     (let (result, tracker1) = NewFrame env tracker gray_image tracker_params;
          w1 = emit (Ev_NewFrame gray_image result) w
      in if tracking_threshold cfg \<le>s result
         then (getShape env tracker1, tracker1, emit Ev_getShape w1)
         else ([], Reset env tracker1, emit Ev_Reset w1))"

text \<open>Lines 232 to 240. \<open>landmarks_it\<close> is the rest of the list of landmark pathnames,
  from the iterator on; reading it at \<open>end()\<close> is undefined.\<close>

definition lists_route ::
  "Configuration \<Rightarrow> string option \<Rightarrow> string list \<Rightarrow> Mat \<Rightarrow> shape \<Rightarrow> world
     \<Rightarrow> (failure + unit) \<times> world" where
  "lists_route cfg landmarks_argument landmarks_it img shape w =
     (case landmarks_argument of
        None \<Rightarrow> display_image_and_points cfg img shape w
      | Some landmarks \<Rightarrow>
          if length shape > 0 then
            (case landmarks_it of
               [] \<Rightarrow> (Inl undefined_behaviour, w)
             | pathname # later \<Rightarrow>
                 (let w1 = emit (Ev_SavePts pathname shape) w
                  in if verbose cfg then display_image_and_points cfg img shape w1
                     else (Inr (), w1)))
          else if verbose cfg then display_image_and_points cfg img shape w
          else (Inr (), w))"

text \<open>Lines 215 to 240: one image of the list.\<close>

definition lists_frame ::
  "('t, 'p) env \<Rightarrow> Configuration \<Rightarrow> 'p option \<Rightarrow> string option \<Rightarrow> c_int \<Rightarrow> string
     \<Rightarrow> string list \<Rightarrow> c_int \<Rightarrow> 't \<Rightarrow> world \<Rightarrow> (failure + unit) \<times> 't \<times> world" where
  "lists_frame env cfg tracker_params landmarks_argument number_of_images image_pathname
       landmarks_it current_image_index tracker w =
     (let w1 = (if verbose cfg
                then emit (Ev_printf_Image current_image_index number_of_images) w
                else w);
          w2 = emit (Ev_load_grayscale_image image_pathname) w1
      in case load_grayscale_image env image_pathname of
           None \<Rightarrow>
             (Inl (make_runtime_error (''Unable to load image '' @ quoted image_pathname)),
              tracker, w2)
         | Some (gray_image, img) \<Rightarrow>
             (let (shape, tracker1, w3) = lists_decide env cfg tracker_params gray_image tracker w2
              in case lists_route cfg landmarks_argument landmarks_it img shape w3 of
                   (Inl e, w4) \<Rightarrow> (Inl e, tracker1, w4)
                 | (Inr u, w4) \<Rightarrow> (Inr (), tracker1, w4)))"

text \<open>The \<open>for\<close> loop of lines 214 to 244, by recursion on what is left of
  \<open>image_pathnames\<close>. \<open>landmarks_it++\<close> at \<open>end()\<close> is undefined.\<close>

fun lists_loop ::
  "('t, 'p) env \<Rightarrow> Configuration \<Rightarrow> 'p option \<Rightarrow> string option \<Rightarrow> c_int \<Rightarrow> string list
     \<Rightarrow> string list \<Rightarrow> c_int \<Rightarrow> 't \<Rightarrow> world \<Rightarrow> (failure + unit) \<times> 't \<times> world" where
  "lists_loop env cfg tracker_params landmarks_argument number_of_images [] landmarks_it
       current_image_index tracker w = (Inr (), tracker, w)"
| "lists_loop env cfg tracker_params landmarks_argument number_of_images (image_pathname # image_it)
       landmarks_it current_image_index tracker w =
     (case lists_frame env cfg tracker_params landmarks_argument number_of_images image_pathname
             landmarks_it current_image_index tracker w of
        (Inl e, tracker1, w1) \<Rightarrow> (Inl e, tracker1, w1)
      | (Inr u, tracker1, w1) \<Rightarrow>
          (case landmarks_argument of
             None \<Rightarrow>
               lists_loop env cfg tracker_params landmarks_argument number_of_images image_it
                 landmarks_it (current_image_index + 1) tracker1 w1
           | Some landmarks \<Rightarrow>
               (case landmarks_it of
                  [] \<Rightarrow> (Inl undefined_behaviour, tracker1, w1)
                | pathname # later \<Rightarrow>
                    lists_loop env cfg tracker_params landmarks_argument number_of_images image_it
                      later (current_image_index + 1) tracker1 w1)))"

text \<open>The same loop when the tracker pointer is null (list mode does not check it):
  the first image is announced and loaded, and the call \<open>tracker->NewFrame\<close> of line
  224 is undefined. With no image the loop body is never entered.\<close>

definition lists_null_tracker ::
  "('t, 'p) env \<Rightarrow> Configuration \<Rightarrow> c_int \<Rightarrow> string list \<Rightarrow> world
     \<Rightarrow> (failure + unit) \<times> world" where
  "lists_null_tracker env cfg number_of_images image_pathnames w =
     (case image_pathnames of
        [] \<Rightarrow> (Inr (), w)
      | image_pathname # image_it \<Rightarrow>
          (let w1 = (if verbose cfg then emit (Ev_printf_Image 1 number_of_images) w else w);
               w2 = emit (Ev_load_grayscale_image image_pathname) w1
           in case load_grayscale_image env image_pathname of
                None \<Rightarrow>
                  (Inl (make_runtime_error (''Unable to load image '' @ quoted image_pathname)),
                   w2)
              | Some loaded \<Rightarrow> (Inl undefined_behaviour, w2)))"

text \<open>Lines 200 to 207: the list of landmark pathnames, empty without a landmarks
  argument, and the check of its length.\<close>

definition read_landmark_pathnames ::
  "('t, 'p) env \<Rightarrow> string \<Rightarrow> string list \<Rightarrow> string option \<Rightarrow> world
     \<Rightarrow> (failure + string list) \<times> world" where
  "read_landmark_pathnames env image_argument image_pathnames landmarks_argument w =
     (case landmarks_argument of
        None \<Rightarrow> (Inr [], w)
      | Some landmarks \<Rightarrow>
          (let w1 = emit (Ev_read_list landmarks) w
           in case read_list env landmarks of
                None \<Rightarrow>
                  (Inl (make_runtime_error (''Unable to read list '' @ quoted landmarks)), w1)
              | Some landmark_pathnames \<Rightarrow>
                  if length landmark_pathnames \<noteq> length image_pathnames
                  then (Inl (make_runtime_error
                          (''Number of pathnames in list '' @ quoted image_argument
                             @ '' does not match the number in '' @ quoted landmarks)), w1)
                  else (Inr landmark_pathnames, w1)))"

text \<open>Lines 193 to 249. The pointers that the two loaders return are not checked.\<close>

definition run_lists_mode ::
  "('t, 'p) env \<Rightarrow> Configuration \<Rightarrow> string \<Rightarrow> string option \<Rightarrow> world
     \<Rightarrow> (failure + c_int) \<times> world" where
  "run_lists_mode env cfg image_argument landmarks_argument w =
     (let loaded_tracker = LoadFaceTracker env (model_pathname cfg);
          w1 = emit (Ev_LoadFaceTracker (model_pathname cfg)) w;
          tracker_params = LoadFaceTrackerParams env (params_pathname cfg);
          w2 = emit (Ev_LoadFaceTrackerParams (params_pathname cfg)) w1;
          w3 = emit (Ev_read_list image_argument) w2
      in case read_list env image_argument of
           None \<Rightarrow>
             (Inl (make_runtime_error (''Unable to read list '' @ quoted image_argument)), w3)
         | Some image_pathnames \<Rightarrow>
             (case read_landmark_pathnames env image_argument image_pathnames
                     landmarks_argument w3 of
                (Inl e, w4) \<Rightarrow> (Inl e, w4)
              | (Inr landmark_pathnames, w4) \<Rightarrow>
                  (case loaded_tracker of
                     None \<Rightarrow>
                       (case lists_null_tracker env cfg (of_nat (length image_pathnames))
                               image_pathnames w4 of
                          (Inl e, w5) \<Rightarrow> (Inl e, w5)
                        | (Inr u, w5) \<Rightarrow> (Inr 0, w5))
                   | Some tracker \<Rightarrow>
                       (case lists_loop env cfg tracker_params landmarks_argument
                               (of_nat (length image_pathnames)) image_pathnames
                               landmark_pathnames 1 tracker w4 of
                          (Inl e, tracker1, w5) \<Rightarrow> (Inl e, w5)
                        | (Inr u, tracker1, w5) \<Rightarrow> (Inr 0, w5)))))"

subsection \<open>\<open>run_video_mode\<close>\<close>

text \<open>Lines 289 to 296.\<close>

definition video_decide ::
  "('t, 'p) env \<Rightarrow> Configuration \<Rightarrow> 'p option \<Rightarrow> Mat \<Rightarrow> 't \<Rightarrow> world
     \<Rightarrow> shape \<times> 't \<times> world" where
  "video_decide env cfg tracker_params gray_image tracker w =
     (let (result, tracker1) = Track env tracker gray_image tracker_params;
          w1 = emit (Ev_Track gray_image result) w
      in if tracking_threshold cfg \<le>s result
         then (getShape env tracker1, tracker1, emit Ev_getShape w1)
         else ([], Reset env tracker1, emit Ev_Reset w1))"

text \<open>Lines 269, 270 and 301: the pathname that \<open>snprintf\<close> leaves in the buffer of
  1000 characters.\<close>

definition pathname_buffer_size :: nat where
  "pathname_buffer_size = 1000"

definition resolve_pathname :: "('t, 'p) env \<Rightarrow> string \<Rightarrow> c_int \<Rightarrow> string" where
  "resolve_pathname env landmarks frame_number =
     snprintf env pathname_buffer_size landmarks frame_number"

text \<open>Lines 298 to 307.\<close>

definition video_route ::
  "('t, 'p) env \<Rightarrow> Configuration \<Rightarrow> string option \<Rightarrow> c_int \<Rightarrow> Mat \<Rightarrow> shape \<Rightarrow> world
     \<Rightarrow> (failure + unit) \<times> world" where
  "video_route env cfg landmarks_argument frame_number img shape w =
     (case landmarks_argument of
        None \<Rightarrow> display_image_and_points cfg img shape w
      | Some landmarks \<Rightarrow>
          if length shape > 0 then
            (let w1 = emit (Ev_SavePts (resolve_pathname env landmarks frame_number) shape) w
             in if verbose cfg then display_image_and_points cfg img shape w1
                else (Inr (), w1))
          else if verbose cfg then display_image_and_points cfg img shape w
          else (Inr (), w))"

text \<open>Lines 281 to 287.\<close>

definition video_gray_image :: "('t, 'p) env \<Rightarrow> Mat \<Rightarrow> failure + Mat" where
  "video_gray_image env img =
     (if mat_type img = CV_8UC3 then Inr (cvtColor env img)
      else if mat_type img = CV_8UC1 then Inr img
      else Inl (make_runtime_error
                  ''Do not know how to convert video frame to a grayscale image.''))"

text \<open>Lines 276 to 307: one frame of the video.\<close>

definition video_frame ::
  "('t, 'p) env \<Rightarrow> Configuration \<Rightarrow> 'p option \<Rightarrow> string option \<Rightarrow> Mat \<Rightarrow> c_int \<Rightarrow> 't
     \<Rightarrow> world \<Rightarrow> (failure + unit) \<times> 't \<times> world" where
  "video_frame env cfg tracker_params landmarks_argument img frame_number tracker w =
     (let w1 = (if verbose cfg then emit (Ev_printf_Frame_number frame_number) w else w)
      in case video_gray_image env img of
           Inl e \<Rightarrow> (Inl e, tracker, w1)
         | Inr gray_image \<Rightarrow>
             (let (shape, tracker1, w2) = video_decide env cfg tracker_params gray_image tracker w1
              in case video_route env cfg landmarks_argument frame_number img shape w2 of
                   (Inl e, w3) \<Rightarrow> (Inl e, tracker1, w3)
                 | (Inr u, w3) \<Rightarrow> (Inr (), tracker1, w3)))"

text \<open>The \<open>while\<close> loop of lines 275 to 311. \<open>input\<close> is what is left of the video,
  a finite list of frames; \<open>frame_number++\<close> wraps in the model (in C++ the overflow of
  an \<open>int\<close> is undefined).\<close>

function video_loop ::
  "('t, 'p) env \<Rightarrow> Configuration \<Rightarrow> 'p option \<Rightarrow> string option \<Rightarrow> Mat \<Rightarrow> Mat list \<Rightarrow> c_int
     \<Rightarrow> 't \<Rightarrow> world \<Rightarrow> (failure + unit) \<times> 't \<times> world" where
  "video_loop env cfg tracker_params landmarks_argument img input frame_number tracker w =
     (if rows img > 0 \<and> cols img > 0 then
        (case video_frame env cfg tracker_params landmarks_argument img frame_number tracker w of
           (Inl e, tracker1, w1) \<Rightarrow> (Inl e, tracker1, w1)
         | (Inr u, tracker1, w1) \<Rightarrow>
             video_loop env cfg tracker_params landmarks_argument
               (fst (VideoCapture_read input)) (snd (VideoCapture_read input))
               (frame_number + 1) tracker1 (emit Ev_VideoCapture_read w1))
      else (Inr (), tracker, w))"
  by pat_completeness auto
termination
  by (relation "measure (\<lambda>(env, cfg, tracker_params, landmarks_argument, img, input,
                            frame_number, tracker, w).
                   2 * length input + (if rows img > 0 \<and> cols img > 0 then 1 else 0))")
     (auto simp: VideoCapture_read_def empty_Mat_def split: list.splits)

declare video_loop.simps [simp del]

text \<open>Lines 256 to 316. After the two loads come \<open>assert(tracker)\<close> and
  \<open>assert(tracker_params)\<close> (lines 260 and 261), in this order and before the video is
  opened.\<close>

definition run_video_mode ::
  "('t, 'p) env \<Rightarrow> Configuration \<Rightarrow> string \<Rightarrow> string option \<Rightarrow> world
     \<Rightarrow> (failure + c_int) \<times> world" where
  "run_video_mode env cfg image_argument landmarks_argument w =
     (let loaded_tracker = LoadFaceTracker env (model_pathname cfg);
          w1 = emit (Ev_LoadFaceTracker (model_pathname cfg)) w;
          tracker_params = LoadFaceTrackerParams env (params_pathname cfg);
          w2 = emit (Ev_LoadFaceTrackerParams (params_pathname cfg)) w1
      in case loaded_tracker of
           None \<Rightarrow> (Inl assertion_failed, emit (Ev_assert_failed ''tracker'') w2)
         | Some tracker \<Rightarrow>
             if tracker_params = None
             then (Inl assertion_failed, emit (Ev_assert_failed ''tracker_params'') w2)
             else
               (let w3 = emit (Ev_VideoCapture image_argument) w2
                in case VideoCapture env image_argument of
                     None \<Rightarrow>
                       (Inl (make_runtime_error
                               (''Unable to open video file '' @ quoted image_argument)), w3)
                   | Some input \<Rightarrow>
                       (case video_loop env cfg tracker_params landmarks_argument
                               (fst (VideoCapture_read input)) (snd (VideoCapture_read input)) 1
                               tracker (emit Ev_VideoCapture_read w3) of
                          (Inl e, tracker1, w4) \<Rightarrow> (Inl e, w4)
                        | (Inr u, tracker1, w4) \<Rightarrow> (Inr 0, w4))))"

subsection \<open>\<open>run_program\<close> and \<open>main\<close>\<close>

text \<open>The local variables of \<open>run_program\<close>. A \<open>CommandLineArgument<std::string>\<close>
  is a string that may be absent; \<open>have_argument_p\<close> tells which.\<close>

record arguments =
  image_argument :: "string option"
  landmarks_argument :: "string option"
  lists_mode :: bool
  video_mode :: bool
  wait_time_specified :: bool
  config :: Configuration

definition initial_arguments :: "('t, 'p) env \<Rightarrow> arguments" where
  "initial_arguments env =
     \<lparr>image_argument = None, landmarks_argument = None,
      lists_mode = False, video_mode = False, wait_time_specified = False,
      config = \<lparr>wait_time = 0,
             model_pathname = DefaultFaceTrackerModelPathname env,
             params_pathname = DefaultFaceTrackerParamsPathname env,
             tracking_threshold = 5,
             window_title = ''CSIRO Face Fit'',
             verbose = False,
             circle_radius = 2, circle_thickness = 1, circle_linetype = 8,
             circle_shift = 0\<rparr>\<rparr>"

text \<open>Modelled from the spec: \<open>get_argument\<close> of utils/command-line-arguments.hpp is
  not in the sources. The command line of the spec writes every option that takes a value
  as the option followed by its value (\<open>--threshold <int>\<close>), so the value is the next
  argument, read by the parser of its type; no next argument, or one the parser refuses,
  is an error. \<open>rest\<close> is the command line after the option.\<close>

definition get_argument :: "(string \<Rightarrow> 'a option) \<Rightarrow> string \<Rightarrow> string list \<Rightarrow> failure + 'a" where
  "get_argument parse argument rest =
     (case rest of
        [] \<Rightarrow> Inl (make_runtime_error (''No value for argument '' @ argument))
      | v # later \<Rightarrow>
          (case parse v of
             None \<Rightarrow> Inl (make_runtime_error (''Bad value for argument '' @ argument))
           | Some x \<Rightarrow> Inr x))"

datatype parse_result = Help | Parsed arguments

text \<open>The \<open>for\<close> loop of lines 124 to 150 over \<open>argv[1]\<close>, ..., by recursion on what is
  left of the command line; after an option with a value the loop goes on behind the
  value.\<close>

function parse_arguments ::
  "('t, 'p) env \<Rightarrow> string list \<Rightarrow> arguments \<Rightarrow> failure + parse_result" where
  "parse_arguments env [] a = Inr (Parsed a)"
| "parse_arguments env (argument # rest) a =
     (if argument = ''--help'' \<or> argument = ''-h'' then Inr Help
      else if argument = ''--lists'' then parse_arguments env rest (a\<lparr>lists_mode := True\<rparr>)
      else if argument = ''--video'' then parse_arguments env rest (a\<lparr>video_mode := True\<rparr>)
      else if argument = ''--wait-time'' then
        (case get_argument (parse_double env) argument rest of
           Inl e \<Rightarrow> Inl e
         | Inr x \<Rightarrow>
             parse_arguments env (tl rest)
               (a\<lparr>wait_time_specified := True, config := (config a)\<lparr>wait_time := x\<rparr>\<rparr>))
      else if argument = ''--model'' then
        (case get_argument Some argument rest of
           Inl e \<Rightarrow> Inl e
         | Inr x \<Rightarrow> parse_arguments env (tl rest) (a\<lparr>config := (config a)\<lparr>model_pathname := x\<rparr>\<rparr>))
      else if argument = ''--params'' then
        (case get_argument Some argument rest of
           Inl e \<Rightarrow> Inl e
         | Inr x \<Rightarrow> parse_arguments env (tl rest) (a\<lparr>config := (config a)\<lparr>params_pathname := x\<rparr>\<rparr>))
      else if argument = ''--title'' then
        (case get_argument Some argument rest of
           Inl e \<Rightarrow> Inl e
         | Inr x \<Rightarrow> parse_arguments env (tl rest) (a\<lparr>config := (config a)\<lparr>window_title := x\<rparr>\<rparr>))
      else if argument = ''--threshold'' then
        (case get_argument (parse_int env) argument rest of
           Inl e \<Rightarrow> Inl e
         | Inr x \<Rightarrow>
             parse_arguments env (tl rest) (a\<lparr>config := (config a)\<lparr>tracking_threshold := x\<rparr>\<rparr>))
      else if argument = ''--verbose'' then
        parse_arguments env rest (a\<lparr>config := (config a)\<lparr>verbose := True\<rparr>\<rparr>)
      else
        (case assign_argument env argument (image_argument a) (landmarks_argument a) of
           (ok, image_argument1, landmarks_argument1) \<Rightarrow>
             if \<not> ok
             then Inl (make_runtime_error (''Unable to process argument '' @ quoted argument))
             else parse_arguments env rest
                    (a\<lparr>image_argument := image_argument1,
                       landmarks_argument := landmarks_argument1\<rparr>)))"
  by pat_completeness auto
termination
  by (relation "measure (\<lambda>(env, args, a). length args)") auto

text \<open>Lines 152 to 174.\<close>

definition run_program ::
  "('t, 'p) env \<Rightarrow> string list \<Rightarrow> world \<Rightarrow> (failure + c_int) \<times> world" where
  "run_program env argv w =
     (case parse_arguments env (drop 1 argv) (initial_arguments env) of
        Inl e \<Rightarrow> (Inl e, w)
      | Inr Help \<Rightarrow> (Inr 0, emit Ev_print_usage w)
      | Inr (Parsed a) \<Rightarrow>
          (case image_argument a of
             None \<Rightarrow> (Inr 0, emit Ev_print_usage w)
           | Some img \<Rightarrow>
               if lists_mode a \<and> video_mode a then
                 (Inl (make_runtime_error
                    ''The operator is confused as the switches --lists and --video are present on the command line.''), w)
               else if lists_mode a then
                 run_lists_mode env
                   (if \<not> wait_time_specified a then (config a)\<lparr>wait_time := 1 / 30\<rparr> else config a)
                   img (landmarks_argument a) w
               else if video_mode a then
                 run_video_mode env
                   (if \<not> wait_time_specified a then (config a)\<lparr>wait_time := 1 / 30\<rparr> else config a)
                   img (landmarks_argument a) w
               else
                 run_image_mode env
                   (if \<not> wait_time_specified a then (config a)\<lparr>wait_time := 0\<rparr> else config a)
                   img (landmarks_argument a) w))"

text \<open>\<open>main\<close>, lines 177 to 189: the exit code of the process. A failed assertion is not
  an exception: \<open>abort\<close> ends the process inside \<open>run_program\<close>, and \<open>main\<close> returns
  no exit code (\<open>None\<close>); nor does it where the behaviour is undefined.\<close>

definition main :: "('t, 'p) env \<Rightarrow> string list \<Rightarrow> world \<Rightarrow> c_int option \<times> world" where
  "main env argv w =
     (case run_program env argv w of
        (Inr code, w1) \<Rightarrow> (Some code, w1)
      | (Inl user_pressed_escape, w1) \<Rightarrow> (Some 1, emit (Ev_stdout ''Stopping prematurely.'') w1)
      | (Inl (runtime_error what), w1) \<Rightarrow>
          (Some 2, emit (Ev_stderr (''Caught unhandled exception: '' @ what)) w1)
      | (Inl assertion_failed, w1) \<Rightarrow> (None, w1)
      | (Inl undefined_behaviour, w1) \<Rightarrow> (None, w1))"

section \<open>Reading the trace\<close>

text \<open>
  The properties below are stated on the events a call appends to the trace. The
  predicates of this section classify events and event lists; none of them is part of the
  program.
\<close>

subsection \<open>Kinds of events\<close>

text \<open>The confidence that a call of \<open>NewFrame\<close> or \<open>Track\<close> returned.\<close>

fun process_result :: "event \<Rightarrow> c_int option" where
  "process_result (Ev_NewFrame gray_image result) = Some result"
| "process_result (Ev_Track gray_image result) = Some result"
| "process_result e = None"

fun process_event :: "event \<Rightarrow> bool" where
  "process_event (Ev_NewFrame gray_image result) = True"
| "process_event (Ev_Track gray_image result) = True"
| "process_event e = False"

fun getShape_event :: "event \<Rightarrow> bool" where
  "getShape_event Ev_getShape = True"
| "getShape_event e = False"

fun Reset_event :: "event \<Rightarrow> bool" where
  "Reset_event Ev_Reset = True"
| "Reset_event e = False"

fun imshow_event :: "event \<Rightarrow> bool" where
  "imshow_event (Ev_imshow title shown pts colour) = True"
| "imshow_event e = False"

fun SavePts_event :: "event \<Rightarrow> bool" where
  "SavePts_event (Ev_SavePts pathname pts) = True"
| "SavePts_event e = False"

fun stderr_event :: "event \<Rightarrow> bool" where
  "stderr_event (Ev_stderr what) = True"
| "stderr_event e = False"

fun assert_event :: "event \<Rightarrow> bool" where
  "assert_event (Ev_assert_failed expression) = True"
| "assert_event e = False"

fun load_event :: "event \<Rightarrow> bool" where
  "load_event (Ev_load_grayscale_image pathname) = True"
| "load_event e = False"

text \<open>The key that \<open>display_image_and_points\<close> takes for escape: its low byte is 27.\<close>

definition escape_key :: "c_int \<Rightarrow> bool" where
  "escape_key key = ((ucast key :: 8 word) = 27)"

fun escape_event :: "event \<Rightarrow> bool" where
  "escape_event (Ev_waitKey x key) = escape_key key"
| "escape_event e = False"

text \<open>None of the keys that the world still holds is taken for escape.\<close>

definition no_escape :: "world \<Rightarrow> bool" where
  "no_escape w = (\<not> list_ex escape_key (keys w))"

text \<open>The shape that an event shows or saves.\<close>

fun event_shape :: "event \<Rightarrow> shape option" where
  "event_shape (Ev_imshow title shown pts colour) = Some pts"
| "event_shape (Ev_SavePts pathname pts) = Some pts"
| "event_shape e = None"

definition only_shape :: "shape \<Rightarrow> event list \<Rightarrow> bool" where
  "only_shape s es = list_all (\<lambda>e. case event_shape e of None \<Rightarrow> True | Some pts \<Rightarrow> pts = s) es"

text \<open>The image that an event shows.\<close>

fun event_image :: "event \<Rightarrow> Mat option" where
  "event_image (Ev_imshow title shown pts colour) = Some shown"
| "event_image e = None"

definition only_image :: "Mat \<Rightarrow> event list \<Rightarrow> bool" where
  "only_image img es = list_all (\<lambda>e. case event_image e of None \<Rightarrow> True | Some shown \<Rightarrow> shown = img) es"

text \<open>The images shown by \<open>cv::imshow\<close>, in order.\<close>

definition shown_images :: "event list \<Rightarrow> Mat list" where
  "shown_images es = List.map_filter event_image es"

text \<open>The pathnames written by \<open>IO::SavePts\<close>, in order.\<close>

fun saved_path :: "event \<Rightarrow> string option" where
  "saved_path (Ev_SavePts pathname pts) = Some pathname"
| "saved_path e = None"

definition saved_paths :: "event list \<Rightarrow> string list" where
  "saved_paths es = List.map_filter saved_path es"

text \<open>Every pathname written, paired with the image loaded last before it.\<close>

fun save_pairs :: "string option \<Rightarrow> event list \<Rightarrow> (string \<times> string) list" where
  "save_pairs loaded [] = []"
| "save_pairs loaded (e # es) =
     (if load_event e then
        (case e of Ev_load_grayscale_image pathname \<Rightarrow> save_pairs (Some pathname) es
         | other \<Rightarrow> save_pairs loaded es)
      else
        (case (saved_path e, loaded) of
           (Some pathname, Some image_pathname) \<Rightarrow> (image_pathname, pathname) # save_pairs loaded es
         | other \<Rightarrow> save_pairs loaded es))"

text \<open>The image loaded last, after the events \<open>es\<close>.\<close>

fun loaded_after :: "string option \<Rightarrow> event list \<Rightarrow> string option" where
  "loaded_after loaded [] = loaded"
| "loaded_after loaded (e # es) =
     (case e of Ev_load_grayscale_image pathname \<Rightarrow> loaded_after (Some pathname) es
      | other \<Rightarrow> loaded_after loaded es)"

subsection \<open>What follows a call of the tracker\<close>

text \<open>\<open>after_process ok es\<close>: for every call of the tracker in \<open>es\<close>, with result \<open>c\<close>,
  the events behind it satisfy \<open>ok c\<close>.\<close>

fun after_process :: "(c_int \<Rightarrow> event list \<Rightarrow> bool) \<Rightarrow> event list \<Rightarrow> bool" where
  "after_process ok [] = True"
| "after_process ok (e # es) =
     ((case process_result e of None \<Rightarrow> True | Some c \<Rightarrow> ok c es) \<and> after_process ok es)"

definition next_is :: "event \<Rightarrow> event list \<Rightarrow> bool" where
  "next_is e es = (case es of [] \<Rightarrow> False | e' # later \<Rightarrow> e' = e)"

text \<open>Every result is followed at once by \<open>getShape\<close> when it reaches the threshold
  and by \<open>Reset\<close> when it does not.\<close>

definition decision_follows :: "c_int \<Rightarrow> event list \<Rightarrow> bool" where
  "decision_follows t =
     after_process (\<lambda>c es. next_is (if t \<le>s c then Ev_getShape else Ev_Reset) es)"

text \<open>Every result below the threshold is followed at once by \<open>Reset\<close>.\<close>

definition reset_follows_reject :: "c_int \<Rightarrow> event list \<Rightarrow> bool" where
  "reset_follows_reject t =
     after_process (\<lambda>c es. if t \<le>s c then True else next_is Ev_Reset es)"

text \<open>A result is followed at once by \<open>getShape\<close> exactly when it reaches the
  threshold.\<close>

definition decided_by :: "c_int \<Rightarrow> event list \<Rightarrow> bool" where
  "decided_by t = after_process (\<lambda>c es. next_is Ev_getShape es = (t \<le>s c))"

text \<open>Every result in the trace satisfies \<open>P\<close>; every result is followed at once by
  \<open>getShape\<close>; no result is.\<close>

definition all_results :: "(c_int \<Rightarrow> bool) \<Rightarrow> event list \<Rightarrow> bool" where
  "all_results P es = list_all (\<lambda>e. case process_result e of None \<Rightarrow> True | Some c \<Rightarrow> P c) es"

definition all_accepted :: "event list \<Rightarrow> bool" where
  "all_accepted = after_process (\<lambda>c es. next_is Ev_getShape es)"

definition all_rejected :: "event list \<Rightarrow> bool" where
  "all_rejected = after_process (\<lambda>c es. \<not> next_is Ev_getShape es)"

text \<open>The images handed to the tracker, in order.\<close>

fun tracked_image :: "event \<Rightarrow> Mat option" where
  "tracked_image (Ev_NewFrame gray_image result) = Some gray_image"
| "tracked_image (Ev_Track gray_image result) = Some gray_image"
| "tracked_image e = None"

definition tracked_images :: "event list \<Rightarrow> Mat list" where
  "tracked_images es = List.map_filter tracked_image es"

subsection \<open>The escape key\<close>

text \<open>\<open>escape_last True es\<close>: the last event of \<open>es\<close> is a \<open>waitKey\<close> that returned
  the escape key, and no event before it is. \<open>escape_last False es\<close>: no \<open>waitKey\<close> of
  \<open>es\<close> returned the escape key.\<close>

definition escape_last :: "bool \<Rightarrow> event list \<Rightarrow> bool" where
  "escape_last escaped es =
     (if escaped
      then es \<noteq> [] \<and> escape_event (last es) \<and> \<not> list_ex escape_event (butlast es)
      else \<not> list_ex escape_event es)"

subsection \<open>The events of the pieces of a frame\<close>

text \<open>What \<open>display_image_and_points\<close> appends when \<open>waitKey\<close> returns \<open>key\<close>.\<close>

definition display_events :: "Configuration \<Rightarrow> Mat \<Rightarrow> shape \<Rightarrow> c_int \<Rightarrow> event list" where
  "display_events cfg img pts key =
     Ev_imshow (window_title cfg) img pts
        (if mat_type img = CV_8UC1 then [255]
         else if mat_type img = CV_8UC3 then [0, 0, 255] else [255])
     # (if wait_time cfg = 0 then [Ev_stdout ''Press any key to continue.''] else [])
     @ [Ev_waitKey (wait_time cfg) key]"

text \<open>What a router appends when it saves to \<open>save\<close> (if any) and displays (if
  \<open>disp\<close>), and what it returns.\<close>

definition route_events ::
  "string option \<Rightarrow> bool \<Rightarrow> Configuration \<Rightarrow> Mat \<Rightarrow> shape \<Rightarrow> c_int \<Rightarrow> event list" where
  "route_events save disp cfg img s key =
     (case save of None \<Rightarrow> [] | Some pathname \<Rightarrow> [Ev_SavePts pathname s])
     @ (if disp then display_events cfg img s key else [])"

definition route_result :: "bool \<Rightarrow> c_int \<Rightarrow> failure + unit" where
  "route_result disp key = (if disp \<and> escape_key key then Inl user_pressed_escape else Inr ())"

text \<open>What the decision appends behind the call \<open>process\<close> of the tracker.\<close>

definition decide_events :: "event \<Rightarrow> bool \<Rightarrow> bool \<Rightarrow> event list" where
  "decide_events process accept reset =
     process # (if accept then [Ev_getShape] else if reset then [Ev_Reset] else [])"

subsection \<open>The router table of the specification\<close>



subsection \<open>Positional arguments\<close>

text \<open>The arguments of the command line that the loop of \<open>run_program\<close> hands to
  \<open>assign_argument\<close>: those that are neither an option nor the value of one, up to
  the first \<open>--help\<close>.\<close>

function positional_arguments :: "string list \<Rightarrow> string list" where
  "positional_arguments [] = []"
| "positional_arguments (argument # rest) =
     (if argument = ''--help'' \<or> argument = ''-h'' then []
      else if argument = ''--lists'' \<or> argument = ''--video'' \<or> argument = ''--verbose''
      then positional_arguments rest
      else if argument = ''--wait-time'' \<or> argument = ''--model'' \<or> argument = ''--params''
              \<or> argument = ''--title'' \<or> argument = ''--threshold''
      then positional_arguments (tl rest)
      else argument # positional_arguments rest)"
  by pat_completeness auto
termination
  by (relation "measure length") auto

subsection \<open>The threshold of a parsed command line\<close>

text \<open>The threshold that the loop of \<open>run_program\<close> leaves in the configuration, when
  it ends without an error and without \<open>--help\<close>.\<close>

definition parsed_threshold :: "failure + parse_result \<Rightarrow> c_int option" where
  "parsed_threshold r =
     (case r of
        Inl e \<Rightarrow> None
      | Inr Help \<Rightarrow> None
      | Inr (Parsed a) \<Rightarrow> Some (tracking_threshold (config a)))"

text \<open>The results of the calls of the tracker, in order.\<close>

definition process_results :: "event list \<Rightarrow> c_int list" where
  "process_results es = List.map_filter process_result es"

subsection \<open>Reading a number back\<close>


subsection \<open>Frames still to come\<close>

text \<open>An upper bound of the number of frames that the loop of video mode still
  processes, from the frame it holds and what is left of the video.\<close>

definition frames_left :: "Mat \<Rightarrow> Mat list \<Rightarrow> nat" where
  "frames_left img input = (if rows img > 0 \<and> cols img > 0 then Suc (length input) else 0)"

section \<open>A scripted environment\<close>

text \<open>
  A concrete environment, used to run the model on concrete inputs. The tracker state is
  the list of the confidences it is going to return; its shape has five points.
  \<open>assign_argument\<close> fills the image argument, then the landmarks argument, and
  refuses a third positional argument. \<open>snprintf_other\<close> leaves the format string in
  the buffer.
\<close>

definition gray_frame :: Mat where
  "gray_frame = \<lparr>rows = 2, cols = 2, mat_type = CV_8UC1, pixels = [10, 20, 30, 40]\<rparr>"

definition colour_frame :: Mat where
  "colour_frame = \<lparr>rows = 1, cols = 2, mat_type = CV_8UC3, pixels = [1, 2, 3, 4, 5, 6]\<rparr>"

definition bgra_frame :: Mat where
  "bgra_frame = \<lparr>rows = 1, cols = 1, mat_type = CV_MAKETYPE 0 4, pixels = [1, 2, 3, 255]\<rparr>"

text \<open>A frame of three channels of 16 bits (\<open>CV_16UC3\<close>; the depth \<open>CV_16U\<close> is 2).\<close>

definition deep_frame :: Mat where
  "deep_frame = \<lparr>rows = 1, cols = 1, mat_type = CV_MAKETYPE 2 3, pixels = [1000, 2000, 3000]\<rparr>"

definition five_points :: shape where
  "five_points = [(1, 1), (2, 1), (3, 2), (4, 1), (5, 1)]"

definition scripted_next :: "c_int list \<Rightarrow> c_int \<times> c_int list" where
  "scripted_next script = (case script of [] \<Rightarrow> (0, []) | c # later \<Rightarrow> (c, later))"

definition scripted_env :: "c_int list \<Rightarrow> (c_int list, unit) env" where
  "scripted_env script =
     \<lparr>DefaultFaceTrackerModelPathname = ''face.tracker'',
      DefaultFaceTrackerParamsPathname = ''face.params'',
      parse_double = (\<lambda>v. if v = ''0.5'' then Some (1 / 2) else if v = ''0'' then Some 0 else None),
      parse_int =
        (\<lambda>v. if v = ''10'' then Some 10 else if v = ''-3'' then Some (- 3)
              else if v = ''42'' then Some 42 else None),
      assign_argument =
        (\<lambda>argument first second.
           case first of
             None \<Rightarrow> (True, Some argument, second)
           | Some chosen \<Rightarrow>
               (case second of
                  None \<Rightarrow> (True, first, Some argument)
                | Some landmarks \<Rightarrow> (False, first, second))),
      LoadFaceTracker = (\<lambda>pathname. Some script),
      LoadFaceTrackerParams = (\<lambda>pathname. Some ()),
      NewFrame = (\<lambda>tracker gray_image params. scripted_next tracker),
      Track = (\<lambda>tracker gray_image params. scripted_next tracker),
      Reset = (\<lambda>tracker. tracker),
      getShape = (\<lambda>tracker. five_points),
      read_list =
        (\<lambda>pathname.
           if pathname = ''images.txt'' then Some [''a.png'', ''b.png'', ''c.png'']
           else if pathname = ''two.txt'' then Some [''a.pts'', ''b.pts'']
           else if pathname = ''three.txt'' then Some [''a.pts'', ''b.pts'', ''c.pts'']
           else if pathname = ''broken.txt'' then Some [''a.png'', ''missing.png'', ''c.png'']
           else None),
      load_grayscale_image =
        (\<lambda>pathname.
           if pathname = ''a.png'' \<or> pathname = ''b.png'' \<or> pathname = ''c.png''
           then Some (gray_frame, colour_frame) else None),
      VideoCapture =
        (\<lambda>pathname.
           if pathname = ''face.avi'' then Some [colour_frame, gray_frame, colour_frame]
           else if pathname = ''odd.avi'' then Some [colour_frame, bgra_frame, gray_frame]
           else if pathname = ''deep.avi'' then Some [deep_frame, gray_frame]
           else None),
      cvtColor = (\<lambda>m. m\<lparr>mat_type := CV_8UC1, pixels := take 2 (pixels m)\<rparr>),
      snprintf_other = (\<lambda>bufsize fmt arg. take (bufsize - 1) fmt)\<rparr>"

text \<open>The same environment with a model file that does not load.\<close>

definition no_tracker_env :: "c_int list \<Rightarrow> (c_int list, unit) env" where
  "no_tracker_env script = (scripted_env script)\<lparr>LoadFaceTracker := (\<lambda>pathname. None)\<rparr>"

definition sample_cfg :: Configuration where
  "sample_cfg =
     \<lparr>wait_time = 0, model_pathname = ''face.tracker'', params_pathname = ''face.params'',
      tracking_threshold = 5, window_title = ''CSIRO Face Fit'', verbose = False,
      circle_radius = 2, circle_thickness = 1, circle_linetype = 8, circle_shift = 0\<rparr>"

definition start :: world where
  "start = \<lparr>trace = [], keys = []\<rparr>"

section \<open>Lemmas on the trace\<close>

lemma trace_emit [simp]: "trace (emit e w) = trace w @ [e]"
  by (simp add: emit_def)

lemma keys_emit [simp]: "keys (emit e w) = keys w"
  by (simp add: emit_def)

lemma events_since_app [simp]: "trace w' = trace w @ es \<Longrightarrow> events_since w w' = es"
  by (simp add: events_since_def)

lemma events_since_self [simp]: "events_since w w = []"
  by (simp add: events_since_def)

lemma events_since_emit [simp]: "events_since w (emit e w) = [e]"
  by (simp add: events_since_def)

lemma saved_paths_simps [simp]:
  "saved_paths [] = []"
  "saved_paths (e # es) = (case saved_path e of None \<Rightarrow> saved_paths es | Some p \<Rightarrow> p # saved_paths es)"
  "saved_paths (xs @ ys) = saved_paths xs @ saved_paths ys"
  by (simp_all add: saved_paths_def List.map_filter_def split: option.splits)

lemma only_shape_simps [simp]:
  "only_shape s [] = True"
  "only_shape s (e # es) = ((case event_shape e of None \<Rightarrow> True | Some pts \<Rightarrow> pts = s) \<and> only_shape s es)"
  "only_shape s (xs @ ys) = (only_shape s xs \<and> only_shape s ys)"
  by (simp_all add: only_shape_def)

lemma only_image_simps [simp]:
  "only_image img [] = True"
  "only_image img (e # es) = ((case event_image e of None \<Rightarrow> True | Some shown \<Rightarrow> shown = img) \<and> only_image img es)"
  "only_image img (xs @ ys) = (only_image img xs \<and> only_image img ys)"
  by (simp_all add: only_image_def)

lemma escape_last_Nil [simp]: "escape_last b [] = (\<not> b)"
  by (simp add: escape_last_def)

lemma escape_last_append:
  "escape_last False xs \<Longrightarrow> escape_last b ys \<Longrightarrow> escape_last b (xs @ ys)"
  by (auto simp: escape_last_def butlast_append list_ex_iff)

lemma escape_last_Cons:
  "\<not> escape_event e \<Longrightarrow> escape_last b es \<Longrightarrow> escape_last b (e # es)"
  using escape_last_append [of "[e]" b es] by (simp add: escape_last_def)

lemma process_event_None: "\<not> process_event e \<Longrightarrow> process_result e = None"
  by (cases e) auto

lemma after_process_append:
  assumes "\<And>c es ys. ok c es \<Longrightarrow> ok c (es @ ys)"
    and "after_process ok xs" and "after_process ok ys"
  shows "after_process ok (xs @ ys)"
  using assms(2) by (induction xs) (auto simp: assms split: option.splits)

lemma after_process_no_process:
  "\<not> list_ex process_event es \<Longrightarrow> after_process ok es"
  by (induction es) (auto simp: process_event_None)

lemma after_process_mono:
  assumes "\<And>c es. ok c es \<Longrightarrow> ok' c es"
  shows "after_process ok es \<Longrightarrow> after_process ok' es"
  by (induction es) (auto simp: assms split: option.splits)

lemma next_is_append: "next_is e es \<Longrightarrow> next_is e (es @ ys)"
  by (cases es) (auto simp: next_is_def)

lemma decision_follows_append:
  "decision_follows t xs \<Longrightarrow> decision_follows t ys \<Longrightarrow> decision_follows t (xs @ ys)"
  unfolding decision_follows_def by (rule after_process_append) (auto intro: next_is_append)

lemma decision_follows_no_process:
  "\<not> list_ex process_event es \<Longrightarrow> decision_follows t es"
  unfolding decision_follows_def by (rule after_process_no_process)

lemma decision_follows_reset: "decision_follows t es \<Longrightarrow> reset_follows_reject t es"
  unfolding decision_follows_def reset_follows_reject_def
  by (erule after_process_mono [rotated]) (auto split: if_splits)

lemma decision_follows_decided: "decision_follows t es \<Longrightarrow> decided_by t es"
  unfolding decision_follows_def decided_by_def
  by (erule after_process_mono [rotated]) (auto simp: next_is_def split: if_splits list.splits)

subsection \<open>The events of \<open>display_image_and_points\<close> and of the routers\<close>

lemma display_events_facts [simp]:
  "list_ex process_event (display_events cfg img s key) = False"
  "list_ex stderr_event (display_events cfg img s key) = False"
  "list_ex load_event (display_events cfg img s key) = False"
  "list_ex getShape_event (display_events cfg img s key) = False"
  "list_ex Reset_event (display_events cfg img s key) = False"
  "list_ex SavePts_event (display_events cfg img s key) = False"
  "list_ex imshow_event (display_events cfg img s key) = True"
  "list_ex escape_event (display_events cfg img s key) = escape_key key"
  "list_ex escape_event (butlast (display_events cfg img s key)) = False"
  "escape_event (last (display_events cfg img s key)) = escape_key key"
  "saved_paths (display_events cfg img s key) = []"
  "display_events cfg img s key \<noteq> []"
  "only_shape s' (display_events cfg img s key) = (s = s')"
  "only_image img' (display_events cfg img s key) = (img = img')"
  by (simp_all add: display_events_def)

lemma route_events_facts [simp]:
  "list_ex process_event (route_events save disp cfg img s key) = False"
  "list_ex stderr_event (route_events save disp cfg img s key) = False"
  "list_ex load_event (route_events save disp cfg img s key) = False"
  "list_ex getShape_event (route_events save disp cfg img s key) = False"
  "list_ex Reset_event (route_events save disp cfg img s key) = False"
  "list_ex SavePts_event (route_events save disp cfg img s key) = (save \<noteq> None)"
  "list_ex imshow_event (route_events save disp cfg img s key) = disp"
  "list_ex escape_event (route_events save disp cfg img s key) = (disp \<and> escape_key key)"
  "saved_paths (route_events save disp cfg img s key) = (case save of None \<Rightarrow> [] | Some p \<Rightarrow> [p])"
  "only_shape s (route_events save disp cfg img s key) = True"
  "only_image img (route_events save disp cfg img s key) = True"
  by (auto simp: route_events_def split: option.splits)

lemma route_events_escape_last [simp]:
  "escape_last b (route_events save disp cfg img s key) = (b = (disp \<and> escape_key key))"
  by (auto simp: route_events_def escape_last_def butlast_append split: option.splits)

lemma route_result_escape [simp]:
  "(route_result disp key = Inl user_pressed_escape) = (disp \<and> escape_key key)"
  "route_result disp key \<noteq> Inl (runtime_error m)"
  "route_result disp key \<noteq> Inl undefined_behaviour"
  "route_result disp key \<noteq> Inl assertion_failed"
  by (simp_all add: route_result_def)

lemma decide_events_facts [simp]:
  "list_ex stderr_event (decide_events e a r) = stderr_event e"
  "list_ex load_event (decide_events e a r) = load_event e"
  "list_ex escape_event (decide_events e a r) = escape_event e"
  "list_ex SavePts_event (decide_events e a r) = SavePts_event e"
  "list_ex imshow_event (decide_events e a r) = imshow_event e"
  "list_ex getShape_event (decide_events e a r) = (getShape_event e \<or> a)"
  "list_ex Reset_event (decide_events e a r) = (Reset_event e \<or> \<not> a \<and> r)"
  "saved_paths (decide_events e a r) = saved_paths [e]"
  "only_shape s (decide_events e a r) = only_shape s [e]"
  "only_image img (decide_events e a r) = only_image img [e]"
  by (auto simp: decide_events_def split: option.splits)

lemma waitKey_trace:
  "waitKey d w = (k, w') \<Longrightarrow> trace w' = trace w @ [Ev_waitKey d k]"
  by (auto simp: waitKey_def split: list.splits)

lemma display_image_and_points_events:
  assumes "display_image_and_points cfg img pts w = (r, w')"
  shows "\<exists>key. trace w' = trace w @ display_events cfg img pts key
           \<and> r = (if escape_key key then Inl user_pressed_escape else Inr ())"
proof -
  let ?w2 = "if wait_time cfg = 0
             then emit (Ev_stdout ''Press any key to continue.'')
                    (emit (Ev_imshow (window_title cfg) img pts
                       (if mat_type img = CV_8UC1 then [255]
                        else if mat_type img = CV_8UC3 then [0, 0, 255] else [255])) w)
             else emit (Ev_imshow (window_title cfg) img pts
                       (if mat_type img = CV_8UC1 then [255]
                        else if mat_type img = CV_8UC3 then [0, 0, 255] else [255])) w"
  obtain key w3 where k: "waitKey (wait_time cfg) ?w2 = (key, w3)"
    by (cases "waitKey (wait_time cfg) ?w2") auto
  from assms k have r: "r = (if escape_key key then Inl user_pressed_escape else Inr ())"
    and w': "w' = w3"
    by (simp_all add: display_image_and_points_def Let_def escape_key_def split: if_splits)
  from waitKey_trace [OF k] have "trace w3 = trace w @ display_events cfg img pts key"
    by (simp add: display_events_def)
  with r w' show ?thesis by blast
qed

lemma route_display:
  assumes "display_image_and_points cfg img s w = (r, w')"
  shows "\<exists>key. trace w' = trace w @ route_events None True cfg img s key
           \<and> r = route_result True key"
  using display_image_and_points_events [OF assms]
  by (simp add: route_events_def route_result_def)

lemma route_save_display:
  assumes "display_image_and_points cfg img s (emit (Ev_SavePts p s) w) = (r, w')"
  shows "\<exists>key. trace w' = trace w @ route_events (Some p) True cfg img s key
           \<and> r = route_result True key"
  using display_image_and_points_events [OF assms]
  by (simp add: route_events_def route_result_def)

lemma route_save:
  "trace (emit (Ev_SavePts p s) w) = trace w @ route_events (Some p) False cfg img s key
     \<and> Inr () = route_result False key"
  by (simp add: route_events_def route_result_def)

lemma route_nothing:
  "trace w = trace w @ route_events None False cfg img s key \<and> Inr () = route_result False key"
  by (simp add: route_events_def route_result_def)

lemma lists_route_events:
  assumes "lists_route cfg la it img s w = (r, w')"
    and "la = None \<or> s = [] \<or> it \<noteq> []"
  shows "\<exists>key. trace w' = trace w @
            route_events (if la \<noteq> None \<and> s \<noteq> [] then Some (hd it) else None)
              (la = None \<or> verbose cfg) cfg img s key
          \<and> r = route_result (la = None \<or> verbose cfg) key"
proof (cases la)
  case None
  with assms have "display_image_and_points cfg img s w = (r, w')"
    by (simp add: lists_route_def)
  from route_display [OF this] None show ?thesis by simp
next
  case (Some l)
  show ?thesis
  proof (cases "s = []")
    case True
    show ?thesis
    proof (cases "verbose cfg")
      case vb: True
      with assms Some True have "display_image_and_points cfg img s w = (r, w')"
        by (simp add: lists_route_def)
      from route_display [OF this] Some True vb show ?thesis by simp
    next
      case nv: False
      with assms Some True have "r = Inr ()" "w' = w"
        by (simp_all add: lists_route_def)
      with route_nothing [of w cfg img s] Some True nv show ?thesis by simp
    qed
  next
    case False
    with assms Some obtain p later where it: "it = p # later" by (cases it) auto
    show ?thesis
    proof (cases "verbose cfg")
      case True
      with assms Some False it
      have "display_image_and_points cfg img s (emit (Ev_SavePts p s) w) = (r, w')"
        by (simp add: lists_route_def Let_def)
      from route_save_display [OF this] Some False it True show ?thesis by simp
    next
      case nv: False
      with assms Some False it have "r = Inr ()" "w' = emit (Ev_SavePts p s) w"
        by (simp_all add: lists_route_def Let_def)
      with route_save [of p s w cfg img] Some False it nv show ?thesis by simp
    qed
  qed
qed

lemma lists_route_undefined:
  assumes "\<not> (la = None \<or> s = [] \<or> it \<noteq> [])"
  shows "lists_route cfg la it img s w = (Inl undefined_behaviour, w)"
  using assms by (auto simp: lists_route_def)

lemma video_route_events:
  assumes "video_route env cfg la n img s w = (r, w')"
  shows "\<exists>key. trace w' = trace w @
            route_events
              (if la \<noteq> None \<and> s \<noteq> [] then Some (resolve_pathname env (the la) n) else None)
              (la = None \<or> verbose cfg) cfg img s key
          \<and> r = route_result (la = None \<or> verbose cfg) key"
proof (cases la)
  case None
  with assms have "display_image_and_points cfg img s w = (r, w')"
    by (simp add: video_route_def)
  from route_display [OF this] None show ?thesis by simp
next
  case (Some l)
  show ?thesis
  proof (cases "s = []")
    case True
    show ?thesis
    proof (cases "verbose cfg")
      case vb: True
      with assms Some True have "display_image_and_points cfg img s w = (r, w')"
        by (simp add: video_route_def)
      from route_display [OF this] Some True vb show ?thesis by simp
    next
      case nv: False
      with assms Some True have "r = Inr ()" "w' = w"
        by (simp_all add: video_route_def)
      with route_nothing [of w cfg img s] Some True nv show ?thesis by simp
    qed
  next
    case False
    define p where "p = resolve_pathname env l n"
    show ?thesis
    proof (cases "verbose cfg")
      case True
      with assms Some False
      have "display_image_and_points cfg img s (emit (Ev_SavePts p s) w) = (r, w')"
        by (simp add: video_route_def Let_def p_def)
      from route_save_display [OF this] Some False True show ?thesis by (simp add: p_def)
    next
      case nv: False
      with assms Some False have "r = Inr ()" "w' = emit (Ev_SavePts p s) w"
        by (simp_all add: video_route_def Let_def p_def)
      with route_save [of p s w cfg img] Some False nv show ?thesis by (simp add: p_def)
    qed
  qed
qed

lemma image_route_events:
  assumes "image_route cfg la img s w = (r, w')"
  shows "\<exists>key. trace w' = trace w @
            route_events (if s \<noteq> [] then la else None) (la = None) cfg img s key
          \<and> r = route_result (la = None) key"
proof (cases la)
  case None
  with assms have "display_image_and_points cfg img s w = (r, w')"
    by (simp add: image_route_def)
  from route_display [OF this] None show ?thesis by auto
next
  case (Some l)
  show ?thesis
  proof (cases "s = []")
    case True
    with assms Some have "r = Inr ()" "w' = w"
      by (simp_all add: image_route_def)
    with route_nothing [of w cfg img s] Some True show ?thesis by simp
  next
    case False
    with assms Some have "r = Inr ()" "w' = emit (Ev_SavePts l s) w"
      by (simp_all add: image_route_def)
    with route_save [of l s w cfg img] Some False show ?thesis by simp
  qed
qed

subsection \<open>The events of the decisions\<close>

lemma lists_decide_events:
  assumes "NewFrame env tr gray p = (c, tr1)"
  shows "lists_decide env cfg p gray tr w =
     (if tracking_threshold cfg \<le>s c then getShape env tr1 else [],
      if tracking_threshold cfg \<le>s c then tr1 else Reset env tr1,
      w\<lparr>trace := trace w @ decide_events (Ev_NewFrame gray c) (tracking_threshold cfg \<le>s c) True\<rparr>)"
  using assms by (simp add: lists_decide_def decide_events_def emit_def)

lemma video_decide_events:
  assumes "Track env tr gray p = (c, tr1)"
  shows "video_decide env cfg p gray tr w =
     (if tracking_threshold cfg \<le>s c then getShape env tr1 else [],
      if tracking_threshold cfg \<le>s c then tr1 else Reset env tr1,
      w\<lparr>trace := trace w @ decide_events (Ev_Track gray c) (tracking_threshold cfg \<le>s c) True\<rparr>)"
  using assms by (simp add: video_decide_def decide_events_def emit_def)

lemma image_decide_events:
  assumes "NewFrame env tr gray p = (c, tr1)"
  shows "image_decide env cfg p gray tr w =
     (if tracking_threshold cfg \<le>s c then getShape env tr1 else [], tr1,
      w\<lparr>trace := trace w @ decide_events (Ev_NewFrame gray c) (tracking_threshold cfg \<le>s c) False\<rparr>)"
  using assms by (simp add: image_decide_def decide_events_def emit_def)

subsection \<open>Runs without the escape key\<close>

lemma shown_images_simps [simp]:
  "shown_images [] = []"
  "shown_images (e # es) = (case event_image e of None \<Rightarrow> shown_images es | Some m \<Rightarrow> m # shown_images es)"
  "shown_images (xs @ ys) = shown_images xs @ shown_images ys"
  by (simp_all add: shown_images_def List.map_filter_def split: option.splits)

lemma shown_images_facts [simp]:
  "shown_images (display_events cfg img s key) = [img]"
  "shown_images (route_events save disp cfg img s key) = (if disp then [img] else [])"
  "shown_images (decide_events e a r) = shown_images [e]"
  by (auto simp: display_events_def route_events_def decide_events_def split: option.splits)

lemma assert_event_facts [simp]:
  "list_ex assert_event (display_events cfg img s key) = False"
  "list_ex assert_event (route_events save disp cfg img s key) = False"
  "list_ex assert_event (decide_events e a r) = assert_event e"
  by (auto simp: display_events_def route_events_def decide_events_def split: option.splits)

lemma not_escape_minus_one: "\<not> escape_key (- 1)"
  unfolding escape_key_def
proof
  assume "ucast (- 1 :: 32 word) = (27 :: 8 word)"
  then have "bit (ucast (- 1 :: 32 word) :: 8 word) 2 = bit (27 :: 8 word) 2" by simp
  then show False by (simp add: bit_simps)
qed


lemma no_escape_emit [simp]: "no_escape (emit e w) = no_escape w"
  by (simp add: no_escape_def)

lemma no_escape_trace [simp]: "no_escape (w\<lparr>trace := t\<rparr>) = no_escape w"
  by (simp add: no_escape_def)





subsection \<open>One image of a list\<close>

lemma lists_frame_load_failed:
  assumes "load_grayscale_image env ip = None"
  shows "lists_frame env cfg p la n ip it idx tr w =
     (Inl (make_runtime_error (''Unable to load image '' @ quoted ip)), tr,
      w\<lparr>trace := trace w @ (if verbose cfg then [Ev_printf_Image idx n] else [])
                      @ [Ev_load_grayscale_image ip]\<rparr>)"
  using assms by (simp add: lists_frame_def emit_def)

lemma lists_frame_route:
  assumes "lists_frame env cfg p la n ip it idx tr w = (r, tr', w')"
    and "load_grayscale_image env ip = Some (gray, img)"
    and "NewFrame env tr gray p = (c, tr1)"
    and "s = (if tracking_threshold cfg \<le>s c then getShape env tr1 else [])"
  shows "\<exists>w3 r0. trace w3 = trace w @ (if verbose cfg then [Ev_printf_Image idx n] else [])
                      @ Ev_load_grayscale_image ip
                      # decide_events (Ev_NewFrame gray c) (tracking_threshold cfg \<le>s c) True
           \<and> lists_route cfg la it img s w3 = (r0, w')
           \<and> r = (case r0 of Inl e \<Rightarrow> Inl e | Inr u \<Rightarrow> Inr ())
           \<and> tr' = (if tracking_threshold cfg \<le>s c then tr1 else Reset env tr1)"
proof -
  let ?w2 = "if verbose cfg then emit (Ev_load_grayscale_image ip) (emit (Ev_printf_Image idx n) w)
             else emit (Ev_load_grayscale_image ip) w"
  let ?w3 = "?w2\<lparr>trace := trace ?w2
               @ decide_events (Ev_NewFrame gray c) (tracking_threshold cfg \<le>s c) True\<rparr>"
  obtain r0 w4 where rt: "lists_route cfg la it img s ?w3 = (r0, w4)"
    by (cases "lists_route cfg la it img s ?w3") auto
  from assms(1) rt have "r = (case r0 of Inl e \<Rightarrow> Inl e | Inr u \<Rightarrow> Inr ())" "w' = w4"
    "tr' = (if tracking_threshold cfg \<le>s c then tr1 else Reset env tr1)"
    by (auto simp: lists_frame_def Let_def assms(2) assms(4) lists_decide_events [OF assms(3)]
             split: sum.splits if_splits)
  moreover have "trace ?w3 = trace w @ (if verbose cfg then [Ev_printf_Image idx n] else [])
                      @ Ev_load_grayscale_image ip
                      # decide_events (Ev_NewFrame gray c) (tracking_threshold cfg \<le>s c) True"
    by simp
  ultimately show ?thesis using rt by blast
qed

lemma lists_frame_events:
  assumes "lists_frame env cfg p la n ip it idx tr w = (r, tr', w')"
    and "load_grayscale_image env ip = Some (gray, img)"
    and "NewFrame env tr gray p = (c, tr1)"
    and "s = (if tracking_threshold cfg \<le>s c then getShape env tr1 else [])"
    and "la = None \<or> s = [] \<or> it \<noteq> []"
  shows "\<exists>key. trace w' = trace w @ (if verbose cfg then [Ev_printf_Image idx n] else [])
                      @ Ev_load_grayscale_image ip
                      # decide_events (Ev_NewFrame gray c) (tracking_threshold cfg \<le>s c) True
                      @ route_events (if la \<noteq> None \<and> s \<noteq> [] then Some (hd it) else None)
                          (la = None \<or> verbose cfg) cfg img s key
           \<and> r = route_result (la = None \<or> verbose cfg) key
           \<and> tr' = (if tracking_threshold cfg \<le>s c then tr1 else Reset env tr1)"
proof -
  from lists_frame_route [OF assms(1-4)] obtain w3 r0 where
    w3: "trace w3 = trace w @ (if verbose cfg then [Ev_printf_Image idx n] else [])
                      @ Ev_load_grayscale_image ip
                      # decide_events (Ev_NewFrame gray c) (tracking_threshold cfg \<le>s c) True"
    and rt: "lists_route cfg la it img s w3 = (r0, w')"
    and r: "r = (case r0 of Inl e \<Rightarrow> Inl e | Inr u \<Rightarrow> Inr ())"
    and tr': "tr' = (if tracking_threshold cfg \<le>s c then tr1 else Reset env tr1)"
    by blast
  from lists_route_events [OF rt assms(5)] obtain key where
    k: "trace w' = trace w3 @ route_events (if la \<noteq> None \<and> s \<noteq> [] then Some (hd it) else None)
              (la = None \<or> verbose cfg) cfg img s key"
    and r0: "r0 = route_result (la = None \<or> verbose cfg) key"
    by blast
  from r r0 have "r = route_result (la = None \<or> verbose cfg) key"
    by (simp add: route_result_def)
  with k w3 tr' show ?thesis by auto
qed

lemma lists_frame_undefined:
  assumes "lists_frame env cfg p la n ip it idx tr w = (r, tr', w')"
    and "load_grayscale_image env ip = Some (gray, img)"
    and "NewFrame env tr gray p = (c, tr1)"
    and "s = (if tracking_threshold cfg \<le>s c then getShape env tr1 else [])"
    and "\<not> (la = None \<or> s = [] \<or> it \<noteq> [])"
  shows "trace w' = trace w @ (if verbose cfg then [Ev_printf_Image idx n] else [])
                      @ Ev_load_grayscale_image ip
                      # decide_events (Ev_NewFrame gray c) (tracking_threshold cfg \<le>s c) True
           \<and> r = Inl undefined_behaviour"
proof -
  from lists_frame_route [OF assms(1-4)] obtain w3 r0 where
    w3: "trace w3 = trace w @ (if verbose cfg then [Ev_printf_Image idx n] else [])
                      @ Ev_load_grayscale_image ip
                      # decide_events (Ev_NewFrame gray c) (tracking_threshold cfg \<le>s c) True"
    and rt: "lists_route cfg la it img s w3 = (r0, w')"
    and r: "r = (case r0 of Inl e \<Rightarrow> Inl e | Inr u \<Rightarrow> Inr ())"
    by blast
  from rt lists_route_undefined [OF assms(5), of cfg img w3] have "r0 = Inl undefined_behaviour" "w' = w3"
    by simp_all
  with r w3 show ?thesis by simp
qed

lemma decide_events_decision_follows:
  assumes "process_result e = Some c"
  shows "decision_follows t (decide_events e (t \<le>s c) True)"
  using assms by (cases e) (auto simp: decision_follows_def decide_events_def next_is_def)

lemma decision_follows_frame:
  assumes "\<not> list_ex process_event pre" and "\<not> list_ex process_event post"
    and "process_result e = Some c"
  shows "decision_follows t (pre @ decide_events e (t \<le>s c) True @ post)"
  by (intro decision_follows_append decision_follows_no_process assms
        decide_events_decision_follows)

lemma save_pairs_append:
  "save_pairs loaded (xs @ ys) = save_pairs loaded xs @ save_pairs (loaded_after loaded xs) ys"
  by (induction xs arbitrary: loaded) (auto split: event.splits option.splits)

lemma save_pairs_no_load:
  "\<not> list_ex load_event es \<Longrightarrow> save_pairs (Some ip) es = map (Pair ip) (saved_paths es)"
  by (induction es) (auto split: event.splits option.splits)

lemma save_pairs_no_save:
  "\<not> list_ex load_event es \<Longrightarrow> \<not> list_ex SavePts_event es
     \<Longrightarrow> save_pairs loaded es = [] \<and> loaded_after loaded es = loaded"
  by (induction es) (auto split: event.splits option.splits)

lemma save_pairs_frame:
  assumes "\<not> list_ex load_event pre" and "\<not> list_ex SavePts_event pre"
    and "\<not> list_ex load_event post"
  shows "save_pairs loaded (pre @ Ev_load_grayscale_image ip # post)
           = map (Pair ip) (saved_paths post)"
  using assms by (simp add: save_pairs_append save_pairs_no_save save_pairs_no_load)

lemma loaded_after_append:
  "loaded_after loaded (xs @ ys) = loaded_after (loaded_after loaded xs) ys"
  by (induction xs arbitrary: loaded) (auto split: event.splits)

text \<open>What a loop needs to know of one image of a list.\<close>

lemma lists_frame_summary:
  assumes "lists_frame env cfg p la n ip it idx tr w = (r, tr', w')"
  shows "\<exists>es. trace w' = trace w @ es
           \<and> decision_follows (tracking_threshold cfg) es
           \<and> escape_last (r = Inl user_pressed_escape) es
           \<and> \<not> list_ex stderr_event es
           \<and> (\<forall>loaded. save_pairs loaded es = [] \<or>
                 it \<noteq> [] \<and> la \<noteq> None \<and> save_pairs loaded es = [(ip, hd it)])
           \<and> (r = Inl undefined_behaviour \<longrightarrow> la \<noteq> None \<and> it = [])
           \<and> r \<noteq> Inl assertion_failed"
proof (cases "load_grayscale_image env ip")
  case None
  from assms lists_frame_load_failed [OF None, of cfg p la n it idx tr w]
  have "r = Inl (make_runtime_error (''Unable to load image '' @ quoted ip))"
    and "trace w' = trace w @ (if verbose cfg then [Ev_printf_Image idx n] else [])
                      @ [Ev_load_grayscale_image ip]"
    by auto
  then show ?thesis
    by (auto simp: make_runtime_error_def decision_follows_no_process escape_last_def)
next
  case (Some loaded)
  obtain gray img where gi: "load_grayscale_image env ip = Some (gray, img)"
    using Some by (cases loaded) auto
  obtain c tr1 where nf: "NewFrame env tr gray p = (c, tr1)"
    by (cases "NewFrame env tr gray p") auto
  define s where "s = (if tracking_threshold cfg \<le>s c then getShape env tr1 else [])"
  show ?thesis
  proof (cases "la = None \<or> s = [] \<or> it \<noteq> []")
    case True
    from lists_frame_events [OF assms gi nf s_def True] obtain key where
      t: "trace w' = trace w @ (if verbose cfg then [Ev_printf_Image idx n] else [])
                      @ Ev_load_grayscale_image ip
                      # decide_events (Ev_NewFrame gray c) (tracking_threshold cfg \<le>s c) True
                      @ route_events (if la \<noteq> None \<and> s \<noteq> [] then Some (hd it) else None)
                          (la = None \<or> verbose cfg) cfg img s key"
      and r: "r = route_result (la = None \<or> verbose cfg) key"
      by blast
    let ?pre = "(if verbose cfg then [Ev_printf_Image idx n] else []) @ [Ev_load_grayscale_image ip]"
    let ?post = "route_events (if la \<noteq> None \<and> s \<noteq> [] then Some (hd it) else None)
                          (la = None \<or> verbose cfg) cfg img s key"
    let ?es = "?pre @ decide_events (Ev_NewFrame gray c) (tracking_threshold cfg \<le>s c) True @ ?post"
    have a: "trace w' = trace w @ ?es" using t by simp
    have b: "decision_follows (tracking_threshold cfg) ?es"
      by (rule decision_follows_frame) simp_all
    have "escape_last False
            (?pre @ decide_events (Ev_NewFrame gray c) (tracking_threshold cfg \<le>s c) True)"
      by (simp add: escape_last_def)
    moreover have "escape_last (r = Inl user_pressed_escape) ?post"
      unfolding r by simp
    ultimately have c: "escape_last (r = Inl user_pressed_escape) ?es"
      using escape_last_append by fastforce
    have d: "\<not> list_ex stderr_event ?es" by simp
    have "\<And>loaded. save_pairs loaded ?es = map (Pair ip)
            (saved_paths (decide_events (Ev_NewFrame gray c) (tracking_threshold cfg \<le>s c) True
               @ ?post))"
      using save_pairs_frame [of "if verbose cfg then [Ev_printf_Image idx n] else []"
              "decide_events (Ev_NewFrame gray c) (tracking_threshold cfg \<le>s c) True @ ?post" _ ip]
      by simp
    then have e: "\<And>loaded. save_pairs loaded ?es = [] \<or>
                 it \<noteq> [] \<and> la \<noteq> None \<and> save_pairs loaded ?es = [(ip, hd it)]"
      using True by auto
    from a b c d e r show ?thesis by (intro exI [of _ ?es]) simp
  next
    case False
    from lists_frame_undefined [OF assms gi nf s_def False]
    have t: "trace w' = trace w @ (if verbose cfg then [Ev_printf_Image idx n] else [])
                      @ Ev_load_grayscale_image ip
                      # decide_events (Ev_NewFrame gray c) (tracking_threshold cfg \<le>s c) True"
      and r: "r = Inl undefined_behaviour"
      by simp_all
    let ?pre = "(if verbose cfg then [Ev_printf_Image idx n] else []) @ [Ev_load_grayscale_image ip]"
    let ?es = "?pre @ decide_events (Ev_NewFrame gray c) (tracking_threshold cfg \<le>s c) True @ []"
    have a: "trace w' = trace w @ ?es" using t by simp
    have b: "decision_follows (tracking_threshold cfg) ?es"
      by (rule decision_follows_frame) simp_all
    have c: "escape_last (r = Inl user_pressed_escape) ?es"
      unfolding r by (simp add: escape_last_def)
    have d: "\<not> list_ex stderr_event ?es" by simp
    have e: "\<And>loaded. save_pairs loaded ?es = []"
      using save_pairs_frame [of "if verbose cfg then [Ev_printf_Image idx n] else []"
              "decide_events (Ev_NewFrame gray c) (tracking_threshold cfg \<le>s c) True" _ ip]
      by simp
    from a b c d e r False show ?thesis by (intro exI [of _ ?es]) simp
  qed
qed

subsection \<open>The loop of list mode\<close>

lemma lists_loop_summary:
  assumes "lists_loop env cfg p la n imgs its idx tr w = (r, tr', w')"
    and "la = None \<or> length its = length imgs"
  shows "\<exists>es. trace w' = trace w @ es
           \<and> decision_follows (tracking_threshold cfg) es
           \<and> escape_last (r = Inl user_pressed_escape) es
           \<and> \<not> list_ex stderr_event es
           \<and> (\<forall>loaded. subseq (save_pairs loaded es) (zip imgs its))
           \<and> (la = None \<longrightarrow> (\<forall>loaded. save_pairs loaded es = []))
           \<and> r \<noteq> Inl undefined_behaviour
           \<and> r \<noteq> Inl assertion_failed"
  using assms
proof (induction imgs arbitrary: its idx tr w)
  case Nil
  then show ?case by (auto simp: decision_follows_def)
next
  case (Cons ip imgs)
  obtain r1 tr1 w1 where fr: "lists_frame env cfg p la n ip its idx tr w = (r1, tr1, w1)"
    by (cases "lists_frame env cfg p la n ip its idx tr w") auto
  from lists_frame_summary [OF fr] obtain es1 where
    t1: "trace w1 = trace w @ es1"
    and d1: "decision_follows (tracking_threshold cfg) es1"
    and e1: "escape_last (r1 = Inl user_pressed_escape) es1"
    and s1: "\<not> list_ex stderr_event es1"
    and p1: "\<And>loaded. save_pairs loaded es1 = [] \<or>
                 its \<noteq> [] \<and> la \<noteq> None \<and> save_pairs loaded es1 = [(ip, hd its)]"
    and u1: "r1 = Inl undefined_behaviour \<longrightarrow> la \<noteq> None \<and> its = []"
    and m1: "r1 \<noteq> Inl assertion_failed"
    by blast
  have sub1: "\<And>loaded. subseq (save_pairs loaded es1) (zip (ip # imgs) its)"
  proof -
    fix loaded
    from p1 [of loaded] show "subseq (save_pairs loaded es1) (zip (ip # imgs) its)"
      by (cases its) auto
  qed
  from Cons.prems(2) have nu: "la = None \<or> its \<noteq> []" by auto
  show ?case
  proof (cases r1)
    case (Inl e)
    with Cons.prems(1) fr have "r = Inl e" "w' = w1" by simp_all
    with t1 d1 e1 s1 sub1 p1 u1 m1 nu Inl show ?thesis by auto
  next
    case (Inr u)
    show ?thesis
    proof (cases la)
      case None
      with Cons.prems(1) fr Inr
      have rec: "lists_loop env cfg p la n imgs its (idx + 1) tr1 w1 = (r, tr', w')"
        by simp
      from Cons.IH [OF rec] None obtain es2 where
        t2: "trace w' = trace w1 @ es2"
        and d2: "decision_follows (tracking_threshold cfg) es2"
        and e2: "escape_last (r = Inl user_pressed_escape) es2"
        and s2: "\<not> list_ex stderr_event es2"
        and p2: "\<And>loaded. save_pairs loaded es2 = []"
        and u2: "r \<noteq> Inl undefined_behaviour" "r \<noteq> Inl assertion_failed"
        by auto
      have "\<And>loaded. save_pairs loaded (es1 @ es2) = []"
      proof -
        fix loaded
        from p1 [of loaded] None have "save_pairs loaded es1 = []" by auto
        with p2 [of "loaded_after loaded es1"]
        show "save_pairs loaded (es1 @ es2) = []"
          by (simp add: save_pairs_append)
      qed
      moreover from e1 Inr e2 have "escape_last (r = Inl user_pressed_escape) (es1 @ es2)"
        by (intro escape_last_append) simp_all
      ultimately show ?thesis
        using None t1 t2 d1 d2 s1 s2 u2 decision_follows_append
        by (intro exI [of _ "es1 @ es2"]) auto
    next
      case (Some l)
      with nu obtain pathname later where its: "its = pathname # later" by (cases its) auto
      with Cons.prems(1) fr Inr Some
      have rec: "lists_loop env cfg p la n imgs later (idx + 1) tr1 w1 = (r, tr', w')"
        by simp
      from Cons.prems(2) Some its have "la = None \<or> length later = length imgs" by simp
      from Cons.IH [OF rec this] obtain es2 where
        t2: "trace w' = trace w1 @ es2"
        and d2: "decision_follows (tracking_threshold cfg) es2"
        and e2: "escape_last (r = Inl user_pressed_escape) es2"
        and s2: "\<not> list_ex stderr_event es2"
        and p2: "\<And>loaded. subseq (save_pairs loaded es2) (zip imgs later)"
        and u2: "r \<noteq> Inl undefined_behaviour" "r \<noteq> Inl assertion_failed"
        by auto
      have "\<And>loaded. subseq (save_pairs loaded (es1 @ es2)) (zip (ip # imgs) its)"
      proof -
        fix loaded
        from p1 [of loaded] p2 [of "loaded_after loaded es1"] its
        show "subseq (save_pairs loaded (es1 @ es2)) (zip (ip # imgs) its)"
          by (auto simp: save_pairs_append)
      qed
      moreover from e1 Inr e2 have "escape_last (r = Inl user_pressed_escape) (es1 @ es2)"
        by (intro escape_last_append) simp_all
      ultimately show ?thesis
        using Some t1 t2 d1 d2 s1 s2 u2 decision_follows_append
        by (intro exI [of _ "es1 @ es2"]) auto
    qed
  qed
qed

subsection \<open>One frame of a video\<close>

lemma video_frame_unsupported:
  assumes "video_gray_image env img = Inl e"
  shows "video_frame env cfg p la img n tr w =
     (Inl e, tr, w\<lparr>trace := trace w @ (if verbose cfg then [Ev_printf_Frame_number n] else [])\<rparr>)"
  using assms by (simp add: video_frame_def emit_def)

lemma video_frame_route:
  assumes "video_frame env cfg p la img n tr w = (r, tr', w')"
    and "video_gray_image env img = Inr gray"
    and "Track env tr gray p = (c, tr1)"
    and "s = (if tracking_threshold cfg \<le>s c then getShape env tr1 else [])"
  shows "\<exists>w3 r0. trace w3 = trace w @ (if verbose cfg then [Ev_printf_Frame_number n] else [])
                      @ decide_events (Ev_Track gray c) (tracking_threshold cfg \<le>s c) True
           \<and> video_route env cfg la n img s w3 = (r0, w')
           \<and> r = (case r0 of Inl e \<Rightarrow> Inl e | Inr u \<Rightarrow> Inr ())
           \<and> tr' = (if tracking_threshold cfg \<le>s c then tr1 else Reset env tr1)"
proof -
  let ?w1 = "if verbose cfg then emit (Ev_printf_Frame_number n) w else w"
  let ?w3 = "?w1\<lparr>trace := trace ?w1
               @ decide_events (Ev_Track gray c) (tracking_threshold cfg \<le>s c) True\<rparr>"
  obtain r0 w4 where rt: "video_route env cfg la n img s ?w3 = (r0, w4)"
    by (cases "video_route env cfg la n img s ?w3") auto
  from assms(1) rt have "r = (case r0 of Inl e \<Rightarrow> Inl e | Inr u \<Rightarrow> Inr ())" "w' = w4"
    "tr' = (if tracking_threshold cfg \<le>s c then tr1 else Reset env tr1)"
    by (auto simp: video_frame_def Let_def assms(2) assms(4) video_decide_events [OF assms(3)]
             split: sum.splits if_splits)
  moreover have "trace ?w3 = trace w @ (if verbose cfg then [Ev_printf_Frame_number n] else [])
                      @ decide_events (Ev_Track gray c) (tracking_threshold cfg \<le>s c) True"
    by simp
  ultimately show ?thesis using rt by blast
qed

lemma video_frame_events:
  assumes "video_frame env cfg p la img n tr w = (r, tr', w')"
    and "video_gray_image env img = Inr gray"
    and "Track env tr gray p = (c, tr1)"
    and "s = (if tracking_threshold cfg \<le>s c then getShape env tr1 else [])"
  shows "\<exists>key. trace w' = trace w @ (if verbose cfg then [Ev_printf_Frame_number n] else [])
                      @ decide_events (Ev_Track gray c) (tracking_threshold cfg \<le>s c) True
                      @ route_events
                          (if la \<noteq> None \<and> s \<noteq> [] then Some (resolve_pathname env (the la) n)
                           else None)
                          (la = None \<or> verbose cfg) cfg img s key
           \<and> r = route_result (la = None \<or> verbose cfg) key
           \<and> tr' = (if tracking_threshold cfg \<le>s c then tr1 else Reset env tr1)"
proof -
  from video_frame_route [OF assms(1-4)] obtain w3 r0 where
    w3: "trace w3 = trace w @ (if verbose cfg then [Ev_printf_Frame_number n] else [])
                      @ decide_events (Ev_Track gray c) (tracking_threshold cfg \<le>s c) True"
    and rt: "video_route env cfg la n img s w3 = (r0, w')"
    and r: "r = (case r0 of Inl e \<Rightarrow> Inl e | Inr u \<Rightarrow> Inr ())"
    and tr': "tr' = (if tracking_threshold cfg \<le>s c then tr1 else Reset env tr1)"
    by blast
  from video_route_events [OF rt] obtain key where
    k: "trace w' = trace w3 @ route_events
              (if la \<noteq> None \<and> s \<noteq> [] then Some (resolve_pathname env (the la) n) else None)
              (la = None \<or> verbose cfg) cfg img s key"
    and r0: "r0 = route_result (la = None \<or> verbose cfg) key"
    by blast
  from r r0 have "r = route_result (la = None \<or> verbose cfg) key"
    by (simp add: route_result_def)
  with k w3 tr' show ?thesis by auto
qed

lemma video_gray_image_cases:
  "video_gray_image env img = Inr (cvtColor env img) \<and> mat_type img = CV_8UC3
   \<or> video_gray_image env img = Inr img \<and> mat_type img = CV_8UC1
   \<or> video_gray_image env img =
        Inl (make_runtime_error ''Do not know how to convert video frame to a grayscale image.'')
      \<and> mat_type img \<noteq> CV_8UC3 \<and> mat_type img \<noteq> CV_8UC1"
  by (simp add: video_gray_image_def CV_8UC1_def CV_8UC3_def CV_MAKETYPE_def)

text \<open>What a loop needs to know of one frame of a video.\<close>

lemma video_frame_summary:
  assumes "video_frame env cfg p la img n tr w = (r, tr', w')"
  shows "\<exists>es. trace w' = trace w @ es
           \<and> decision_follows (tracking_threshold cfg) es
           \<and> escape_last (r = Inl user_pressed_escape) es
           \<and> \<not> list_ex stderr_event es
           \<and> only_image img es
           \<and> (saved_paths es = [] \<or>
                (\<exists>l. la = Some l \<and> saved_paths es = [resolve_pathname env l n]))
           \<and> r \<noteq> Inl undefined_behaviour
           \<and> r \<noteq> Inl assertion_failed"
proof (cases "video_gray_image env img")
  case (Inl e)
  from video_gray_image_cases [of env img] Inl have "e \<noteq> user_pressed_escape"
    "e \<noteq> undefined_behaviour" "e \<noteq> assertion_failed"
    by (auto simp: make_runtime_error_def)
  moreover from assms video_frame_unsupported [OF Inl, of cfg p la n tr w]
  have "r = Inl e"
    and "trace w' = trace w @ (if verbose cfg then [Ev_printf_Frame_number n] else [])"
    by auto
  ultimately show ?thesis
    by (auto simp: decision_follows_no_process escape_last_def)
next
  case (Inr gray)
  obtain c tr1 where nf: "Track env tr gray p = (c, tr1)"
    by (cases "Track env tr gray p") auto
  define s where "s = (if tracking_threshold cfg \<le>s c then getShape env tr1 else [])"
  let ?pre = "if verbose cfg then [Ev_printf_Frame_number n] else []"
  from video_frame_events [OF assms Inr nf s_def] obtain key where
    t: "trace w' = trace w @ ?pre
                    @ decide_events (Ev_Track gray c) (tracking_threshold cfg \<le>s c) True
                    @ route_events
                        (if la \<noteq> None \<and> s \<noteq> [] then Some (resolve_pathname env (the la) n)
                         else None)
                        (la = None \<or> verbose cfg) cfg img s key"
    and r: "r = route_result (la = None \<or> verbose cfg) key"
    by blast
  let ?post = "route_events
                 (if la \<noteq> None \<and> s \<noteq> [] then Some (resolve_pathname env (the la) n) else None)
                 (la = None \<or> verbose cfg) cfg img s key"
  let ?es = "?pre @ decide_events (Ev_Track gray c) (tracking_threshold cfg \<le>s c) True @ ?post"
  have a: "trace w' = trace w @ ?es" using t by simp
  have b: "decision_follows (tracking_threshold cfg) ?es"
    by (rule decision_follows_frame) simp_all
  have "escape_last False
          (?pre @ decide_events (Ev_Track gray c) (tracking_threshold cfg \<le>s c) True)"
    by (simp add: escape_last_def)
  moreover have "escape_last (r = Inl user_pressed_escape) ?post"
    unfolding r by simp
  ultimately have c: "escape_last (r = Inl user_pressed_escape) ?es"
    using escape_last_append by fastforce
  have d: "\<not> list_ex stderr_event ?es" by simp
  have e: "only_image img ?es" by simp
  have f: "saved_paths ?es = [] \<or>
              (\<exists>l. la = Some l \<and> saved_paths ?es = [resolve_pathname env l n])"
    by (cases la) auto
  from a b c d e f r show ?thesis by (intro exI [of _ ?es]) simp
qed

subsection \<open>The loop of video mode\<close>

lemma video_loop_stops:
  "\<not> (rows img > 0 \<and> cols img > 0)
     \<Longrightarrow> video_loop env cfg p la img input n tr w = (Inr (), tr, w)"
  by (subst video_loop.simps) auto

lemma video_loop_step:
  assumes "rows img > 0 \<and> cols img > 0"
    and "video_frame env cfg p la img n tr w = (r1, tr1, w1)"
  shows "video_loop env cfg p la img input n tr w =
     (case r1 of
        Inl e \<Rightarrow> (Inl e, tr1, w1)
      | Inr u \<Rightarrow>
          video_loop env cfg p la (fst (VideoCapture_read input)) (snd (VideoCapture_read input))
            (n + 1) tr1 (emit Ev_VideoCapture_read w1))"
  using assms by (subst video_loop.simps) (simp split: sum.splits)

lemma subseq_map_upt_mono:
  assumes "subseq xs (map f [0..<m])" and "m \<le> n"
  shows "subseq xs (map f [0..<n])"
proof -
  from assms(2) have "[0..<n] = [0..<m] @ [m..<n]"
    by (metis le_add_diff_inverse upt_add_eq_append zero_le)
  with assms(1) show ?thesis by (simp add: subseq_rev_drop_many)
qed

lemma frames_left_read:
  "frames_left (fst (VideoCapture_read input)) (snd (VideoCapture_read input)) \<le> length input"
  by (cases input) (simp_all add: frames_left_def VideoCapture_read_def empty_Mat_def)

lemma video_loop_summary:
  assumes "video_loop env cfg p la img input n tr w = (r, tr', w')"
  shows "\<exists>es. trace w' = trace w @ es
           \<and> decision_follows (tracking_threshold cfg) es
           \<and> escape_last (r = Inl user_pressed_escape) es
           \<and> \<not> list_ex stderr_event es
           \<and> (\<forall>l. la = Some l \<longrightarrow>
                 subseq (saved_paths es)
                   (map (\<lambda>k. resolve_pathname env l (n + of_nat k)) [0..<frames_left img input]))
           \<and> (la = None \<longrightarrow> saved_paths es = [])
           \<and> r \<noteq> Inl undefined_behaviour
           \<and> r \<noteq> Inl assertion_failed"
  using assms
proof (induction "frames_left img input" arbitrary: img input n tr w rule: less_induct)
  case less
  show ?case
  proof (cases "rows img > 0 \<and> cols img > 0")
    case False
    with less.prems video_loop_stops [OF False, of env cfg p la input n tr w]
    show ?thesis by (auto simp: decision_follows_def)
  next
    case True
    obtain r1 tr1 w1 where fr: "video_frame env cfg p la img n tr w = (r1, tr1, w1)"
      by (cases "video_frame env cfg p la img n tr w") auto
    from video_frame_summary [OF fr] obtain es1 where
      t1: "trace w1 = trace w @ es1"
      and d1: "decision_follows (tracking_threshold cfg) es1"
      and e1: "escape_last (r1 = Inl user_pressed_escape) es1"
      and s1: "\<not> list_ex stderr_event es1"
      and p1: "saved_paths es1 = [] \<or>
                (\<exists>l. la = Some l \<and> saved_paths es1 = [resolve_pathname env l n])"
      and u1: "r1 \<noteq> Inl undefined_behaviour"
      and m1: "r1 \<noteq> Inl assertion_failed"
      by blast
    have fl: "frames_left img input = Suc (length input)"
      using True by (simp add: frames_left_def)
    have sub1: "\<And>l. la = Some l \<Longrightarrow> subseq (saved_paths es1) [resolve_pathname env l n]"
      using p1 by auto
    show ?thesis
    proof (cases r1)
      case (Inl e)
      with less.prems video_loop_step [OF True fr, of input] have "r = Inl e" "w' = w1"
        by simp_all
      moreover have "\<And>l. la = Some l \<Longrightarrow> subseq (saved_paths es1)
                   (map (\<lambda>k. resolve_pathname env l (n + of_nat k)) [0..<frames_left img input])"
      proof -
        fix l assume "la = Some l"
        from sub1 [OF this] have "subseq (saved_paths es1)
            (map (\<lambda>k. resolve_pathname env l (n + of_nat k)) [0..<Suc 0])" by simp
        then show "subseq (saved_paths es1)
                   (map (\<lambda>k. resolve_pathname env l (n + of_nat k)) [0..<frames_left img input])"
          by (rule subseq_map_upt_mono) (simp add: fl)
      qed
      ultimately show ?thesis
        using t1 d1 e1 s1 p1 u1 m1 Inl by (intro exI [of _ es1]) auto
    next
      case (Inr u)
      let ?img = "fst (VideoCapture_read input)"
      let ?input = "snd (VideoCapture_read input)"
      from less.prems video_loop_step [OF True fr, of input] Inr
      have rec: "video_loop env cfg p la ?img ?input (n + 1) tr1 (emit Ev_VideoCapture_read w1)
                   = (r, tr', w')"
        by simp
      have "frames_left ?img ?input < frames_left img input"
        using frames_left_read [of input] fl by simp
      from less.hyps [OF this rec] obtain es2 where
        t2: "trace w' = trace (emit Ev_VideoCapture_read w1) @ es2"
        and d2: "decision_follows (tracking_threshold cfg) es2"
        and e2: "escape_last (r = Inl user_pressed_escape) es2"
        and s2: "\<not> list_ex stderr_event es2"
        and p2: "\<And>l. la = Some l \<Longrightarrow> subseq (saved_paths es2)
                   (map (\<lambda>k. resolve_pathname env l (n + 1 + of_nat k))
                      [0..<frames_left ?img ?input])"
        and q2: "la = None \<longrightarrow> saved_paths es2 = []"
        and u2: "r \<noteq> Inl undefined_behaviour" "r \<noteq> Inl assertion_failed"
        by blast
      let ?es = "es1 @ Ev_VideoCapture_read # es2"
      have a: "trace w' = trace w @ ?es" using t1 t2 by simp
      have b: "decision_follows (tracking_threshold cfg) ?es"
        using d1 d2 decision_follows_append [of _ "[Ev_VideoCapture_read]" es2]
          decision_follows_append [of _ es1 "Ev_VideoCapture_read # es2"]
        by (simp add: decision_follows_no_process)
      have c: "escape_last (r = Inl user_pressed_escape) ?es"
        using e1 e2 Inr by (intro escape_last_append escape_last_Cons) simp_all
      have d: "\<not> list_ex stderr_event ?es" using s1 s2 by simp
      have e: "\<And>l. la = Some l \<Longrightarrow> subseq (saved_paths ?es)
                   (map (\<lambda>k. resolve_pathname env l (n + of_nat k)) [0..<frames_left img input])"
      proof -
        fix l assume l: "la = Some l"
        from p2 [OF l] have "subseq (saved_paths es2)
                   (map (\<lambda>k. resolve_pathname env l (n + 1 + of_nat k)) [0..<length input])"
          by (rule subseq_map_upt_mono) (rule frames_left_read)
        then have "subseq (saved_paths es2)
                   (map (\<lambda>k. resolve_pathname env l (n + of_nat (Suc k))) [0..<length input])"
          by (simp add: add.assoc)
        with sub1 [OF l] have "subseq (saved_paths es1 @ saved_paths es2)
            ([resolve_pathname env l n]
               @ map (\<lambda>k. resolve_pathname env l (n + of_nat (Suc k))) [0..<length input])"
          by (rule list_emb_append_mono)
        then show "subseq (saved_paths ?es)
                   (map (\<lambda>k. resolve_pathname env l (n + of_nat k)) [0..<frames_left img input])"
          by (simp add: fl map_upt_Suc del: upt_Suc)
      qed
      have f: "la = None \<longrightarrow> saved_paths ?es = []" using p1 q2 by auto
      from a b c d e f u2 show ?thesis by (intro exI [of _ ?es]) simp
    qed
  qed
qed

subsection \<open>The three modes\<close>

lemma read_landmark_pathnames_cases:
  assumes "read_landmark_pathnames env ia imgs la w = (r, w')"
  shows "trace w' = trace w @ (case la of None \<Rightarrow> [] | Some l \<Rightarrow> [Ev_read_list l])
         \<and> (case r of
               Inl e \<Rightarrow> (\<exists>m. e = runtime_error m) \<and> la \<noteq> None
             | Inr its \<Rightarrow> (la = None \<and> its = [] \<or>
                  la \<noteq> None \<and> read_list env (the la) = Some its \<and> length its = length imgs))"
  using assms
  by (auto simp: read_landmark_pathnames_def make_runtime_error_def Let_def
           split: option.splits if_splits)

lemma lists_null_tracker_events:
  assumes "lists_null_tracker env cfg n imgs w = (r, w')"
  shows "trace w' = trace w @
           (case imgs of [] \<Rightarrow> []
            | ip # later \<Rightarrow> (if verbose cfg then [Ev_printf_Image 1 n] else [])
                             @ [Ev_load_grayscale_image ip])
         \<and> r = (case imgs of [] \<Rightarrow> Inr ()
                | ip # later \<Rightarrow>
                    (case load_grayscale_image env ip of
                       None \<Rightarrow> Inl (runtime_error (''Unable to load image '' @ quoted ip))
                     | Some loaded \<Rightarrow> Inl undefined_behaviour))"
  using assms
  by (auto simp: lists_null_tracker_def make_runtime_error_def Let_def
           split: list.splits option.splits)

lemma lists_null_tracker_summary:
  assumes "lists_null_tracker env cfg n imgs w = (r, w')"
  shows "\<exists>es. trace w' = trace w @ es
           \<and> \<not> list_ex process_event es
           \<and> \<not> list_ex escape_event es
           \<and> \<not> list_ex stderr_event es
           \<and> (\<forall>loaded. save_pairs loaded es = [])
           \<and> r \<noteq> Inl user_pressed_escape
           \<and> r \<noteq> Inl assertion_failed"
  using lists_null_tracker_events [OF assms]
  by (cases imgs) (auto split: option.splits)

lemma run_lists_mode_summary:
  assumes "run_lists_mode env cfg ia la w = (r, w')"
  shows "\<exists>es. trace w' = trace w @ es
           \<and> decision_follows (tracking_threshold cfg) es
           \<and> escape_last (r = Inl user_pressed_escape) es
           \<and> \<not> list_ex stderr_event es
           \<and> (\<forall>imgs l its. read_list env ia = Some imgs \<longrightarrow> la = Some l
                 \<longrightarrow> read_list env l = Some its
                 \<longrightarrow> subseq (save_pairs None es) (zip imgs its))
           \<and> (la = None \<longrightarrow> save_pairs None es = [])
           \<and> (r = Inl undefined_behaviour \<longrightarrow> LoadFaceTracker env (model_pathname cfg) = None)
           \<and> r \<noteq> Inl assertion_failed
           \<and> (\<forall>code. r = Inr code \<longrightarrow> code = 0)"
proof -
  let ?pre = "[Ev_LoadFaceTracker (model_pathname cfg),
               Ev_LoadFaceTrackerParams (params_pathname cfg), Ev_read_list ia]"
  let ?w3 = "emit (Ev_read_list ia) (emit (Ev_LoadFaceTrackerParams (params_pathname cfg))
               (emit (Ev_LoadFaceTracker (model_pathname cfg)) w))"
  have w3: "trace ?w3 = trace w @ ?pre" by simp
  have pre: "decision_follows (tracking_threshold cfg) ?pre" "escape_last False ?pre"
    "\<not> list_ex stderr_event ?pre" "\<And>loaded. save_pairs loaded ?pre = []"
    "\<And>loaded. loaded_after loaded ?pre = loaded"
    by (simp_all add: decision_follows_no_process escape_last_def)
  show ?thesis
  proof (cases "read_list env ia")
    case None
    with assms have "r = Inl (make_runtime_error (''Unable to read list '' @ quoted ia))" "w' = ?w3"
      by (simp_all add: run_lists_mode_def Let_def)
    with pre w3 show ?thesis
      by (intro exI [of _ ?pre]) (simp add: make_runtime_error_def None)
  next
    case (Some imgs)
    obtain r1 w4 where rl: "read_landmark_pathnames env ia imgs la ?w3 = (r1, w4)"
      by (cases "read_landmark_pathnames env ia imgs la ?w3") auto
    let ?mid = "case la of None \<Rightarrow> [] | Some l \<Rightarrow> [Ev_read_list l]"
    from read_landmark_pathnames_cases [OF rl]
    have w4: "trace w4 = trace w @ ?pre @ ?mid"
      and r1: "case r1 of
               Inl e \<Rightarrow> (\<exists>m. e = runtime_error m) \<and> la \<noteq> None
             | Inr its \<Rightarrow> (la = None \<and> its = [] \<or>
                  la \<noteq> None \<and> read_list env (the la) = Some its \<and> length its = length imgs)"
      by simp_all
    have mid: "decision_follows (tracking_threshold cfg) (?pre @ ?mid)"
      "escape_last False (?pre @ ?mid)"
      "\<not> list_ex stderr_event (?pre @ ?mid)" "\<And>loaded. save_pairs loaded (?pre @ ?mid) = []"
      "\<And>loaded. loaded_after loaded (?pre @ ?mid) = loaded"
      by (simp_all add: decision_follows_no_process escape_last_def split: option.splits)
    show ?thesis
    proof (cases r1)
      case (Inl e)
      with assms Some rl have "r = Inl e" "w' = w4"
        by (simp_all add: run_lists_mode_def Let_def)
      with mid w4 r1 Inl Some show ?thesis
        by (intro exI [of _ "?pre @ ?mid"]) auto
    next
      case (Inr its)
      show ?thesis
      proof (cases "LoadFaceTracker env (model_pathname cfg)")
        case None
        obtain r2 w5 where nt: "lists_null_tracker env cfg (of_nat (length imgs)) imgs w4 = (r2, w5)"
          by (cases "lists_null_tracker env cfg (of_nat (length imgs)) imgs w4") auto
        from assms Some rl Inr None nt
        have r: "r = (case r2 of Inl e \<Rightarrow> Inl e | Inr u \<Rightarrow> Inr 0)" and w': "w' = w5"
          by (simp_all add: run_lists_mode_def Let_def split: sum.splits)
        from lists_null_tracker_summary [OF nt] obtain es where
          t: "trace w5 = trace w4 @ es"
          and np: "\<not> list_ex process_event es"
          and ne: "\<not> list_ex escape_event es"
          and s: "\<not> list_ex stderr_event es"
          and sp: "\<And>loaded. save_pairs loaded es = []"
          and u: "r2 \<noteq> Inl user_pressed_escape" "r2 \<noteq> Inl assertion_failed"
          by blast
        let ?es = "(?pre @ ?mid) @ es"
        have a: "trace w' = trace w @ ?es" using t w4 w' by simp
        have b: "decision_follows (tracking_threshold cfg) ?es"
          by (rule decision_follows_append) (use mid np in \<open>simp_all add: decision_follows_no_process\<close>)
        have re: "r \<noteq> Inl user_pressed_escape" using r u by (cases r2) simp_all
        from ne have "escape_last False es" by (simp add: escape_last_def)
        with re have c: "escape_last (r = Inl user_pressed_escape) ?es"
          by (intro escape_last_append mid) simp
        have dd: "\<not> list_ex stderr_event ?es" using mid(3) s by simp
        have sv: "\<And>loaded. save_pairs loaded ?es = []"
          using mid(4) mid(5) sp by (simp only: save_pairs_append) simp
        have f: "\<forall>imgs' l its'. read_list env ia = Some imgs' \<longrightarrow> la = Some l
                   \<longrightarrow> read_list env l = Some its'
                   \<longrightarrow> subseq (save_pairs None ?es) (zip imgs' its')"
          by (simp only: sv) simp
        have g: "la = None \<longrightarrow> save_pairs None ?es = []" by (simp only: sv) simp
        have h: "r \<noteq> Inl assertion_failed" "\<forall>code. r = Inr code \<longrightarrow> code = 0"
          using r u by (cases r2; simp)+
        from a b c dd f g h None show ?thesis by (intro exI [of _ ?es]) simp
      next
        case tracker: (Some tr0)
        obtain r2 tr2 w5 where lp: "lists_loop env cfg (LoadFaceTrackerParams env (params_pathname cfg))
            la (of_nat (length imgs)) imgs its 1 tr0 w4 = (r2, tr2, w5)"
          by (cases "lists_loop env cfg (LoadFaceTrackerParams env (params_pathname cfg))
            la (of_nat (length imgs)) imgs its 1 tr0 w4") auto
        from assms Some rl Inr tracker lp
        have r: "r = (case r2 of Inl e \<Rightarrow> Inl e | Inr u \<Rightarrow> Inr 0)" and w': "w' = w5"
          by (simp_all add: run_lists_mode_def Let_def split: sum.splits)
        from r1 Inr have len: "la = None \<or> length its = length imgs" by auto
        from lists_loop_summary [OF lp len] obtain es where
          t: "trace w5 = trace w4 @ es"
          and d: "decision_follows (tracking_threshold cfg) es"
          and e: "escape_last (r2 = Inl user_pressed_escape) es"
          and s: "\<not> list_ex stderr_event es"
          and sp: "\<And>loaded. subseq (save_pairs loaded es) (zip imgs its)"
          and sn: "la = None \<longrightarrow> (\<forall>loaded. save_pairs loaded es = [])"
          and u: "r2 \<noteq> Inl undefined_behaviour" "r2 \<noteq> Inl assertion_failed"
          by blast
        let ?es = "(?pre @ ?mid) @ es"
        have a: "trace w' = trace w @ ?es" using t w4 w' by simp
        have b: "decision_follows (tracking_threshold cfg) ?es"
          by (rule decision_follows_append) (use mid d in simp_all)
        have "(r = Inl user_pressed_escape) = (r2 = Inl user_pressed_escape)"
          using r by (cases r2) simp_all
        with e have c: "escape_last (r = Inl user_pressed_escape) ?es"
          by (intro escape_last_append mid) simp
        have dd: "\<not> list_ex stderr_event ?es" using mid(3) s by simp
        have sv: "\<And>loaded. save_pairs loaded ?es = save_pairs loaded es"
          using mid(4) mid(5) by (simp only: save_pairs_append) simp
        have f: "\<forall>imgs' l its'. read_list env ia = Some imgs' \<longrightarrow> la = Some l
                   \<longrightarrow> read_list env l = Some its'
                   \<longrightarrow> subseq (save_pairs None ?es) (zip imgs' its')"
          using Some r1 Inr sp [of None] sv [of None] by auto
        have g: "la = None \<longrightarrow> save_pairs None ?es = []" using sn sv [of None] by simp
        have h: "r \<noteq> Inl undefined_behaviour" "r \<noteq> Inl assertion_failed"
          "\<forall>code. r = Inr code \<longrightarrow> code = 0"
          using r u by (cases r2; simp)+
        from a b c dd f g h show ?thesis by (intro exI [of _ ?es]) simp
      qed
    qed
  qed
qed

lemma run_video_mode_assert:
  assumes "LoadFaceTracker env (model_pathname cfg) = None
           \<or> LoadFaceTrackerParams env (params_pathname cfg) = None"
  shows "run_video_mode env cfg ia la w =
           (Inl assertion_failed,
            w\<lparr>trace := trace w @ [Ev_LoadFaceTracker (model_pathname cfg),
                 Ev_LoadFaceTrackerParams (params_pathname cfg),
                 Ev_assert_failed (if LoadFaceTracker env (model_pathname cfg) = None
                                   then ''tracker'' else ''tracker_params'')]\<rparr>)"
  using assms by (auto simp: run_video_mode_def Let_def emit_def split: option.splits)

lemma run_video_mode_loaded:
  assumes "LoadFaceTracker env (model_pathname cfg) = Some tr0"
    and "LoadFaceTrackerParams env (params_pathname cfg) = Some p0"
  shows "run_video_mode env cfg ia la w =
     (let w3 = emit (Ev_VideoCapture ia) (emit (Ev_LoadFaceTrackerParams (params_pathname cfg))
                 (emit (Ev_LoadFaceTracker (model_pathname cfg)) w))
      in case VideoCapture env ia of
           None \<Rightarrow> (Inl (make_runtime_error (''Unable to open video file '' @ quoted ia)), w3)
         | Some input \<Rightarrow>
             (case video_loop env cfg (Some p0) la
                     (fst (VideoCapture_read input)) (snd (VideoCapture_read input)) 1 tr0
                     (emit Ev_VideoCapture_read w3) of
                (Inl e, tracker1, w4) \<Rightarrow> (Inl e, w4)
              | (Inr u, tracker1, w4) \<Rightarrow> (Inr 0, w4)))"
  using assms by (simp add: run_video_mode_def Let_def)

lemma run_video_mode_summary:
  assumes "run_video_mode env cfg ia la w = (r, w')"
  shows "\<exists>es. trace w' = trace w @ es
           \<and> decision_follows (tracking_threshold cfg) es
           \<and> escape_last (r = Inl user_pressed_escape) es
           \<and> \<not> list_ex stderr_event es
           \<and> (\<forall>l frames. la = Some l \<longrightarrow> VideoCapture env ia = Some frames \<longrightarrow>
                 subseq (saved_paths es)
                   (map (\<lambda>k. resolve_pathname env l (1 + of_nat k)) [0..<length frames]))
           \<and> (la = None \<longrightarrow> saved_paths es = [])
           \<and> r \<noteq> Inl undefined_behaviour
           \<and> (r = Inl assertion_failed) =
                (LoadFaceTracker env (model_pathname cfg) = None
                 \<or> LoadFaceTrackerParams env (params_pathname cfg) = None)
           \<and> (\<forall>code. r = Inr code \<longrightarrow> code = 0)"
proof (cases "LoadFaceTracker env (model_pathname cfg) = None
           \<or> LoadFaceTrackerParams env (params_pathname cfg) = None")
  case True
  let ?es = "[Ev_LoadFaceTracker (model_pathname cfg),
                 Ev_LoadFaceTrackerParams (params_pathname cfg),
                 Ev_assert_failed (if LoadFaceTracker env (model_pathname cfg) = None
                                   then ''tracker'' else ''tracker_params'')]"
  from assms run_video_mode_assert [OF True, of ia la w]
  have r: "r = Inl assertion_failed" and t: "trace w' = trace w @ ?es"
    by auto
  have "decision_follows (tracking_threshold cfg) ?es" "escape_last False ?es"
    "\<not> list_ex stderr_event ?es" "saved_paths ?es = []"
    by (simp_all add: decision_follows_no_process escape_last_def)
  with r t True show ?thesis by (intro exI [of _ ?es]) simp
next
  case False
  then obtain tr0 p0 where tr0: "LoadFaceTracker env (model_pathname cfg) = Some tr0"
    and p0: "LoadFaceTrackerParams env (params_pathname cfg) = Some p0"
    by auto
  note rv = run_video_mode_loaded [OF tr0 p0, of ia la w]
  let ?pre = "[Ev_LoadFaceTracker (model_pathname cfg),
               Ev_LoadFaceTrackerParams (params_pathname cfg), Ev_VideoCapture ia]"
  let ?w3 = "emit (Ev_VideoCapture ia) (emit (Ev_LoadFaceTrackerParams (params_pathname cfg))
               (emit (Ev_LoadFaceTracker (model_pathname cfg)) w))"
  have w3: "trace ?w3 = trace w @ ?pre" by simp
  have pre: "decision_follows (tracking_threshold cfg) ?pre" "escape_last False ?pre"
    "\<not> list_ex stderr_event ?pre" "saved_paths ?pre = []"
    by (simp_all add: decision_follows_no_process escape_last_def)
  show ?thesis
  proof (cases "VideoCapture env ia")
    case None
    with assms rv
    have "r = Inl (make_runtime_error (''Unable to open video file '' @ quoted ia))" "w' = ?w3"
      by (simp_all add: Let_def)
    with pre w3 False show ?thesis
      by (intro exI [of _ ?pre]) (simp add: make_runtime_error_def None)
  next
    case (Some frames)
    let ?img = "fst (VideoCapture_read frames)"
    let ?input = "snd (VideoCapture_read frames)"
    let ?pre4 = "?pre @ [Ev_VideoCapture_read]"
    obtain r2 tr2 w5 where lp: "video_loop env cfg (Some p0)
          la ?img ?input 1 tr0 (emit Ev_VideoCapture_read ?w3) = (r2, tr2, w5)"
      by (cases "video_loop env cfg (Some p0)
          la ?img ?input 1 tr0 (emit Ev_VideoCapture_read ?w3)")
         auto
    from assms rv Some lp
    have r: "r = (case r2 of Inl e \<Rightarrow> Inl e | Inr u \<Rightarrow> Inr 0)" and w': "w' = w5"
      by (simp_all add: Let_def split: sum.splits)
    have pre4: "decision_follows (tracking_threshold cfg) ?pre4" "escape_last False ?pre4"
      "\<not> list_ex stderr_event ?pre4" "saved_paths ?pre4 = []"
      by (simp_all add: decision_follows_no_process escape_last_def)
    from video_loop_summary [OF lp] obtain es where
      t: "trace w5 = trace (emit Ev_VideoCapture_read ?w3) @ es"
      and d: "decision_follows (tracking_threshold cfg) es"
      and e: "escape_last (r2 = Inl user_pressed_escape) es"
      and s: "\<not> list_ex stderr_event es"
      and sp: "\<And>l. la = Some l \<Longrightarrow> subseq (saved_paths es)
                   (map (\<lambda>k. resolve_pathname env l (1 + of_nat k)) [0..<frames_left ?img ?input])"
      and sn: "la = None \<longrightarrow> saved_paths es = []"
      and u: "r2 \<noteq> Inl undefined_behaviour" "r2 \<noteq> Inl assertion_failed"
      by blast
    let ?es = "?pre4 @ es"
    have a: "trace w' = trace w @ ?es" using t w' by simp
    have b: "decision_follows (tracking_threshold cfg) ?es"
      by (rule decision_follows_append) (use pre4 d in simp_all)
    have "(r = Inl user_pressed_escape) = (r2 = Inl user_pressed_escape)"
      using r by (cases r2) simp_all
    with e have c: "escape_last (r = Inl user_pressed_escape) ?es"
      by (intro escape_last_append pre4) simp
    have dd: "\<not> list_ex stderr_event ?es" using s by simp
    have f: "\<forall>l frames'. la = Some l \<longrightarrow> VideoCapture env ia = Some frames' \<longrightarrow>
                 subseq (saved_paths ?es)
                   (map (\<lambda>k. resolve_pathname env l (1 + of_nat k)) [0..<length frames'])"
    proof (intro allI impI)
      fix l frames' assume l: "la = Some l" and "VideoCapture env ia = Some frames'"
      with Some have "frames' = frames" by simp
      moreover from sp [OF l] have "subseq (saved_paths es)
                   (map (\<lambda>k. resolve_pathname env l (1 + of_nat k)) [0..<length frames])"
        by (rule subseq_map_upt_mono) (rule frames_left_read)
      ultimately show "subseq (saved_paths ?es)
                   (map (\<lambda>k. resolve_pathname env l (1 + of_nat k)) [0..<length frames'])"
        by simp
    qed
    have g: "la = None \<longrightarrow> saved_paths ?es = []" using sn by simp
    have h: "r \<noteq> Inl undefined_behaviour" "r \<noteq> Inl assertion_failed"
      "\<forall>code. r = Inr code \<longrightarrow> code = 0"
      using r u by (cases r2; simp)+
    from a b c dd f g h False show ?thesis by (intro exI [of _ ?es]) simp
  qed
qed

lemma run_image_mode_load_failed:
  assumes "load_grayscale_image env ia = None"
  shows "run_image_mode env cfg ia la w =
     (Inl (make_runtime_error (''Unable to load image '' @ quoted ia)),
      w\<lparr>trace := trace w @ [Ev_LoadFaceTracker (model_pathname cfg),
               Ev_LoadFaceTrackerParams (params_pathname cfg), Ev_load_grayscale_image ia]\<rparr>)"
  using assms by (simp add: run_image_mode_def emit_def)

lemma run_image_mode_null_tracker:
  assumes "load_grayscale_image env ia = Some loaded"
    and "LoadFaceTracker env (model_pathname cfg) = None"
  shows "run_image_mode env cfg ia la w =
     (Inl undefined_behaviour,
      w\<lparr>trace := trace w @ [Ev_LoadFaceTracker (model_pathname cfg),
               Ev_LoadFaceTrackerParams (params_pathname cfg), Ev_load_grayscale_image ia]\<rparr>)"
  using assms by (cases loaded) (simp add: run_image_mode_def emit_def)

lemma run_image_mode_events:
  assumes "run_image_mode env cfg ia la w = (r, w')"
    and "load_grayscale_image env ia = Some (gray, img)"
    and "LoadFaceTracker env (model_pathname cfg) = Some tr0"
    and "NewFrame env tr0 gray (LoadFaceTrackerParams env (params_pathname cfg)) = (c, tr1)"
    and "s = (if tracking_threshold cfg \<le>s c then getShape env tr1 else [])"
  shows "\<exists>key. trace w' = trace w @ [Ev_LoadFaceTracker (model_pathname cfg),
               Ev_LoadFaceTrackerParams (params_pathname cfg), Ev_load_grayscale_image ia]
             @ decide_events (Ev_NewFrame gray c) (tracking_threshold cfg \<le>s c) False
             @ route_events (if s \<noteq> [] then la else None) (la = None) cfg img s key
           \<and> r = (if la = None \<and> escape_key key then Inl user_pressed_escape else Inr 0)"
proof -
  let ?w3 = "emit (Ev_load_grayscale_image ia) (emit (Ev_LoadFaceTrackerParams (params_pathname cfg))
               (emit (Ev_LoadFaceTracker (model_pathname cfg)) w))"
  let ?w4 = "?w3\<lparr>trace := trace ?w3
               @ decide_events (Ev_NewFrame gray c) (tracking_threshold cfg \<le>s c) False\<rparr>"
  obtain r0 w5 where rt: "image_route cfg la img s ?w4 = (r0, w5)"
    by (cases "image_route cfg la img s ?w4") auto
  from assms(1) rt have r: "r = (case r0 of Inl e \<Rightarrow> Inl e | Inr u \<Rightarrow> Inr 0)" and "w' = w5"
    by (auto simp: run_image_mode_def Let_def assms(2) assms(3) assms(5)
                   image_decide_events [OF assms(4)]
             split: sum.splits if_splits)
  with image_route_events [OF rt] show ?thesis
    by (auto simp: route_result_def)
qed

lemma next_is_list_ex: "next_is Ev_getShape es \<Longrightarrow> list_ex getShape_event es"
  by (cases es) (auto simp: next_is_def)

lemma run_image_mode_summary:
  assumes "run_image_mode env cfg ia la w = (r, w')"
  shows "\<exists>es. trace w' = trace w @ es
           \<and> decided_by (tracking_threshold cfg) es
           \<and> escape_last (r = Inl user_pressed_escape) es
           \<and> \<not> list_ex stderr_event es
           \<and> (r = Inl undefined_behaviour \<longrightarrow> LoadFaceTracker env (model_pathname cfg) = None)
           \<and> r \<noteq> Inl assertion_failed
           \<and> (\<forall>code. r = Inr code \<longrightarrow> code = 0)"
proof (cases "load_grayscale_image env ia")
  case None
  from assms run_image_mode_load_failed [OF None, of cfg la w]
  have "r = Inl (make_runtime_error (''Unable to load image '' @ quoted ia))"
    and "trace w' = trace w @ [Ev_LoadFaceTracker (model_pathname cfg),
               Ev_LoadFaceTrackerParams (params_pathname cfg), Ev_load_grayscale_image ia]"
    by auto
  then show ?thesis
    by (auto simp: make_runtime_error_def decided_by_def escape_last_def)
next
  case (Some loaded)
  show ?thesis
  proof (cases "LoadFaceTracker env (model_pathname cfg)")
    case None
    from assms run_image_mode_null_tracker [OF Some None, of la w]
    have "r = Inl undefined_behaviour"
      and "trace w' = trace w @ [Ev_LoadFaceTracker (model_pathname cfg),
               Ev_LoadFaceTrackerParams (params_pathname cfg), Ev_load_grayscale_image ia]"
      by auto
    with None show ?thesis
      by (auto simp: decided_by_def escape_last_def)
  next
    case tracker: (Some tr0)
    obtain gray img where gi: "load_grayscale_image env ia = Some (gray, img)"
      using Some by (cases loaded) auto
    obtain c tr1 where nf: "NewFrame env tr0 gray
             (LoadFaceTrackerParams env (params_pathname cfg)) = (c, tr1)"
      by (cases "NewFrame env tr0 gray (LoadFaceTrackerParams env (params_pathname cfg))") auto
    define s where "s = (if tracking_threshold cfg \<le>s c then getShape env tr1 else [])"
    from run_image_mode_events [OF assms gi tracker nf s_def] obtain key where
      t: "trace w' = trace w @ [Ev_LoadFaceTracker (model_pathname cfg),
                 Ev_LoadFaceTrackerParams (params_pathname cfg), Ev_load_grayscale_image ia]
               @ decide_events (Ev_NewFrame gray c) (tracking_threshold cfg \<le>s c) False
               @ route_events (if s \<noteq> [] then la else None) (la = None) cfg img s key"
      and r: "r = (if la = None \<and> escape_key key then Inl user_pressed_escape else Inr 0)"
      by blast
    let ?post = "route_events (if s \<noteq> [] then la else None) (la = None) cfg img s key"
    let ?es = "[Ev_LoadFaceTracker (model_pathname cfg),
                 Ev_LoadFaceTrackerParams (params_pathname cfg), Ev_load_grayscale_image ia]
               @ decide_events (Ev_NewFrame gray c) (tracking_threshold cfg \<le>s c) False @ ?post"
    have np: "\<not> next_is Ev_getShape ?post"
      using next_is_list_ex [of ?post] by auto
    have b: "decided_by (tracking_threshold cfg) ?es"
      using np by (simp add: decided_by_def decide_events_def next_is_def after_process_no_process)
    have "escape_last (r = Inl user_pressed_escape) ?post" unfolding r by simp
    then have c: "escape_last (r = Inl user_pressed_escape) ?es"
      by (intro escape_last_Cons escape_last_append) (simp_all add: escape_last_def)
    have d: "\<not> list_ex stderr_event ?es" by simp
    from t b c d r show ?thesis by (intro exI [of _ ?es]) simp
  qed
qed

subsection \<open>\<open>run_program\<close> and \<open>main\<close>\<close>

lemma get_argument_Inl:
  "get_argument parse argument rest = Inl e \<Longrightarrow> \<exists>m. e = runtime_error m"
  by (auto simp: get_argument_def make_runtime_error_def split: list.splits option.splits)

lemma parse_arguments_Inl:
  "parse_arguments env args a = Inl e \<Longrightarrow> \<exists>m. e = runtime_error m"
proof (induction env args a rule: parse_arguments.induct)
  case (1 env a)
  then show ?case by simp
next
  case (2 env argument rest a)
  show ?case
  proof (cases "argument = ''--help'' \<or> argument = ''-h''")
    case True
    with "2.prems" show ?thesis by simp
  next
    case nh: False
    show ?thesis
    proof (cases "argument = ''--lists''")
      case True
      with nh "2.prems" "2.IH"(1) show ?thesis by simp
    next
      case nl: False
      show ?thesis
      proof (cases "argument = ''--video''")
        case True
        with nh nl "2.prems" "2.IH"(2) show ?thesis by simp
      next
        case nv: False
        show ?thesis
        proof (cases "argument = ''--wait-time''")
          case True
          with nh nl nv "2.prems" "2.IH"(3) show ?thesis
            by (auto split: sum.splits dest: get_argument_Inl)
        next
          case nw: False
          show ?thesis
          proof (cases "argument = ''--model''")
            case True
            with nh nl nv nw "2.prems" "2.IH"(4) show ?thesis
              by (auto split: sum.splits dest: get_argument_Inl)
          next
            case nm: False
            show ?thesis
            proof (cases "argument = ''--params''")
              case True
              with nh nl nv nw nm "2.prems" "2.IH"(5) show ?thesis
                by (auto split: sum.splits dest: get_argument_Inl)
            next
              case np: False
              show ?thesis
              proof (cases "argument = ''--title''")
                case True
                with nh nl nv nw nm np "2.prems" "2.IH"(6) show ?thesis
                  by (auto split: sum.splits dest: get_argument_Inl)
              next
                case nt: False
                show ?thesis
                proof (cases "argument = ''--threshold''")
                  case True
                  with nh nl nv nw nm np nt "2.prems" "2.IH"(7) show ?thesis
                    by (auto split: sum.splits dest: get_argument_Inl)
                next
                  case nth: False
                  show ?thesis
                  proof (cases "argument = ''--verbose''")
                    case True
                    with nh nl nv nw nm np nt nth "2.prems" "2.IH"(8) show ?thesis by simp
                  next
                    case nvb: False
                    with nh nl nv nw nm np nt nth "2.prems" "2.IH"(9) show ?thesis
                      by (auto simp: make_runtime_error_def split: prod.splits if_splits)
                  qed
                qed
              qed
            qed
          qed
        qed
      qed
    qed
  qed
qed

lemma parse_arguments_positional:
  "parse_arguments env args a = Inr (Parsed a') \<Longrightarrow> positional_arguments args = []
     \<Longrightarrow> image_argument a' = image_argument a \<and> landmarks_argument a' = landmarks_argument a"
proof (induction env args a rule: parse_arguments.induct)
  case (1 env a)
  then show ?case by simp
next
  case (2 env argument rest a)
  show ?case
  proof (cases "argument = ''--help'' \<or> argument = ''-h''")
    case True
    with "2.prems" show ?thesis by simp
  next
    case nh: False
    show ?thesis
    proof (cases "argument = ''--lists''")
      case True
      with nh "2.prems" "2.IH"(1) show ?thesis by simp
    next
      case nl: False
      show ?thesis
      proof (cases "argument = ''--video''")
        case True
        with nh nl "2.prems" "2.IH"(2) show ?thesis by simp
      next
        case nv: False
        show ?thesis
        proof (cases "argument = ''--wait-time''")
          case True
          with nh nl nv "2.prems" "2.IH"(3) show ?thesis
            by (auto split: sum.splits)
        next
          case nw: False
          show ?thesis
          proof (cases "argument = ''--model''")
            case True
            with nh nl nv nw "2.prems" "2.IH"(4) show ?thesis
              by (auto split: sum.splits)
          next
            case nm: False
            show ?thesis
            proof (cases "argument = ''--params''")
              case True
              with nh nl nv nw nm "2.prems" "2.IH"(5) show ?thesis
                by (auto split: sum.splits)
            next
              case np: False
              show ?thesis
              proof (cases "argument = ''--title''")
                case True
                with nh nl nv nw nm np "2.prems" "2.IH"(6) show ?thesis
                  by (auto split: sum.splits)
              next
                case nt: False
                show ?thesis
                proof (cases "argument = ''--threshold''")
                  case True
                  with nh nl nv nw nm np nt "2.prems" "2.IH"(7) show ?thesis
                    by (auto split: sum.splits)
                next
                  case nth: False
                  show ?thesis
                  proof (cases "argument = ''--verbose''")
                    case True
                    with nh nl nv nw nm np nt nth "2.prems" "2.IH"(8) show ?thesis by simp
                  next
                    case nvb: False
                    with nh nl nv nw nm np nt nth "2.prems"(2) show ?thesis
                      by simp
                  qed
                qed
              qed
            qed
          qed
        qed
      qed
    qed
  qed
qed

lemma run_program_cases:
  "run_program env argv w =
     (case parse_arguments env (drop 1 argv) (initial_arguments env) of
        Inl e \<Rightarrow> (Inl e, w)
      | Inr Help \<Rightarrow> (Inr 0, emit Ev_print_usage w)
      | Inr (Parsed a) \<Rightarrow>
          (case image_argument a of
             None \<Rightarrow> (Inr 0, emit Ev_print_usage w)
           | Some img \<Rightarrow>
               if lists_mode a \<and> video_mode a then
                 (Inl (make_runtime_error
                    ''The operator is confused as the switches --lists and --video are present on the command line.''), w)
               else if lists_mode a then
                 run_lists_mode env
                   (if \<not> wait_time_specified a then (config a)\<lparr>wait_time := 1 / 30\<rparr> else config a)
                   img (landmarks_argument a) w
               else if video_mode a then
                 run_video_mode env
                   (if \<not> wait_time_specified a then (config a)\<lparr>wait_time := 1 / 30\<rparr> else config a)
                   img (landmarks_argument a) w
               else
                 run_image_mode env
                   (if \<not> wait_time_specified a then (config a)\<lparr>wait_time := 0\<rparr> else config a)
                   img (landmarks_argument a) w))"
  by (simp add: run_program_def)

lemma run_program_summary:
  assumes "run_program env argv w = (r, w')"
  shows "\<exists>es. trace w' = trace w @ es
           \<and> escape_last (r = Inl user_pressed_escape) es
           \<and> \<not> list_ex stderr_event es
           \<and> (\<forall>code. r = Inr code \<longrightarrow> code = 0)
           \<and> (\<forall>a. parse_arguments env (drop 1 argv) (initial_arguments env) = Inr (Parsed a)
                 \<longrightarrow> decided_by (tracking_threshold (config a)) es
                    \<and> (r = Inl undefined_behaviour \<longrightarrow>
                          \<not> video_mode a
                          \<and> LoadFaceTracker env (model_pathname (config a)) = None)
                    \<and> (r = Inl assertion_failed \<longrightarrow>
                          video_mode a \<and> \<not> lists_mode a
                          \<and> (LoadFaceTracker env (model_pathname (config a)) = None
                             \<or> LoadFaceTrackerParams env (params_pathname (config a)) = None)))
           \<and> (r = Inl undefined_behaviour \<or> r = Inl assertion_failed \<longrightarrow>
                 (\<exists>a. parse_arguments env (drop 1 argv) (initial_arguments env) = Inr (Parsed a)))"
proof (cases "parse_arguments env (drop 1 argv) (initial_arguments env)")
  case (Inl e)
  with assms have "r = Inl e" "w' = w" by (simp_all add: run_program_def)
  with parse_arguments_Inl [OF Inl] Inl show ?thesis by auto
next
  case (Inr res)
  show ?thesis
  proof (cases res)
    case Help
    with assms Inr have "r = Inr 0" "w' = emit Ev_print_usage w" by (simp_all add: run_program_def)
    with Inr Help show ?thesis by (auto simp: escape_last_def)
  next
    case (Parsed a)
    note pa = Inr [unfolded Parsed]
    show ?thesis
    proof (cases "image_argument a")
      case None
      with assms pa have "r = Inr 0" "w' = emit Ev_print_usage w"
        by (simp_all add: run_program_def)
      with pa show ?thesis by (auto simp: escape_last_def decided_by_def)
    next
      case (Some img)
      show ?thesis
      proof (cases "lists_mode a \<and> video_mode a")
        case True
        with assms pa Some have "\<exists>m. r = Inl (runtime_error m)" "w' = w"
          by (auto simp: run_program_def make_runtime_error_def)
        with pa show ?thesis by (auto simp: decided_by_def)
      next
        case nb: False
        show ?thesis
        proof (cases "lists_mode a")
          case True
          let ?cfg = "if \<not> wait_time_specified a then (config a)\<lparr>wait_time := 1 / 30\<rparr> else config a"
          from assms pa Some nb True
          have "run_lists_mode env ?cfg img (landmarks_argument a) w = (r, w')"
            by (simp add: run_program_def)
          from run_lists_mode_summary [OF this] obtain es where
            t: "trace w' = trace w @ es"
            and d: "decision_follows (tracking_threshold ?cfg) es"
            and e: "escape_last (r = Inl user_pressed_escape) es"
            and s: "\<not> list_ex stderr_event es"
            and u: "r = Inl undefined_behaviour \<longrightarrow> LoadFaceTracker env (model_pathname ?cfg) = None"
            and m: "r \<noteq> Inl assertion_failed"
            and z: "\<forall>code. r = Inr code \<longrightarrow> code = 0"
            by blast
          have c: "tracking_threshold ?cfg = tracking_threshold (config a)"
            "model_pathname ?cfg = model_pathname (config a)" by simp_all
          from d have "decided_by (tracking_threshold (config a)) es"
            unfolding c by (rule decision_follows_decided)
          with t e s u [unfolded c] m z pa True nb show ?thesis
            by (intro exI [of _ es]) auto
        next
          case nl: False
          show ?thesis
          proof (cases "video_mode a")
            case True
            let ?cfg = "if \<not> wait_time_specified a then (config a)\<lparr>wait_time := 1 / 30\<rparr> else config a"
            from assms pa Some nl True
            have "run_video_mode env ?cfg img (landmarks_argument a) w = (r, w')"
              by (simp add: run_program_def)
            from run_video_mode_summary [OF this] obtain es where
              t: "trace w' = trace w @ es"
              and d: "decision_follows (tracking_threshold ?cfg) es"
              and e: "escape_last (r = Inl user_pressed_escape) es"
              and s: "\<not> list_ex stderr_event es"
              and u: "r \<noteq> Inl undefined_behaviour"
              and m: "(r = Inl assertion_failed) =
                (LoadFaceTracker env (model_pathname ?cfg) = None
                 \<or> LoadFaceTrackerParams env (params_pathname ?cfg) = None)"
              and z: "\<forall>code. r = Inr code \<longrightarrow> code = 0"
              by (elim exE conjE) (rule that)
            have c: "tracking_threshold ?cfg = tracking_threshold (config a)"
              "model_pathname ?cfg = model_pathname (config a)"
              "params_pathname ?cfg = params_pathname (config a)" by simp_all
            from d have "decided_by (tracking_threshold (config a)) es"
              unfolding c by (rule decision_follows_decided)
            with t e s u m [unfolded c] z pa True nl show ?thesis
              by (intro exI [of _ es]) auto
          next
            case nv: False
            let ?cfg = "if \<not> wait_time_specified a then (config a)\<lparr>wait_time := 0\<rparr> else config a"
            from assms pa Some nl nv
            have "run_image_mode env ?cfg img (landmarks_argument a) w = (r, w')"
              by (simp add: run_program_def)
            from run_image_mode_summary [OF this] obtain es where
              t: "trace w' = trace w @ es"
              and d: "decided_by (tracking_threshold ?cfg) es"
              and e: "escape_last (r = Inl user_pressed_escape) es"
              and s: "\<not> list_ex stderr_event es"
              and u: "r = Inl undefined_behaviour \<longrightarrow> LoadFaceTracker env (model_pathname ?cfg) = None"
              and m: "r \<noteq> Inl assertion_failed"
              and z: "\<forall>code. r = Inr code \<longrightarrow> code = 0"
              by blast
            have c: "tracking_threshold ?cfg = tracking_threshold (config a)"
              "model_pathname ?cfg = model_pathname (config a)" by simp_all
            from t d [unfolded c] e s u [unfolded c] m z pa nl nv show ?thesis
              by (intro exI [of _ es]) auto
          qed
        qed
      qed
    qed
  qed
qed

lemma main_cases:
  "main env argv w =
     (case run_program env argv w of
        (Inr code, w1) \<Rightarrow> (Some code, w1)
      | (Inl user_pressed_escape, w1) \<Rightarrow> (Some 1, emit (Ev_stdout ''Stopping prematurely.'') w1)
      | (Inl (runtime_error what), w1) \<Rightarrow>
          (Some 2, emit (Ev_stderr (''Caught unhandled exception: '' @ what)) w1)
      | (Inl assertion_failed, w1) \<Rightarrow> (None, w1)
      | (Inl undefined_behaviour, w1) \<Rightarrow> (None, w1))"
  by (simp add: main_def)


subsection \<open>Running the model\<close>

text \<open>The definitions to unfold, and the facts to use, when the simplifier runs the model
  on a concrete input.\<close>

lemmas run_defs = main_def run_program_def run_image_mode_def run_lists_mode_def run_video_mode_def
  image_decide_def image_route_def lists_decide_def lists_route_def lists_frame_def
  video_decide_def video_route_def video_frame_def video_gray_image_def
  read_landmark_pathnames_def display_image_and_points_def waitKey_def
  get_argument_def make_runtime_error_def initial_arguments_def
  scripted_env_def scripted_next_def sample_cfg_def start_def emit_def events_since_def
  VideoCapture_read_def gray_frame_def colour_frame_def bgra_frame_def deep_frame_def
  CV_8UC1_def CV_8UC3_def CV_MAKETYPE_def empty_Mat_def lists_null_tracker_def
  no_tracker_env_def quoted_def

lemma replicate_numeral: "replicate (numeral k) x = x # replicate (pred_numeral k) x"
  by (simp add: numeral_eq_Suc)

lemma digit_char_simps:
  "digit_char 0 = CHR ''0''" "digit_char 1 = CHR ''1''" "digit_char 2 = CHR ''2''"
  "digit_char 3 = CHR ''3''" "digit_char 4 = CHR ''4''" "digit_char 5 = CHR ''5''"
  "digit_char 6 = CHR ''6''" "digit_char 7 = CHR ''7''" "digit_char 8 = CHR ''8''"
  "digit_char 9 = CHR ''9''" "digit_char (Suc 0) = CHR ''1''"
  by code_simp+

lemmas format_defs = resolve_pathname_def pathname_buffer_size_def snprintf_def render_def
  conv_u_def slot_count_def is_digit_def digit_val_def decimal.simps replicate_numeral
  digit_char_simps

lemma parse_arguments_keeps_threshold:
  "parse_arguments env args a = Inr (Parsed a') \<Longrightarrow> ''--threshold'' \<notin> set args
     \<Longrightarrow> tracking_threshold (config a') = tracking_threshold (config a)"
proof (induction env args a rule: parse_arguments.induct)
  case (1 env a)
  then show ?case by simp
next
  case (2 env argument rest a)
  show ?case
  proof (cases "argument = ''--help'' \<or> argument = ''-h''")
    case True
    with "2.prems" show ?thesis by simp
  next
    case nh: False
    show ?thesis
    proof (cases "argument = ''--lists''")
      case True
      with nh "2.prems" "2.IH"(1) show ?thesis
        by simp
    next
      case nl: False
      show ?thesis
      proof (cases "argument = ''--video''")
        case True
        with nh nl "2.prems" "2.IH"(2) show ?thesis
          by simp
      next
        case nv: False
        show ?thesis
        proof (cases "argument = ''--wait-time''")
          case True
          with nh nl nv "2.prems" "2.IH"(3) show ?thesis
            by (auto simp: get_argument_def split: sum.splits list.splits option.splits)
        next
          case nw: False
          show ?thesis
          proof (cases "argument = ''--model''")
            case True
            with nh nl nv nw "2.prems" "2.IH"(4) show ?thesis
              by (auto simp: get_argument_def split: sum.splits list.splits option.splits)
          next
            case nm: False
            show ?thesis
            proof (cases "argument = ''--params''")
              case True
              with nh nl nv nw nm "2.prems" "2.IH"(5) show ?thesis
                by (auto simp: get_argument_def split: sum.splits list.splits option.splits)
            next
              case np: False
              show ?thesis
              proof (cases "argument = ''--title''")
                case True
                with nh nl nv nw nm np "2.prems" "2.IH"(6) show ?thesis
                  by (auto simp: get_argument_def split: sum.splits list.splits option.splits)
              next
                case nt: False
                show ?thesis
                proof (cases "argument = ''--threshold''")
                  case True
                  with nh nl nv nw nm np nt "2.prems" "2.IH"(7) show ?thesis
                    by simp
                next
                  case nth: False
                  show ?thesis
                  proof (cases "argument = ''--verbose''")
                    case True
                    with nh nl nv nw nm np nt nth "2.prems" "2.IH"(8) show ?thesis
                      by simp
                  next
                    case nvb: False
                    with nh nl nv nw nm np nt nth nvb "2.prems" "2.IH"(9) show ?thesis
                      by (auto split: prod.splits if_splits)
                  qed
                qed
              qed
            qed
          qed
        qed
      qed
    qed
  qed
qed


lemma parse_arguments_append:
  "parse_arguments env args a = Inr (Parsed a1)
     \<Longrightarrow> parse_arguments env (args @ later) a = parse_arguments env later a1"
proof (induction env args a rule: parse_arguments.induct)
  case (1 env a)
  then show ?case by simp
next
  case (2 env argument rest a)
  show ?case
  proof (cases "argument = ''--help'' \<or> argument = ''-h''")
    case True
    with "2.prems" show ?thesis by simp
  next
    case nh: False
    show ?thesis
    proof (cases "argument = ''--lists''")
      case True
      with nh "2.prems" "2.IH"(1) show ?thesis
        by simp
    next
      case nl: False
      show ?thesis
      proof (cases "argument = ''--video''")
        case True
        with nh nl "2.prems" "2.IH"(2) show ?thesis
          by simp
      next
        case nv: False
        show ?thesis
        proof (cases "argument = ''--wait-time''")
          case True
          with nh nl nv "2.prems" "2.IH"(3) show ?thesis
            by (auto simp: get_argument_def split: sum.splits list.splits option.splits)
        next
          case nw: False
          show ?thesis
          proof (cases "argument = ''--model''")
            case True
            with nh nl nv nw "2.prems" "2.IH"(4) show ?thesis
              by (auto simp: get_argument_def split: sum.splits list.splits option.splits)
          next
            case nm: False
            show ?thesis
            proof (cases "argument = ''--params''")
              case True
              with nh nl nv nw nm "2.prems" "2.IH"(5) show ?thesis
                by (auto simp: get_argument_def split: sum.splits list.splits option.splits)
            next
              case np: False
              show ?thesis
              proof (cases "argument = ''--title''")
                case True
                with nh nl nv nw nm np "2.prems" "2.IH"(6) show ?thesis
                  by (auto simp: get_argument_def split: sum.splits list.splits option.splits)
              next
                case nt: False
                show ?thesis
                proof (cases "argument = ''--threshold''")
                  case True
                  with nh nl nv nw nm np nt "2.prems" "2.IH"(7) show ?thesis
                    by (auto simp: get_argument_def split: sum.splits list.splits option.splits)
                next
                  case nth: False
                  show ?thesis
                  proof (cases "argument = ''--verbose''")
                    case True
                    with nh nl nv nw nm np nt nth "2.prems" "2.IH"(8) show ?thesis
                      by simp
                  next
                    case nvb: False
                    with nh nl nv nw nm np nt nth nvb "2.prems" "2.IH"(9) show ?thesis
                      by (auto split: prod.splits if_splits)
                  qed
                qed
              qed
            qed
          qed
        qed
      qed
    qed
  qed
qed


subsection \<open>How a run ends when the escape key is not pressed\<close>

lemma takeWhile_read:
  "takeWhile (\<lambda>f. rows f > 0 \<and> cols f > 0)
     (fst (VideoCapture_read input) # snd (VideoCapture_read input))
   = takeWhile (\<lambda>f. rows f > 0 \<and> cols f > 0) input"
  by (cases input) (simp_all add: VideoCapture_read_def empty_Mat_def)








section \<open>The claims\<close>

subsection \<open>The decision\<close>

text \<open>
  C1. In all three modes the decision takes the shape from the tracker exactly when the
  confidence \<open>c\<close> that the tracker returned is at least the threshold, as signed
  integers; a confidence equal to the threshold is an accept. Otherwise the shape stays
  empty. ``Takes the shape'' is the call of \<open>getShape\<close> in the trace, and the shape
  returned is the one the mode hands to its router.
\<close>

theorem accept_iff_confidence_reaches_threshold:
  assumes "NewFrame env tracker gray_image params = (c, tracker1)"
    and "Track env tracker gray_image params = (c', tracker1')"
  shows "(case lists_decide env cfg params gray_image tracker w of
            (s, tracker2, w') \<Rightarrow>
              list_ex getShape_event (events_since w w') = (sint (tracking_threshold cfg) \<le> sint c)
              \<and> s = (if sint (tracking_threshold cfg) \<le> sint c then getShape env tracker1 else []))
       \<and> (case image_decide env cfg params gray_image tracker w of
            (s, tracker2, w') \<Rightarrow>
              list_ex getShape_event (events_since w w') = (sint (tracking_threshold cfg) \<le> sint c)
              \<and> s = (if sint (tracking_threshold cfg) \<le> sint c then getShape env tracker1 else []))
       \<and> (case video_decide env cfg params gray_image tracker w of
            (s, tracker2, w') \<Rightarrow>
              list_ex getShape_event (events_since w w') = (sint (tracking_threshold cfg) \<le> sint c')
              \<and> s = (if sint (tracking_threshold cfg) \<le> sint c' then getShape env tracker1' else []))"
proof -
  have l: "events_since w (w\<lparr>trace := trace w @ es\<rparr>) = es" for es
    by simp
  show ?thesis
    unfolding lists_decide_events [OF assms(1)] image_decide_events [OF assms(1)]
      video_decide_events [OF assms(2)]
    by (simp add: l word_sle_eq)
qed

theorem accept_iff_confidence_reaches_threshold_witness:
  "(case lists_decide (scripted_env []) sample_cfg (Some ()) gray_frame [5, 4] start of
      (s, tracker2, w') \<Rightarrow> list_ex getShape_event (events_since start w') \<and> s = five_points)
   \<and> (case image_decide (scripted_env []) sample_cfg (Some ()) gray_frame [4, 5] start of
      (s, tracker2, w') \<Rightarrow> \<not> list_ex getShape_event (events_since start w') \<and> s = [])
   \<and> (case video_decide (scripted_env []) sample_cfg (Some ()) gray_frame [5, 4] start of
      (s, tracker2, w') \<Rightarrow> list_ex getShape_event (events_since start w') \<and> s = five_points)"
proof -
  have a: "NewFrame (scripted_env []) [5, 4] gray_frame (Some ()) = (5, [4])"
    and b: "Track (scripted_env []) [5, 4] gray_frame (Some ()) = (5, [4])"
    and c: "NewFrame (scripted_env []) [4, 5] gray_frame (Some ()) = (4, [5])"
    and d: "Track (scripted_env []) [4, 5] gray_frame (Some ()) = (4, [5])"
    by (simp_all add: scripted_env_def scripted_next_def)
  have t: "tracking_threshold sample_cfg = 5" by (simp add: sample_cfg_def)
  have g: "getShape (scripted_env []) [4] = five_points" by (simp add: scripted_env_def)
  from accept_iff_confidence_reaches_threshold [OF a b, where cfg = sample_cfg and w = start]
    accept_iff_confidence_reaches_threshold [OF c d, where cfg = sample_cfg and w = start]
  show ?thesis by (simp add: t g split: prod.splits)
qed

subsection \<open>The router\<close>




subsection \<open>The lengths of the lists\<close>

text \<open>
  C4. In list mode, when the list of landmark pathnames is given and its length differs
  from the length of the list of images, the run throws before the loop: the trace holds
  the two loads of the tracker and the two reads of the lists and nothing else, so no
  image was loaded or tracked and no file was written.
\<close>

theorem length_mismatch_fails_before_any_frame:
  assumes "read_list env image_list = Some image_pathnames"
    and "read_list env landmark_list = Some landmark_pathnames"
    and "length landmark_pathnames \<noteq> length image_pathnames"
  shows "\<exists>what w'. run_lists_mode env cfg image_list (Some landmark_list) w = (Inl (runtime_error what), w')
           \<and> events_since w w' =
               [Ev_LoadFaceTracker (model_pathname cfg),
                Ev_LoadFaceTrackerParams (params_pathname cfg),
                Ev_read_list image_list, Ev_read_list landmark_list]
           \<and> \<not> list_ex load_event (events_since w w')
           \<and> \<not> list_ex process_event (events_since w w')
           \<and> saved_paths (events_since w w') = []"
  using assms
  by (simp add: run_lists_mode_def read_landmark_pathnames_def make_runtime_error_def Let_def
        events_since_def)

theorem length_mismatch_fails_before_any_frame_witness:
  "\<exists>what w'. run_lists_mode (scripted_env [7, 7, 7]) sample_cfg ''images.txt'' (Some ''two.txt'') start
                = (Inl (runtime_error what), w')
           \<and> events_since start w' =
               [Ev_LoadFaceTracker ''face.tracker'', Ev_LoadFaceTrackerParams ''face.params'',
                Ev_read_list ''images.txt'', Ev_read_list ''two.txt'']
           \<and> \<not> list_ex load_event (events_since start w')
           \<and> \<not> list_ex process_event (events_since start w')
           \<and> saved_paths (events_since start w') = []"
proof -
  have a: "read_list (scripted_env [7, 7, 7]) ''images.txt'' = Some [''a.png'', ''b.png'', ''c.png'']"
    and b: "read_list (scripted_env [7, 7, 7]) ''two.txt'' = Some [''a.pts'', ''b.pts'']"
    by (simp_all add: scripted_env_def)
  have c: "length [''a.pts'', ''b.pts''] \<noteq> length [''a.png'', ''b.png'', ''c.png'']"
    by simp
  from length_mismatch_fails_before_any_frame [OF a b c, where cfg = sample_cfg and w = start]
  show ?thesis by (simp add: sample_cfg_def)
qed

subsection \<open>Rejected frames\<close>

text \<open>
  C2, as amended. In list mode and in video mode every result below the threshold is
  followed at once by the call of \<open>Reset\<close>, on every run, so the next call of the
  tracker comes after the reset; the decision leaves the shape empty and hands on the
  tracker that \<open>Reset\<close> returned. In image mode the shape of a rejected frame is left
  empty too, and the tracker is not reset: the single frame is its last use.
\<close>

theorem rejected_frames_reset_tracker:
  assumes "NewFrame env tracker gray_image params = (c, tracker1)"
    and "Track env tracker gray_image params = (c', tracker1')"
  shows "reset_follows_reject (tracking_threshold cfg)
           (events_since w (snd (run_lists_mode env cfg image_list la w)))
       \<and> reset_follows_reject (tracking_threshold cfg)
           (events_since w (snd (run_video_mode env cfg video la w)))
       \<and> (sint c < sint (tracking_threshold cfg) \<longrightarrow>
            (case lists_decide env cfg params gray_image tracker w of
               (s, tracker2, w') \<Rightarrow>
                 s = [] \<and> tracker2 = Reset env tracker1
                 \<and> events_since w w' = [Ev_NewFrame gray_image c, Ev_Reset])
          \<and> (case image_decide env cfg params gray_image tracker w of
               (s, tracker2, w') \<Rightarrow>
                 s = [] \<and> tracker2 = tracker1 \<and> events_since w w' = [Ev_NewFrame gray_image c]))
       \<and> (sint c' < sint (tracking_threshold cfg) \<longrightarrow>
            (case video_decide env cfg params gray_image tracker w of
               (s, tracker2, w') \<Rightarrow>
                 s = [] \<and> tracker2 = Reset env tracker1'
                 \<and> events_since w w' = [Ev_Track gray_image c', Ev_Reset]))"
proof -
  obtain r1 w1 where l: "run_lists_mode env cfg image_list la w = (r1, w1)"
    by (cases "run_lists_mode env cfg image_list la w") auto
  obtain r2 w2 where v: "run_video_mode env cfg video la w = (r2, w2)"
    by (cases "run_video_mode env cfg video la w") auto
  from run_lists_mode_summary [OF l] l
  have a: "reset_follows_reject (tracking_threshold cfg)
           (events_since w (snd (run_lists_mode env cfg image_list la w)))"
    by (auto dest: decision_follows_reset)
  from run_video_mode_summary [OF v] v
  have b: "reset_follows_reject (tracking_threshold cfg)
           (events_since w (snd (run_video_mode env cfg video la w)))"
    by (auto dest: decision_follows_reset)
  have e: "events_since w (w\<lparr>trace := trace w @ es\<rparr>) = es" for es
    by simp
  show ?thesis
    unfolding lists_decide_events [OF assms(1)] image_decide_events [OF assms(1)]
      video_decide_events [OF assms(2)]
    using a b by (simp add: e word_sle_eq decide_events_def)
qed

theorem rejected_frames_reset_tracker_witness:
  "reset_follows_reject 5
     (events_since start
        (snd (run_lists_mode (scripted_env [7, 3, 7]) sample_cfg ''images.txt'' (Some ''three.txt'') start)))
   \<and> reset_follows_reject 5
     (events_since start
        (snd (run_video_mode (scripted_env [7, 3, 7]) sample_cfg ''face.avi'' (Some ''three.txt'') start)))
   \<and> (case lists_decide (scripted_env [7, 3, 7]) sample_cfg (Some ()) gray_frame [3, 7] start of
         (s, tracker2, w') \<Rightarrow>
           s = [] \<and> tracker2 = [7] \<and> events_since start w' = [Ev_NewFrame gray_frame 3, Ev_Reset])
   \<and> (case image_decide (scripted_env [7, 3, 7]) sample_cfg (Some ()) gray_frame [3, 7] start of
         (s, tracker2, w') \<Rightarrow>
           s = [] \<and> tracker2 = [7] \<and> events_since start w' = [Ev_NewFrame gray_frame 3])
   \<and> (case video_decide (scripted_env [7, 3, 7]) sample_cfg (Some ()) gray_frame [3, 7] start of
         (s, tracker2, w') \<Rightarrow>
           s = [] \<and> tracker2 = [7] \<and> events_since start w' = [Ev_Track gray_frame 3, Ev_Reset])
   \<and> list_ex Reset_event
     (events_since start
        (snd (run_lists_mode (scripted_env [7, 3, 7]) sample_cfg ''images.txt'' (Some ''three.txt'') start)))"
proof -
  have a: "NewFrame (scripted_env [7, 3, 7]) [3, 7] gray_frame (Some ()) = (3, [7])"
    and b: "Track (scripted_env [7, 3, 7]) [3, 7] gray_frame (Some ()) = (3, [7])"
    by (simp_all add: scripted_env_def scripted_next_def)
  have t: "tracking_threshold sample_cfg = 5" by (simp add: sample_cfg_def)
  have i: "Reset (scripted_env [7, 3, 7]) [7] = [7]" by (simp add: scripted_env_def)
  have r: "list_ex Reset_event
     (events_since start
        (snd (run_lists_mode (scripted_env [7, 3, 7]) sample_cfg ''images.txt'' (Some ''three.txt'') start)))"
    by (simp add: run_defs Let_def five_points_def)
  from rejected_frames_reset_tracker [OF a b, where cfg = sample_cfg and w = start
      and image_list = "''images.txt''" and la = "Some ''three.txt''" and video = "''face.avi''"] r
  show ?thesis by (simp add: t i)
qed

text \<open>C2 as stated fails in image mode: a frame with confidence 3 under threshold 5 is
  rejected, and the trace of the run holds no call of \<open>Reset\<close>.\<close>

theorem image_mode_does_not_reset:
  "fst (NewFrame (scripted_env [3]) [3] gray_frame (Some ())) <s tracking_threshold sample_cfg
   \<and> events_since start
        (snd (run_image_mode (scripted_env [3]) sample_cfg ''a.png'' (Some ''a.pts'') start))
      = [Ev_LoadFaceTracker ''face.tracker'', Ev_LoadFaceTrackerParams ''face.params'',
         Ev_load_grayscale_image ''a.png'', Ev_NewFrame gray_frame 3]
   \<and> \<not> list_ex Reset_event (events_since start
        (snd (run_image_mode (scripted_env [3]) sample_cfg ''a.png'' (Some ''a.pts'') start)))
   \<and> \<not> reset_follows_reject (tracking_threshold sample_cfg) (events_since start
        (snd (run_image_mode (scripted_env [3]) sample_cfg ''a.png'' (Some ''a.pts'') start)))"
  by (simp add: run_defs Let_def reset_follows_reject_def next_is_def)

subsection \<open>The cursor of the landmark pathnames\<close>

text \<open>
  C8. In list mode with a list of landmark pathnames, the pairs (image loaded, pathname
  written) of a run are a subsequence of the two lists zipped: a pathname is only ever
  written for the image at its own position, in the order of the lists, and a position
  is used at most once, whether or not the images before it were skipped.
\<close>

theorem landmark_cursor_in_lock_step:
  assumes "read_list env image_list = Some image_pathnames"
    and "read_list env landmark_list = Some landmark_pathnames"
  shows "subseq
           (save_pairs None
              (events_since w (snd (run_lists_mode env cfg image_list (Some landmark_list) w))))
           (zip image_pathnames landmark_pathnames)"
proof -
  obtain r w' where l: "run_lists_mode env cfg image_list (Some landmark_list) w = (r, w')"
    by (cases "run_lists_mode env cfg image_list (Some landmark_list) w") auto
  from run_lists_mode_summary [OF l] obtain es where
    "trace w' = trace w @ es"
    and "\<forall>imgs l its. read_list env image_list = Some imgs \<longrightarrow> Some landmark_list = Some l
                 \<longrightarrow> read_list env l = Some its
                 \<longrightarrow> subseq (save_pairs None es) (zip imgs its)"
    by blast
  with assms l show ?thesis by simp
qed

text \<open>Three images with confidences 7, 3 and 7 under threshold 5: the second image is
  skipped, and the third is written to the third pathname.\<close>

theorem landmark_cursor_in_lock_step_witness:
  "subseq
     (save_pairs None
        (events_since start
           (snd (run_lists_mode (scripted_env [7, 3, 7]) sample_cfg ''images.txt'' (Some ''three.txt'') start))))
     (zip [''a.png'', ''b.png'', ''c.png''] [''a.pts'', ''b.pts'', ''c.pts''])
   \<and> save_pairs None
        (events_since start
           (snd (run_lists_mode (scripted_env [7, 3, 7]) sample_cfg ''images.txt'' (Some ''three.txt'') start)))
      = [(''a.png'', ''a.pts''), (''c.png'', ''c.pts'')]"
proof -
  have a: "read_list (scripted_env [7, 3, 7]) ''images.txt'' = Some [''a.png'', ''b.png'', ''c.png'']"
    and b: "read_list (scripted_env [7, 3, 7]) ''three.txt'' = Some [''a.pts'', ''b.pts'', ''c.pts'']"
    by (simp_all add: scripted_env_def)
  have "save_pairs None
        (events_since start
           (snd (run_lists_mode (scripted_env [7, 3, 7]) sample_cfg ''images.txt'' (Some ''three.txt'') start)))
      = [(''a.png'', ''a.pts''), (''c.png'', ''c.pts'')]"
    by (simp add: run_defs Let_def five_points_def)
  with landmark_cursor_in_lock_step [OF a b, where cfg = sample_cfg and w = start]
  show ?thesis by blast
qed

subsection \<open>No input argument\<close>

text \<open>
  C9. When the command line has no positional argument (and the values of its options
  parse), the program prints the usage text and exits with code 0; the usage text is the
  only event of the run, so no tracker is loaded and no image, list or video is read.
  This comes before the check for \<open>--lists\<close> together with \<open>--video\<close>.
\<close>

theorem no_input_argument_prints_usage:
  assumes "parse_arguments env (drop 1 argv) (initial_arguments env) = Inr outcome"
    and "positional_arguments (drop 1 argv) = []"
  shows "main env argv w = (Some 0, emit Ev_print_usage w)
         \<and> events_since w (snd (main env argv w)) = [Ev_print_usage]"
proof (cases outcome)
  case Help
  with assms(1) show ?thesis by (simp add: main_def run_program_def)
next
  case (Parsed a)
  from parse_arguments_positional [OF assms(1) [unfolded Parsed] assms(2)]
  have "image_argument a = None" by (simp add: initial_arguments_def)
  with assms(1) Parsed show ?thesis by (simp add: main_def run_program_def)
qed

theorem no_input_argument_prints_usage_witness:
  "main (scripted_env [7]) [''face-fit'', ''--lists'', ''--video'', ''--threshold'', ''42'', ''--verbose''] start
     = (Some 0, emit Ev_print_usage start)
   \<and> events_since start
        (snd (main (scripted_env [7])
                [''face-fit'', ''--lists'', ''--video'', ''--threshold'', ''42'', ''--verbose''] start))
      = [Ev_print_usage]
   \<and> main (scripted_env [7]) [''face-fit''] start = (Some 0, emit Ev_print_usage start)"
proof -
  have a: "\<exists>outcome. parse_arguments (scripted_env [7])
             (drop 1 [''face-fit'', ''--lists'', ''--video'', ''--threshold'', ''42'', ''--verbose''])
             (initial_arguments (scripted_env [7])) = Inr outcome"
    by (simp add: get_argument_def scripted_env_def)
  have b: "positional_arguments
             (drop 1 [''face-fit'', ''--lists'', ''--video'', ''--threshold'', ''42'', ''--verbose'']) = []"
    by simp
  have c: "\<exists>outcome. parse_arguments (scripted_env [7]) (drop 1 [''face-fit''])
             (initial_arguments (scripted_env [7])) = Inr outcome"
    by simp
  have d: "positional_arguments (drop 1 [''face-fit'']) = []"
    by simp
  from a obtain o1 where "parse_arguments (scripted_env [7])
             (drop 1 [''face-fit'', ''--lists'', ''--video'', ''--threshold'', ''42'', ''--verbose''])
             (initial_arguments (scripted_env [7])) = Inr o1" ..
  from no_input_argument_prints_usage [OF this b, of start]
  have 1: "main (scripted_env [7]) [''face-fit'', ''--lists'', ''--video'', ''--threshold'', ''42'', ''--verbose''] start
     = (Some 0, emit Ev_print_usage start)
   \<and> events_since start
        (snd (main (scripted_env [7])
                [''face-fit'', ''--lists'', ''--video'', ''--threshold'', ''42'', ''--verbose''] start))
      = [Ev_print_usage]" .
  from c obtain o2 where "parse_arguments (scripted_env [7]) (drop 1 [''face-fit''])
             (initial_arguments (scripted_env [7])) = Inr o2" ..
  from no_input_argument_prints_usage [OF this d, of start]
  have "main (scripted_env [7]) [''face-fit''] start = (Some 0, emit Ev_print_usage start)"
    by blast
  with 1 show ?thesis by blast
qed


subsection \<open>The threshold\<close>

lemma decided_by_all_accepted:
  "decided_by t es \<Longrightarrow> all_results (\<lambda>c. t \<le>s c) es \<Longrightarrow> all_accepted es"
  unfolding decided_by_def all_results_def all_accepted_def
  by (induction es) (auto split: option.splits)

lemma decided_by_all_rejected:
  "decided_by t es \<Longrightarrow> all_results (\<lambda>c. c <s t) es \<Longrightarrow> all_rejected es"
  unfolding decided_by_def all_results_def all_rejected_def
  by (induction es) (auto split: option.splits)

lemma run_program_decided_by:
  assumes "\<forall>a. parse_arguments env (drop 1 argv) (initial_arguments env) = Inr (Parsed a)
             \<longrightarrow> tracking_threshold (config a) = t"
  shows "decided_by t (events_since w (snd (run_program env argv w)))"
proof (cases "parse_arguments env (drop 1 argv) (initial_arguments env)")
  case (Inl e)
  then show ?thesis by (simp add: run_program_cases events_since_def decided_by_def)
next
  case (Inr res)
  show ?thesis
  proof (cases res)
    case Help
    with Inr show ?thesis
      by (simp add: run_program_cases events_since_def emit_def decided_by_def)
  next
    case (Parsed a)
    obtain r w' where rp: "run_program env argv w = (r, w')"
      by (cases "run_program env argv w") auto
    from run_program_summary [OF rp] Inr Parsed obtain es where
      "trace w' = trace w @ es" "decided_by (tracking_threshold (config a)) es"
      by blast
    moreover from assms Inr Parsed have "tracking_threshold (config a) = t" by simp
    ultimately show ?thesis using rp by (simp add: events_since_def)
  qed
qed

text \<open>
  C10. \<open>run_program\<close> stores whatever integer the value of \<open>--threshold\<close> parses to,
  with no check of its range, and goes on with the rest of the command line. Take a
  command line \<open>pre @ --threshold # v # post\<close> where the arguments \<open>pre\<close> are taken
  without an error, \<open>v\<close> parses to the integer \<open>t\<close>, and \<open>post\<close> holds no further
  \<open>--threshold\<close>. Parsing it is parsing \<open>post\<close> with the threshold \<open>t\<close> in the
  configuration; the option is the last of the command line, parsing succeeds; and
  whenever parsing succeeds the threshold of the configuration is \<open>t\<close> itself.

  This \<open>t\<close> is what every decision of the run compares with: in the events of
  \<open>run_program\<close> on that command line a result \<open>c\<close> of the tracker is followed by
  \<open>getShape\<close> exactly when \<open>t \<le> c\<close>. So when \<open>t\<close> is at most every result of the run
  every frame is accepted, and when it is above every result every frame is rejected.

  The decision of each mode, with \<open>t\<close> in the configuration: the shape is that of the
  tracker when \<open>t \<le> c\<close> and empty otherwise, and the events are the call of the
  tracker followed by \<open>getShape\<close> when \<open>t \<le> c\<close>, and otherwise by \<open>Reset\<close> in lists
  and video mode and by nothing in image mode.
\<close>

theorem threshold_is_not_range_checked:
  assumes "parse_int env v = Some t"
    and "parse_arguments env pre (initial_arguments env) = Inr (Parsed a1)"
    and "''--threshold'' \<notin> set post"
  shows "parse_arguments env (pre @ ''--threshold'' # v # post) (initial_arguments env)
           = parse_arguments env post (a1\<lparr>config := (config a1)\<lparr>tracking_threshold := t\<rparr>\<rparr>)
       \<and> parse_arguments env (pre @ [''--threshold'', v]) (initial_arguments env)
           = Inr (Parsed (a1\<lparr>config := (config a1)\<lparr>tracking_threshold := t\<rparr>\<rparr>))
       \<and> parsed_threshold
            (parse_arguments env (pre @ [''--threshold'', v]) (initial_arguments env)) = Some t
       \<and> (parsed_threshold
            (parse_arguments env (pre @ ''--threshold'' # v # post) (initial_arguments env))
              = Some t
          \<or> parsed_threshold
            (parse_arguments env (pre @ ''--threshold'' # v # post) (initial_arguments env))
              = None)
       \<and> decided_by t
            (events_since w (snd (run_program env (prog # pre @ ''--threshold'' # v # post) w)))
       \<and> (all_results (\<lambda>c. t \<le>s c)
              (events_since w (snd (run_program env (prog # pre @ ''--threshold'' # v # post) w)))
            \<longrightarrow> all_accepted
                  (events_since w
                     (snd (run_program env (prog # pre @ ''--threshold'' # v # post) w))))
       \<and> (all_results (\<lambda>c. c <s t)
              (events_since w (snd (run_program env (prog # pre @ ''--threshold'' # v # post) w)))
            \<longrightarrow> all_rejected
                  (events_since w
                     (snd (run_program env (prog # pre @ ''--threshold'' # v # post) w))))
       \<and> fst (lists_decide env (cfg\<lparr>tracking_threshold := t\<rparr>) p gray tr w0)
           = (if t \<le>s fst (NewFrame env tr gray p)
              then getShape env (snd (NewFrame env tr gray p)) else [])
       \<and> events_since w0 (snd (snd (lists_decide env (cfg\<lparr>tracking_threshold := t\<rparr>) p gray tr w0)))
           = [Ev_NewFrame gray (fst (NewFrame env tr gray p)),
              if t \<le>s fst (NewFrame env tr gray p) then Ev_getShape else Ev_Reset]
       \<and> fst (video_decide env (cfg\<lparr>tracking_threshold := t\<rparr>) p gray tr w0)
           = (if t \<le>s fst (Track env tr gray p)
              then getShape env (snd (Track env tr gray p)) else [])
       \<and> events_since w0 (snd (snd (video_decide env (cfg\<lparr>tracking_threshold := t\<rparr>) p gray tr w0)))
           = [Ev_Track gray (fst (Track env tr gray p)),
              if t \<le>s fst (Track env tr gray p) then Ev_getShape else Ev_Reset]
       \<and> fst (image_decide env (cfg\<lparr>tracking_threshold := t\<rparr>) p gray tr w0)
           = (if t \<le>s fst (NewFrame env tr gray p)
              then getShape env (snd (NewFrame env tr gray p)) else [])
       \<and> events_since w0 (snd (snd (image_decide env (cfg\<lparr>tracking_threshold := t\<rparr>) p gray tr w0)))
           = Ev_NewFrame gray (fst (NewFrame env tr gray p))
             # (if t \<le>s fst (NewFrame env tr gray p) then [Ev_getShape] else [])"
proof -
  let ?a = "a1\<lparr>config := (config a1)\<lparr>tracking_threshold := t\<rparr>\<rparr>"
  let ?args = "pre @ ''--threshold'' # v # post"
  let ?es = "events_since w (snd (run_program env (prog # ?args) w))"
  have step: "parse_arguments env (''--threshold'' # v # later) a1 = parse_arguments env later ?a"
    for later
    using assms(1) by (simp add: get_argument_def)
  have p: "parse_arguments env (pre @ ''--threshold'' # v # later) (initial_arguments env)
             = parse_arguments env later ?a" for later
    using parse_arguments_append [OF assms(2), of "''--threshold'' # v # later"] step by simp
  have p1: "parse_arguments env ?args (initial_arguments env) = parse_arguments env post ?a"
    by (rule p)
  have p2: "parse_arguments env (pre @ [''--threshold'', v]) (initial_arguments env)
              = Inr (Parsed ?a)"
    using p [of "[]"] by simp
  have p3: "parsed_threshold
              (parse_arguments env (pre @ [''--threshold'', v]) (initial_arguments env)) = Some t"
    unfolding p2 by (simp add: parsed_threshold_def)
  have k: "tracking_threshold (config a') = t"
    if "parse_arguments env ?args (initial_arguments env) = Inr (Parsed a')" for a'
    using parse_arguments_keeps_threshold [OF that [unfolded p1] assms(3)] by simp
  have p4: "parsed_threshold (parse_arguments env ?args (initial_arguments env)) = Some t
          \<or> parsed_threshold (parse_arguments env ?args (initial_arguments env)) = None"
    using k by (auto simp: parsed_threshold_def split: sum.splits parse_result.splits)
  have d: "decided_by t ?es"
    by (rule run_program_decided_by) (simp add: k)
  have acc: "all_results (\<lambda>c. t \<le>s c) ?es \<longrightarrow> all_accepted ?es"
    using decided_by_all_accepted [OF d] by blast
  have rej: "all_results (\<lambda>c. c <s t) ?es \<longrightarrow> all_rejected ?es"
    using decided_by_all_rejected [OF d] by blast
  have l1: "fst (lists_decide env (cfg\<lparr>tracking_threshold := t\<rparr>) p gray tr w0)
           = (if t \<le>s fst (NewFrame env tr gray p)
              then getShape env (snd (NewFrame env tr gray p)) else [])"
    and l2: "events_since w0 (snd (snd (lists_decide env (cfg\<lparr>tracking_threshold := t\<rparr>) p gray tr w0)))
           = [Ev_NewFrame gray (fst (NewFrame env tr gray p)),
              if t \<le>s fst (NewFrame env tr gray p) then Ev_getShape else Ev_Reset]"
    by (simp_all add: lists_decide_def Let_def emit_def events_since_def split: prod.splits)
  have v1: "fst (video_decide env (cfg\<lparr>tracking_threshold := t\<rparr>) p gray tr w0)
           = (if t \<le>s fst (Track env tr gray p)
              then getShape env (snd (Track env tr gray p)) else [])"
    and v2: "events_since w0 (snd (snd (video_decide env (cfg\<lparr>tracking_threshold := t\<rparr>) p gray tr w0)))
           = [Ev_Track gray (fst (Track env tr gray p)),
              if t \<le>s fst (Track env tr gray p) then Ev_getShape else Ev_Reset]"
    by (simp_all add: video_decide_def Let_def emit_def events_since_def split: prod.splits)
  have i1: "fst (image_decide env (cfg\<lparr>tracking_threshold := t\<rparr>) p gray tr w0)
           = (if t \<le>s fst (NewFrame env tr gray p)
              then getShape env (snd (NewFrame env tr gray p)) else [])"
    and i2: "events_since w0 (snd (snd (image_decide env (cfg\<lparr>tracking_threshold := t\<rparr>) p gray tr w0)))
           = Ev_NewFrame gray (fst (NewFrame env tr gray p))
             # (if t \<le>s fst (NewFrame env tr gray p) then [Ev_getShape] else [])"
    by (simp_all add: image_decide_def Let_def emit_def events_since_def split: prod.splits)
  from p1 p2 p3 p4 d acc rej l1 l2 v1 v2 i1 i2 show ?thesis
    by (intro conjI)
qed

text \<open>Thresholds \<open>-3\<close> and 42, outside the range 0 to 10 of the tracker, in lists mode,
  video mode and image mode, with a tracker that returns \<open>-2\<close>, 20 and 7: the command
  line parses, the threshold is the number given, every frame is accepted under the
  first and rejected under the second.\<close>

theorem threshold_is_not_range_checked_witness:
  "parsed_threshold
       (parse_arguments (scripted_env [- 2, 20, 7]) [''--lists'', ''--threshold'', ''-3'']
          (initial_arguments (scripted_env [- 2, 20, 7]))) = Some (- 3)
   \<and> parsed_threshold
       (parse_arguments (scripted_env [- 2, 20, 7]) [''--lists'', ''--threshold'', ''-3'', ''images.txt'']
          (initial_arguments (scripted_env [- 2, 20, 7]))) = Some (- 3)
   \<and> process_results
       (events_since start
          (snd (run_program (scripted_env [- 2, 20, 7])
                 [''face-fit'', ''--lists'', ''--threshold'', ''-3'', ''images.txt''] start))) = [- 2, 20, 7]
   \<and> all_accepted
       (events_since start
          (snd (run_program (scripted_env [- 2, 20, 7])
                 [''face-fit'', ''--lists'', ''--threshold'', ''-3'', ''images.txt''] start)))
   \<and> length (filter getShape_event
       (events_since start
          (snd (run_program (scripted_env [- 2, 20, 7])
                 [''face-fit'', ''--lists'', ''--threshold'', ''-3'', ''images.txt''] start)))) = 3
   \<and> parsed_threshold
       (parse_arguments (scripted_env [- 2, 20, 7]) [''--lists'', ''--threshold'', ''42'']
          (initial_arguments (scripted_env [- 2, 20, 7]))) = Some (42)
   \<and> parsed_threshold
       (parse_arguments (scripted_env [- 2, 20, 7]) [''--lists'', ''--threshold'', ''42'', ''images.txt'']
          (initial_arguments (scripted_env [- 2, 20, 7]))) = Some (42)
   \<and> process_results
       (events_since start
          (snd (run_program (scripted_env [- 2, 20, 7])
                 [''face-fit'', ''--lists'', ''--threshold'', ''42'', ''images.txt''] start))) = [- 2, 20, 7]
   \<and> all_rejected
       (events_since start
          (snd (run_program (scripted_env [- 2, 20, 7])
                 [''face-fit'', ''--lists'', ''--threshold'', ''42'', ''images.txt''] start)))
   \<and> \<not> list_ex getShape_event
       (events_since start
          (snd (run_program (scripted_env [- 2, 20, 7])
                 [''face-fit'', ''--lists'', ''--threshold'', ''42'', ''images.txt''] start)))
   \<and> parsed_threshold
       (parse_arguments (scripted_env [- 2, 20, 7]) [''--video'', ''--threshold'', ''-3'']
          (initial_arguments (scripted_env [- 2, 20, 7]))) = Some (- 3)
   \<and> parsed_threshold
       (parse_arguments (scripted_env [- 2, 20, 7]) [''--video'', ''--threshold'', ''-3'', ''face.avi'']
          (initial_arguments (scripted_env [- 2, 20, 7]))) = Some (- 3)
   \<and> process_results
       (events_since start
          (snd (run_program (scripted_env [- 2, 20, 7])
                 [''face-fit'', ''--video'', ''--threshold'', ''-3'', ''face.avi''] start))) = [- 2, 20, 7]
   \<and> all_accepted
       (events_since start
          (snd (run_program (scripted_env [- 2, 20, 7])
                 [''face-fit'', ''--video'', ''--threshold'', ''-3'', ''face.avi''] start)))
   \<and> length (filter getShape_event
       (events_since start
          (snd (run_program (scripted_env [- 2, 20, 7])
                 [''face-fit'', ''--video'', ''--threshold'', ''-3'', ''face.avi''] start)))) = 3
   \<and> parsed_threshold
       (parse_arguments (scripted_env [- 2, 20, 7]) [''--video'', ''--threshold'', ''42'']
          (initial_arguments (scripted_env [- 2, 20, 7]))) = Some (42)
   \<and> parsed_threshold
       (parse_arguments (scripted_env [- 2, 20, 7]) [''--video'', ''--threshold'', ''42'', ''face.avi'']
          (initial_arguments (scripted_env [- 2, 20, 7]))) = Some (42)
   \<and> process_results
       (events_since start
          (snd (run_program (scripted_env [- 2, 20, 7])
                 [''face-fit'', ''--video'', ''--threshold'', ''42'', ''face.avi''] start))) = [- 2, 20, 7]
   \<and> all_rejected
       (events_since start
          (snd (run_program (scripted_env [- 2, 20, 7])
                 [''face-fit'', ''--video'', ''--threshold'', ''42'', ''face.avi''] start)))
   \<and> \<not> list_ex getShape_event
       (events_since start
          (snd (run_program (scripted_env [- 2, 20, 7])
                 [''face-fit'', ''--video'', ''--threshold'', ''42'', ''face.avi''] start)))
   \<and> parsed_threshold
       (parse_arguments (scripted_env [- 2]) [''--threshold'', ''-3'']
          (initial_arguments (scripted_env [- 2]))) = Some (- 3)
   \<and> parsed_threshold
       (parse_arguments (scripted_env [- 2]) [''--threshold'', ''-3'', ''a.png'', ''a.pts'']
          (initial_arguments (scripted_env [- 2]))) = Some (- 3)
   \<and> process_results
       (events_since start
          (snd (run_program (scripted_env [- 2])
                 [''face-fit'', ''--threshold'', ''-3'', ''a.png'', ''a.pts''] start))) = [- 2]
   \<and> all_accepted
       (events_since start
          (snd (run_program (scripted_env [- 2])
                 [''face-fit'', ''--threshold'', ''-3'', ''a.png'', ''a.pts''] start)))
   \<and> length (filter getShape_event
       (events_since start
          (snd (run_program (scripted_env [- 2])
                 [''face-fit'', ''--threshold'', ''-3'', ''a.png'', ''a.pts''] start)))) = 1
   \<and> parsed_threshold
       (parse_arguments (scripted_env [20]) [''--threshold'', ''42'']
          (initial_arguments (scripted_env [20]))) = Some (42)
   \<and> parsed_threshold
       (parse_arguments (scripted_env [20]) [''--threshold'', ''42'', ''a.png'', ''a.pts'']
          (initial_arguments (scripted_env [20]))) = Some (42)
   \<and> process_results
       (events_since start
          (snd (run_program (scripted_env [20])
                 [''face-fit'', ''--threshold'', ''42'', ''a.png'', ''a.pts''] start))) = [20]
   \<and> all_rejected
       (events_since start
          (snd (run_program (scripted_env [20])
                 [''face-fit'', ''--threshold'', ''42'', ''a.png'', ''a.pts''] start)))
   \<and> \<not> list_ex getShape_event
       (events_since start
          (snd (run_program (scripted_env [20])
                 [''face-fit'', ''--threshold'', ''42'', ''a.png'', ''a.pts''] start)))"
proof -
  have pi_ll: "parse_int (scripted_env [- 2, 20, 7]) ''-3'' = Some (- 3)"
    by (simp add: scripted_env_def)
  have "\<exists>a. parse_arguments (scripted_env [- 2, 20, 7]) [''--lists'']
              (initial_arguments (scripted_env [- 2, 20, 7])) = Inr (Parsed a)"
    by (simp add: run_defs)
  then obtain a_ll where pa_ll: "parse_arguments (scripted_env [- 2, 20, 7]) [''--lists'']
              (initial_arguments (scripted_env [- 2, 20, 7])) = Inr (Parsed a_ll)" ..
  have np_ll: "''--threshold'' \<notin> set [''images.txt'']"
    by simp
  note t_ll = threshold_is_not_range_checked [OF pi_ll pa_ll np_ll]
  have s_ll: "parsed_threshold
           (parse_arguments (scripted_env [- 2, 20, 7]) [''--lists'', ''--threshold'', ''-3'']
              (initial_arguments (scripted_env [- 2, 20, 7]))) = Some (- 3)"
    using t_ll [THEN conjunct2, THEN conjunct2, THEN conjunct1] by simp
  have f_ll: "parsed_threshold
           (parse_arguments (scripted_env [- 2, 20, 7]) [''--lists'', ''--threshold'', ''-3'', ''images.txt'']
              (initial_arguments (scripted_env [- 2, 20, 7]))) = Some (- 3)"
    by (simp add: run_defs parsed_threshold_def)
  have r_ll: "all_results (\<lambda>c. - 3 \<le>s c)
       (events_since start
          (snd (run_program (scripted_env [- 2, 20, 7])
                 [''face-fit'', ''--lists'', ''--threshold'', ''-3'', ''images.txt''] start)))"
    by (simp add: run_defs format_defs video_loop.simps Let_def five_points_def
          all_results_def process_results_def List.map_filter_simps
          not_escape_minus_one [unfolded escape_key_def])
  have x_ll: "all_accepted
           (events_since start
              (snd (run_program (scripted_env [- 2, 20, 7])
                     [''face-fit'', ''--lists'', ''--threshold'', ''-3'', ''images.txt''] start)))"
    using t_ll [where w = start and prog = "''face-fit''", THEN conjunct2, THEN conjunct2, THEN conjunct2, THEN conjunct2, THEN conjunct2,
        THEN conjunct1, THEN mp] r_ll
    by simp
  have y_ll: "process_results
           (events_since start
              (snd (run_program (scripted_env [- 2, 20, 7])
                     [''face-fit'', ''--lists'', ''--threshold'', ''-3'', ''images.txt''] start))) = [- 2, 20, 7]"
    by (simp add: run_defs format_defs video_loop.simps Let_def five_points_def
          all_results_def process_results_def List.map_filter_simps
          not_escape_minus_one [unfolded escape_key_def])
  have z_ll: "length (filter getShape_event
           (events_since start
              (snd (run_program (scripted_env [- 2, 20, 7])
                     [''face-fit'', ''--lists'', ''--threshold'', ''-3'', ''images.txt''] start)))) = 3"
    by (simp add: run_defs format_defs video_loop.simps Let_def five_points_def
          all_results_def process_results_def List.map_filter_simps
          not_escape_minus_one [unfolded escape_key_def])
  have pi_lh: "parse_int (scripted_env [- 2, 20, 7]) ''42'' = Some (42)"
    by (simp add: scripted_env_def)
  have "\<exists>a. parse_arguments (scripted_env [- 2, 20, 7]) [''--lists'']
              (initial_arguments (scripted_env [- 2, 20, 7])) = Inr (Parsed a)"
    by (simp add: run_defs)
  then obtain a_lh where pa_lh: "parse_arguments (scripted_env [- 2, 20, 7]) [''--lists'']
              (initial_arguments (scripted_env [- 2, 20, 7])) = Inr (Parsed a_lh)" ..
  have np_lh: "''--threshold'' \<notin> set [''images.txt'']"
    by simp
  note t_lh = threshold_is_not_range_checked [OF pi_lh pa_lh np_lh]
  have s_lh: "parsed_threshold
           (parse_arguments (scripted_env [- 2, 20, 7]) [''--lists'', ''--threshold'', ''42'']
              (initial_arguments (scripted_env [- 2, 20, 7]))) = Some (42)"
    using t_lh [THEN conjunct2, THEN conjunct2, THEN conjunct1] by simp
  have f_lh: "parsed_threshold
           (parse_arguments (scripted_env [- 2, 20, 7]) [''--lists'', ''--threshold'', ''42'', ''images.txt'']
              (initial_arguments (scripted_env [- 2, 20, 7]))) = Some (42)"
    by (simp add: run_defs parsed_threshold_def)
  have r_lh: "all_results (\<lambda>c. c <s 42)
       (events_since start
          (snd (run_program (scripted_env [- 2, 20, 7])
                 [''face-fit'', ''--lists'', ''--threshold'', ''42'', ''images.txt''] start)))"
    by (simp add: run_defs format_defs video_loop.simps Let_def five_points_def
          all_results_def process_results_def List.map_filter_simps
          not_escape_minus_one [unfolded escape_key_def])
  have x_lh: "all_rejected
           (events_since start
              (snd (run_program (scripted_env [- 2, 20, 7])
                     [''face-fit'', ''--lists'', ''--threshold'', ''42'', ''images.txt''] start)))"
    using t_lh [where w = start and prog = "''face-fit''", THEN conjunct2, THEN conjunct2, THEN conjunct2, THEN conjunct2, THEN conjunct2,
        THEN conjunct2, THEN conjunct1, THEN mp] r_lh
    by simp
  have y_lh: "process_results
           (events_since start
              (snd (run_program (scripted_env [- 2, 20, 7])
                     [''face-fit'', ''--lists'', ''--threshold'', ''42'', ''images.txt''] start))) = [- 2, 20, 7]"
    by (simp add: run_defs format_defs video_loop.simps Let_def five_points_def
          all_results_def process_results_def List.map_filter_simps
          not_escape_minus_one [unfolded escape_key_def])
  have z_lh: "\<not> list_ex getShape_event
           (events_since start
              (snd (run_program (scripted_env [- 2, 20, 7])
                     [''face-fit'', ''--lists'', ''--threshold'', ''42'', ''images.txt''] start)))"
    by (simp add: run_defs format_defs video_loop.simps Let_def five_points_def
          all_results_def process_results_def List.map_filter_simps
          not_escape_minus_one [unfolded escape_key_def])
  have pi_vl: "parse_int (scripted_env [- 2, 20, 7]) ''-3'' = Some (- 3)"
    by (simp add: scripted_env_def)
  have "\<exists>a. parse_arguments (scripted_env [- 2, 20, 7]) [''--video'']
              (initial_arguments (scripted_env [- 2, 20, 7])) = Inr (Parsed a)"
    by (simp add: run_defs)
  then obtain a_vl where pa_vl: "parse_arguments (scripted_env [- 2, 20, 7]) [''--video'']
              (initial_arguments (scripted_env [- 2, 20, 7])) = Inr (Parsed a_vl)" ..
  have np_vl: "''--threshold'' \<notin> set [''face.avi'']"
    by simp
  note t_vl = threshold_is_not_range_checked [OF pi_vl pa_vl np_vl]
  have s_vl: "parsed_threshold
           (parse_arguments (scripted_env [- 2, 20, 7]) [''--video'', ''--threshold'', ''-3'']
              (initial_arguments (scripted_env [- 2, 20, 7]))) = Some (- 3)"
    using t_vl [THEN conjunct2, THEN conjunct2, THEN conjunct1] by simp
  have f_vl: "parsed_threshold
           (parse_arguments (scripted_env [- 2, 20, 7]) [''--video'', ''--threshold'', ''-3'', ''face.avi'']
              (initial_arguments (scripted_env [- 2, 20, 7]))) = Some (- 3)"
    by (simp add: run_defs parsed_threshold_def)
  have r_vl: "all_results (\<lambda>c. - 3 \<le>s c)
       (events_since start
          (snd (run_program (scripted_env [- 2, 20, 7])
                 [''face-fit'', ''--video'', ''--threshold'', ''-3'', ''face.avi''] start)))"
    by (simp add: run_defs format_defs video_loop.simps Let_def five_points_def
          all_results_def process_results_def List.map_filter_simps
          not_escape_minus_one [unfolded escape_key_def])
  have x_vl: "all_accepted
           (events_since start
              (snd (run_program (scripted_env [- 2, 20, 7])
                     [''face-fit'', ''--video'', ''--threshold'', ''-3'', ''face.avi''] start)))"
    using t_vl [where w = start and prog = "''face-fit''", THEN conjunct2, THEN conjunct2, THEN conjunct2, THEN conjunct2, THEN conjunct2,
        THEN conjunct1, THEN mp] r_vl
    by simp
  have y_vl: "process_results
           (events_since start
              (snd (run_program (scripted_env [- 2, 20, 7])
                     [''face-fit'', ''--video'', ''--threshold'', ''-3'', ''face.avi''] start))) = [- 2, 20, 7]"
    by (simp add: run_defs format_defs video_loop.simps Let_def five_points_def
          all_results_def process_results_def List.map_filter_simps
          not_escape_minus_one [unfolded escape_key_def])
  have z_vl: "length (filter getShape_event
           (events_since start
              (snd (run_program (scripted_env [- 2, 20, 7])
                     [''face-fit'', ''--video'', ''--threshold'', ''-3'', ''face.avi''] start)))) = 3"
    by (simp add: run_defs format_defs video_loop.simps Let_def five_points_def
          all_results_def process_results_def List.map_filter_simps
          not_escape_minus_one [unfolded escape_key_def])
  have pi_vh: "parse_int (scripted_env [- 2, 20, 7]) ''42'' = Some (42)"
    by (simp add: scripted_env_def)
  have "\<exists>a. parse_arguments (scripted_env [- 2, 20, 7]) [''--video'']
              (initial_arguments (scripted_env [- 2, 20, 7])) = Inr (Parsed a)"
    by (simp add: run_defs)
  then obtain a_vh where pa_vh: "parse_arguments (scripted_env [- 2, 20, 7]) [''--video'']
              (initial_arguments (scripted_env [- 2, 20, 7])) = Inr (Parsed a_vh)" ..
  have np_vh: "''--threshold'' \<notin> set [''face.avi'']"
    by simp
  note t_vh = threshold_is_not_range_checked [OF pi_vh pa_vh np_vh]
  have s_vh: "parsed_threshold
           (parse_arguments (scripted_env [- 2, 20, 7]) [''--video'', ''--threshold'', ''42'']
              (initial_arguments (scripted_env [- 2, 20, 7]))) = Some (42)"
    using t_vh [THEN conjunct2, THEN conjunct2, THEN conjunct1] by simp
  have f_vh: "parsed_threshold
           (parse_arguments (scripted_env [- 2, 20, 7]) [''--video'', ''--threshold'', ''42'', ''face.avi'']
              (initial_arguments (scripted_env [- 2, 20, 7]))) = Some (42)"
    by (simp add: run_defs parsed_threshold_def)
  have r_vh: "all_results (\<lambda>c. c <s 42)
       (events_since start
          (snd (run_program (scripted_env [- 2, 20, 7])
                 [''face-fit'', ''--video'', ''--threshold'', ''42'', ''face.avi''] start)))"
    by (simp add: run_defs format_defs video_loop.simps Let_def five_points_def
          all_results_def process_results_def List.map_filter_simps
          not_escape_minus_one [unfolded escape_key_def])
  have x_vh: "all_rejected
           (events_since start
              (snd (run_program (scripted_env [- 2, 20, 7])
                     [''face-fit'', ''--video'', ''--threshold'', ''42'', ''face.avi''] start)))"
    using t_vh [where w = start and prog = "''face-fit''", THEN conjunct2, THEN conjunct2, THEN conjunct2, THEN conjunct2, THEN conjunct2,
        THEN conjunct2, THEN conjunct1, THEN mp] r_vh
    by simp
  have y_vh: "process_results
           (events_since start
              (snd (run_program (scripted_env [- 2, 20, 7])
                     [''face-fit'', ''--video'', ''--threshold'', ''42'', ''face.avi''] start))) = [- 2, 20, 7]"
    by (simp add: run_defs format_defs video_loop.simps Let_def five_points_def
          all_results_def process_results_def List.map_filter_simps
          not_escape_minus_one [unfolded escape_key_def])
  have z_vh: "\<not> list_ex getShape_event
           (events_since start
              (snd (run_program (scripted_env [- 2, 20, 7])
                     [''face-fit'', ''--video'', ''--threshold'', ''42'', ''face.avi''] start)))"
    by (simp add: run_defs format_defs video_loop.simps Let_def five_points_def
          all_results_def process_results_def List.map_filter_simps
          not_escape_minus_one [unfolded escape_key_def])
  have pi_il: "parse_int (scripted_env [- 2]) ''-3'' = Some (- 3)"
    by (simp add: scripted_env_def)
  have pa_il: "parse_arguments (scripted_env [- 2]) []
              (initial_arguments (scripted_env [- 2])) = Inr (Parsed (initial_arguments (scripted_env [- 2])))"
    by simp
  have np_il: "''--threshold'' \<notin> set [''a.png'', ''a.pts'']"
    by simp
  note t_il = threshold_is_not_range_checked [OF pi_il pa_il np_il]
  have s_il: "parsed_threshold
           (parse_arguments (scripted_env [- 2]) [''--threshold'', ''-3'']
              (initial_arguments (scripted_env [- 2]))) = Some (- 3)"
    using t_il [THEN conjunct2, THEN conjunct2, THEN conjunct1] by simp
  have f_il: "parsed_threshold
           (parse_arguments (scripted_env [- 2]) [''--threshold'', ''-3'', ''a.png'', ''a.pts'']
              (initial_arguments (scripted_env [- 2]))) = Some (- 3)"
    by (simp add: run_defs parsed_threshold_def)
  have r_il: "all_results (\<lambda>c. - 3 \<le>s c)
       (events_since start
          (snd (run_program (scripted_env [- 2])
                 [''face-fit'', ''--threshold'', ''-3'', ''a.png'', ''a.pts''] start)))"
    by (simp add: run_defs format_defs video_loop.simps Let_def five_points_def
          all_results_def process_results_def List.map_filter_simps
          not_escape_minus_one [unfolded escape_key_def])
  have x_il: "all_accepted
           (events_since start
              (snd (run_program (scripted_env [- 2])
                     [''face-fit'', ''--threshold'', ''-3'', ''a.png'', ''a.pts''] start)))"
    using t_il [where w = start and prog = "''face-fit''", THEN conjunct2, THEN conjunct2, THEN conjunct2, THEN conjunct2, THEN conjunct2,
        THEN conjunct1, THEN mp] r_il
    by simp
  have y_il: "process_results
           (events_since start
              (snd (run_program (scripted_env [- 2])
                     [''face-fit'', ''--threshold'', ''-3'', ''a.png'', ''a.pts''] start))) = [- 2]"
    by (simp add: run_defs format_defs video_loop.simps Let_def five_points_def
          all_results_def process_results_def List.map_filter_simps
          not_escape_minus_one [unfolded escape_key_def])
  have z_il: "length (filter getShape_event
           (events_since start
              (snd (run_program (scripted_env [- 2])
                     [''face-fit'', ''--threshold'', ''-3'', ''a.png'', ''a.pts''] start)))) = 1"
    by (simp add: run_defs format_defs video_loop.simps Let_def five_points_def
          all_results_def process_results_def List.map_filter_simps
          not_escape_minus_one [unfolded escape_key_def])
  have pi_ih: "parse_int (scripted_env [20]) ''42'' = Some (42)"
    by (simp add: scripted_env_def)
  have pa_ih: "parse_arguments (scripted_env [20]) []
              (initial_arguments (scripted_env [20])) = Inr (Parsed (initial_arguments (scripted_env [20])))"
    by simp
  have np_ih: "''--threshold'' \<notin> set [''a.png'', ''a.pts'']"
    by simp
  note t_ih = threshold_is_not_range_checked [OF pi_ih pa_ih np_ih]
  have s_ih: "parsed_threshold
           (parse_arguments (scripted_env [20]) [''--threshold'', ''42'']
              (initial_arguments (scripted_env [20]))) = Some (42)"
    using t_ih [THEN conjunct2, THEN conjunct2, THEN conjunct1] by simp
  have f_ih: "parsed_threshold
           (parse_arguments (scripted_env [20]) [''--threshold'', ''42'', ''a.png'', ''a.pts'']
              (initial_arguments (scripted_env [20]))) = Some (42)"
    by (simp add: run_defs parsed_threshold_def)
  have r_ih: "all_results (\<lambda>c. c <s 42)
       (events_since start
          (snd (run_program (scripted_env [20])
                 [''face-fit'', ''--threshold'', ''42'', ''a.png'', ''a.pts''] start)))"
    by (simp add: run_defs format_defs video_loop.simps Let_def five_points_def
          all_results_def process_results_def List.map_filter_simps
          not_escape_minus_one [unfolded escape_key_def])
  have x_ih: "all_rejected
           (events_since start
              (snd (run_program (scripted_env [20])
                     [''face-fit'', ''--threshold'', ''42'', ''a.png'', ''a.pts''] start)))"
    using t_ih [where w = start and prog = "''face-fit''", THEN conjunct2, THEN conjunct2, THEN conjunct2, THEN conjunct2, THEN conjunct2,
        THEN conjunct2, THEN conjunct1, THEN mp] r_ih
    by simp
  have y_ih: "process_results
           (events_since start
              (snd (run_program (scripted_env [20])
                     [''face-fit'', ''--threshold'', ''42'', ''a.png'', ''a.pts''] start))) = [20]"
    by (simp add: run_defs format_defs video_loop.simps Let_def five_points_def
          all_results_def process_results_def List.map_filter_simps
          not_escape_minus_one [unfolded escape_key_def])
  have z_ih: "\<not> list_ex getShape_event
           (events_since start
              (snd (run_program (scripted_env [20])
                     [''face-fit'', ''--threshold'', ''42'', ''a.png'', ''a.pts''] start)))"
    by (simp add: run_defs format_defs video_loop.simps Let_def five_points_def
          all_results_def process_results_def List.map_filter_simps
          not_escape_minus_one [unfolded escape_key_def])
  from s_ll f_ll y_ll x_ll z_ll s_lh f_lh y_lh x_lh z_lh s_vl f_vl y_vl x_vl z_vl s_vh f_vh y_vh x_vh z_vh s_il f_il y_il x_il z_il s_ih f_ih y_ih x_ih z_ih
  show ?thesis by (intro conjI)
qed
subsection \<open>The frames of a video\<close>

lemma tracked_images_simps [simp]:
  "tracked_images [] = []"
  "tracked_images (e # es) =
     (case tracked_image e of None \<Rightarrow> tracked_images es | Some g \<Rightarrow> g # tracked_images es)"
  "tracked_images (xs @ ys) = tracked_images xs @ tracked_images ys"
  by (simp_all add: tracked_images_def List.map_filter_def split: option.splits)

lemma tracked_images_facts [simp]:
  "tracked_images (display_events cfg img s key) = []"
  "tracked_images (route_events save disp cfg img s key) = []"
  "tracked_images (decide_events e a r) = tracked_images [e]"
  by (auto simp: display_events_def route_events_def decide_events_def split: option.splits)

lemma video_frame_tracks:
  assumes "video_frame env cfg p la img n tr w = (r, tr', w')"
    and "video_gray_image env img = Inr gray"
  shows "\<exists>es. trace w' = trace w @ es \<and> tracked_images es = [gray]
           \<and> shown_images es = (if la = None \<or> verbose cfg then [img] else [])"
proof -
  obtain c tr1 where nf: "Track env tr gray p = (c, tr1)"
    by (cases "Track env tr gray p") auto
  define s where "s = (if tracking_threshold cfg \<le>s c then getShape env tr1 else [])"
  from video_frame_events [OF assms nf s_def] obtain key where
    "trace w' = trace w @ (if verbose cfg then [Ev_printf_Frame_number n] else [])
                    @ decide_events (Ev_Track gray c) (tracking_threshold cfg \<le>s c) True
                    @ route_events
                        (if la \<noteq> None \<and> s \<noteq> [] then Some (resolve_pathname env (the la) n)
                         else None)
                        (la = None \<or> verbose cfg) cfg img s key"
    by blast
  then show ?thesis by simp
qed

lemma video_frame_Inr:
  assumes "video_frame env cfg p la img n tr w = (Inr u, tr', w')"
  shows "\<exists>gray. video_gray_image env img = Inr gray"
proof (cases "video_gray_image env img")
  case (Inl e)
  from assms video_frame_unsupported [OF Inl, of cfg p la n tr w] show ?thesis by simp
next
  case (Inr gray)
  then show ?thesis by blast
qed

lemma video_loop_tracks:
  assumes "video_loop env cfg p la img input n tr w = (Inr u, tr', w')"
  shows "\<exists>es. trace w' = trace w @ es
           \<and> map Inr (tracked_images es)
               = map (video_gray_image env) (takeWhile (\<lambda>f. rows f > 0 \<and> cols f > 0) (img # input))
           \<and> shown_images es
               = (if la = None \<or> verbose cfg
                  then takeWhile (\<lambda>f. rows f > 0 \<and> cols f > 0) (img # input) else [])"
  using assms
proof (induction "frames_left img input" arbitrary: img input n tr w rule: less_induct)
  case less
  show ?case
  proof (cases "rows img > 0 \<and> cols img > 0")
    case False
    with less.prems video_loop_stops [OF False, of env cfg p la input n tr w]
    show ?thesis by auto
  next
    case True
    obtain r1 tr1 w1 where fr: "video_frame env cfg p la img n tr w = (r1, tr1, w1)"
      by (cases "video_frame env cfg p la img n tr w") auto
    let ?img = "fst (VideoCapture_read input)"
    let ?input = "snd (VideoCapture_read input)"
    from less.prems video_loop_step [OF True fr, of input]
    obtain u1 where r1: "r1 = Inr u1"
      and rec: "video_loop env cfg p la ?img ?input (n + 1) tr1 (emit Ev_VideoCapture_read w1)
                   = (Inr u, tr', w')"
      by (cases r1) auto
    from video_frame_Inr [OF fr [unfolded r1]] obtain gray where
      g: "video_gray_image env img = Inr gray" by blast
    from video_frame_tracks [OF fr g] obtain es1 where
      t1: "trace w1 = trace w @ es1" and k1: "tracked_images es1 = [gray]"
      and h1: "shown_images es1 = (if la = None \<or> verbose cfg then [img] else [])"
      by blast
    have "frames_left ?img ?input < frames_left img input"
      using frames_left_read [of input] True by (simp add: frames_left_def)
    from less.hyps [OF this rec] obtain es2 where
      t2: "trace w' = trace (emit Ev_VideoCapture_read w1) @ es2"
      and k2: "map Inr (tracked_images es2)
               = map (video_gray_image env)
                   (takeWhile (\<lambda>f. rows f > 0 \<and> cols f > 0) (?img # ?input))"
      and h2: "shown_images es2
               = (if la = None \<or> verbose cfg
                  then takeWhile (\<lambda>f. rows f > 0 \<and> cols f > 0) (?img # ?input) else [])"
      by blast
    let ?es = "es1 @ Ev_VideoCapture_read # es2"
    have "trace w' = trace w @ ?es" using t1 t2 by simp
    moreover have "map Inr (tracked_images ?es)
               = map (video_gray_image env) (takeWhile (\<lambda>f. rows f > 0 \<and> cols f > 0) (img # input))"
      using k1 k2 [unfolded takeWhile_read] g True by simp
    moreover have "shown_images ?es
               = (if la = None \<or> verbose cfg
                  then takeWhile (\<lambda>f. rows f > 0 \<and> cols f > 0) (img # input) else [])"
      using h1 h2 [unfolded takeWhile_read] True by simp
    ultimately show ?thesis by blast
  qed
qed

lemma run_video_mode_tracks:
  assumes "run_video_mode env cfg ia la w = (Inr code, w')"
    and "VideoCapture env ia = Some frames"
  shows "map Inr (tracked_images (events_since w w'))
           = map (video_gray_image env) (takeWhile (\<lambda>f. rows f > 0 \<and> cols f > 0) frames)
         \<and> shown_images (events_since w w')
           = (if la = None \<or> verbose cfg
              then takeWhile (\<lambda>f. rows f > 0 \<and> cols f > 0) frames else [])"
proof -
  from assms(1) run_video_mode_assert [of env cfg ia la w]
  obtain tr0 p0 where tr0: "LoadFaceTracker env (model_pathname cfg) = Some tr0"
    and p0: "LoadFaceTrackerParams env (params_pathname cfg) = Some p0"
    by (cases "LoadFaceTracker env (model_pathname cfg)";
        cases "LoadFaceTrackerParams env (params_pathname cfg)") auto
  note rv = run_video_mode_loaded [OF tr0 p0, of ia la w]
  let ?w3 = "emit (Ev_VideoCapture ia) (emit (Ev_LoadFaceTrackerParams (params_pathname cfg))
               (emit (Ev_LoadFaceTracker (model_pathname cfg)) w))"
  let ?img = "fst (VideoCapture_read frames)"
  let ?input = "snd (VideoCapture_read frames)"
  obtain r2 tr2 w5 where lp: "video_loop env cfg (Some p0) la ?img ?input 1 tr0
          (emit Ev_VideoCapture_read ?w3) = (r2, tr2, w5)"
    by (cases "video_loop env cfg (Some p0) la ?img ?input 1 tr0
          (emit Ev_VideoCapture_read ?w3)")
       auto
  from assms rv lp obtain u where r2: "r2 = Inr u" and w': "w' = w5"
    by (cases r2) (auto simp: Let_def)
  from video_loop_tracks [OF lp [unfolded r2]] obtain es where
    t: "trace w5 = trace (emit Ev_VideoCapture_read ?w3) @ es"
    and k: "map Inr (tracked_images es)
               = map (video_gray_image env)
                   (takeWhile (\<lambda>f. rows f > 0 \<and> cols f > 0) (?img # ?input))"
    and h: "shown_images es
               = (if la = None \<or> verbose cfg
                  then takeWhile (\<lambda>f. rows f > 0 \<and> cols f > 0) (?img # ?input) else [])"
    by blast
  from t w' have "events_since w w' =
      [Ev_LoadFaceTracker (model_pathname cfg), Ev_LoadFaceTrackerParams (params_pathname cfg),
       Ev_VideoCapture ia, Ev_VideoCapture_read] @ es"
    by simp
  with k [unfolded takeWhile_read] h [unfolded takeWhile_read] show ?thesis by simp
qed

lemma channels_unsupported:
  "channels img \<noteq> 1 \<Longrightarrow> channels img \<noteq> 3
     \<Longrightarrow> mat_type img \<noteq> CV_8UC1 \<and> mat_type img \<noteq> CV_8UC3"
  by (auto simp: channels_def CV_8UC1_def CV_8UC3_def CV_MAKETYPE_def)

text \<open>
  C7, as amended. Video mode takes the frames of the video in order, up to the first
  frame of size zero, which is also what reading past the end of the video gives; there
  the loop ends normally and nothing more happens. A frame whose type is neither
  \<open>CV_8UC3\<close> nor \<open>CV_8UC1\<close> ends the run with a runtime error before the tracker sees
  it; that is every frame with neither one nor three channels, and also a frame of one
  or three channels of another depth. A frame of three 8-bit channels is converted with
  \<open>cvtColor\<close> for the tracker, a frame of one 8-bit channel is tracked as it is, and
  what is displayed (when the run displays: without a landmarks argument, or with
  \<open>--verbose\<close>) is the frame as it was read.
\<close>

theorem video_mode_frames:
  assumes "VideoCapture env video = Some frames"
  shows "(\<forall>code w'. run_video_mode env cfg video la w = (Inr code, w') \<longrightarrow>
            map Inr (tracked_images (events_since w w'))
              = map (video_gray_image env) (takeWhile (\<lambda>f. rows f > 0 \<and> cols f > 0) frames)
            \<and> shown_images (events_since w w')
              = (if la = None \<or> verbose cfg
                 then takeWhile (\<lambda>f. rows f > 0 \<and> cols f > 0) frames else []))
       \<and> VideoCapture_read [] = (empty_Mat, []) \<and> rows empty_Mat = 0 \<and> cols empty_Mat = 0
       \<and> (\<not> (rows img > 0 \<and> cols img > 0) \<longrightarrow>
            video_loop env cfg p la img input n tr w = (Inr (), tr, w))
       \<and> (rows img > 0 \<and> cols img > 0 \<and> mat_type img \<noteq> CV_8UC3 \<and> mat_type img \<noteq> CV_8UC1 \<longrightarrow>
            video_loop env cfg p la img input n tr w =
              (Inl (runtime_error ''Do not know how to convert video frame to a grayscale image.''),
               tr, if verbose cfg then emit (Ev_printf_Frame_number n) w else w))
       \<and> (channels img \<noteq> 1 \<and> channels img \<noteq> 3 \<longrightarrow>
            mat_type img \<noteq> CV_8UC3 \<and> mat_type img \<noteq> CV_8UC1)
       \<and> (mat_type img = CV_8UC3 \<longrightarrow>
            channels img = 3 \<and> depth img = 0
            \<and> tracked_images (events_since w (snd (snd (video_frame env cfg p la img n tr w))))
                = [cvtColor env img]
            \<and> shown_images (events_since w (snd (snd (video_frame env cfg p la img n tr w))))
                = (if la = None \<or> verbose cfg then [img] else []))
       \<and> (mat_type img = CV_8UC1 \<longrightarrow>
            channels img = 1 \<and> depth img = 0
            \<and> tracked_images (events_since w (snd (snd (video_frame env cfg p la img n tr w))))
                = [img]
            \<and> shown_images (events_since w (snd (snd (video_frame env cfg p la img n tr w))))
                = (if la = None \<or> verbose cfg then [img] else []))"
proof -
  have a: "\<forall>code w'. run_video_mode env cfg video la w = (Inr code, w') \<longrightarrow>
            map Inr (tracked_images (events_since w w'))
              = map (video_gray_image env) (takeWhile (\<lambda>f. rows f > 0 \<and> cols f > 0) frames)
            \<and> shown_images (events_since w w')
              = (if la = None \<or> verbose cfg
                 then takeWhile (\<lambda>f. rows f > 0 \<and> cols f > 0) frames else [])"
    using run_video_mode_tracks [OF _ assms] by blast
  have b: "VideoCapture_read [] = (empty_Mat, []) \<and> rows empty_Mat = 0 \<and> cols empty_Mat = 0"
    by (simp add: VideoCapture_read_def empty_Mat_def)
  have c: "\<not> (rows img > 0 \<and> cols img > 0) \<longrightarrow>
            video_loop env cfg p la img input n tr w = (Inr (), tr, w)"
    by (rule impI) (rule video_loop_stops)
  have d: "rows img > 0 \<and> cols img > 0 \<and> mat_type img \<noteq> CV_8UC3 \<and> mat_type img \<noteq> CV_8UC1 \<longrightarrow>
            video_loop env cfg p la img input n tr w =
              (Inl (runtime_error ''Do not know how to convert video frame to a grayscale image.''),
               tr, if verbose cfg then emit (Ev_printf_Frame_number n) w else w)"
  proof
    assume h: "rows img > 0 \<and> cols img > 0 \<and> mat_type img \<noteq> CV_8UC3 \<and> mat_type img \<noteq> CV_8UC1"
    then have g: "video_gray_image env img =
        Inl (runtime_error ''Do not know how to convert video frame to a grayscale image.'')"
      by (simp add: video_gray_image_def make_runtime_error_def)
    from h have nz: "rows img > 0 \<and> cols img > 0" by simp
    from video_frame_unsupported [OF g, of cfg p la n tr w]
    have "video_frame env cfg p la img n tr w =
        (Inl (runtime_error ''Do not know how to convert video frame to a grayscale image.''), tr,
         if verbose cfg then emit (Ev_printf_Frame_number n) w else w)"
      by (simp add: emit_def)
    from video_loop_step [OF nz this, of input]
    show "video_loop env cfg p la img input n tr w =
              (Inl (runtime_error ''Do not know how to convert video frame to a grayscale image.''),
               tr, if verbose cfg then emit (Ev_printf_Frame_number n) w else w)"
      by simp
  qed
  have d': "channels img \<noteq> 1 \<and> channels img \<noteq> 3 \<longrightarrow>
            mat_type img \<noteq> CV_8UC3 \<and> mat_type img \<noteq> CV_8UC1"
    using channels_unsupported [of img] by blast
  obtain r tr' w' where fr: "video_frame env cfg p la img n tr w = (r, tr', w')"
    by (cases "video_frame env cfg p la img n tr w") auto
  have e: "mat_type img = CV_8UC3 \<longrightarrow>
            channels img = 3 \<and> depth img = 0
            \<and> tracked_images (events_since w (snd (snd (video_frame env cfg p la img n tr w))))
                = [cvtColor env img]
            \<and> shown_images (events_since w (snd (snd (video_frame env cfg p la img n tr w))))
                = (if la = None \<or> verbose cfg then [img] else [])"
  proof
    assume t: "mat_type img = CV_8UC3"
    then have g: "video_gray_image env img = Inr (cvtColor env img)"
      by (simp add: video_gray_image_def)
    from video_frame_tracks [OF fr g] fr t
    show "channels img = 3 \<and> depth img = 0
            \<and> tracked_images (events_since w (snd (snd (video_frame env cfg p la img n tr w))))
                = [cvtColor env img]
            \<and> shown_images (events_since w (snd (snd (video_frame env cfg p la img n tr w))))
                = (if la = None \<or> verbose cfg then [img] else [])"
      by (auto simp: channels_def depth_def CV_8UC3_def CV_MAKETYPE_def)
  qed
  have f: "mat_type img = CV_8UC1 \<longrightarrow>
            channels img = 1 \<and> depth img = 0
            \<and> tracked_images (events_since w (snd (snd (video_frame env cfg p la img n tr w))))
                = [img]
            \<and> shown_images (events_since w (snd (snd (video_frame env cfg p la img n tr w))))
                = (if la = None \<or> verbose cfg then [img] else [])"
  proof
    assume t: "mat_type img = CV_8UC1"
    then have g: "video_gray_image env img = Inr img"
      by (simp add: video_gray_image_def CV_8UC1_def CV_8UC3_def CV_MAKETYPE_def)
    from video_frame_tracks [OF fr g] fr t
    show "channels img = 1 \<and> depth img = 0
            \<and> tracked_images (events_since w (snd (snd (video_frame env cfg p la img n tr w))))
                = [img]
            \<and> shown_images (events_since w (snd (snd (video_frame env cfg p la img n tr w))))
                = (if la = None \<or> verbose cfg then [img] else [])"
      by (auto simp: channels_def depth_def CV_8UC1_def CV_MAKETYPE_def)
  qed
  from a b c d d' e f show ?thesis by (intro conjI) (elim conjE, assumption)+
qed

text \<open>A video of a colour frame, a grey frame and a colour frame, displayed (no landmarks
  argument, three keys that are not escape), with confidences 7, 3 and 7 under threshold
  5: the run ends normally behind the third frame, the tracker saw the converted first
  frame, the second frame as it is and the converted third frame, and the three frames
  were shown as they were read. A frame of four channels stops the loop with the
  error.\<close>

theorem video_mode_frames_witness:
  "fst (run_video_mode (scripted_env [7, 3, 7]) sample_cfg ''face.avi'' None
          \<lparr>trace = [], keys = [0, 0, 0]\<rparr>) = Inr 0
   \<and> tracked_images (events_since \<lparr>trace = [], keys = [0, 0, 0]\<rparr>
        (snd (run_video_mode (scripted_env [7, 3, 7]) sample_cfg ''face.avi'' None
                \<lparr>trace = [], keys = [0, 0, 0]\<rparr>)))
      = [cvtColor (scripted_env [7, 3, 7]) colour_frame, gray_frame,
         cvtColor (scripted_env [7, 3, 7]) colour_frame]
   \<and> shown_images (events_since \<lparr>trace = [], keys = [0, 0, 0]\<rparr>
        (snd (run_video_mode (scripted_env [7, 3, 7]) sample_cfg ''face.avi'' None
                \<lparr>trace = [], keys = [0, 0, 0]\<rparr>)))
      = [colour_frame, gray_frame, colour_frame]
   \<and> cvtColor (scripted_env [7, 3, 7]) colour_frame \<noteq> colour_frame
   \<and> video_loop (scripted_env [7, 3, 7]) sample_cfg (Some ()) None empty_Mat [colour_frame] 1 [7] start
      = (Inr (), [7], start)
   \<and> video_loop (scripted_env [7, 3, 7]) sample_cfg (Some ()) None bgra_frame [colour_frame] 1 [7] start
      = (Inl (runtime_error ''Do not know how to convert video frame to a grayscale image.''),
         [7], start)
   \<and> tracked_images (events_since \<lparr>trace = [], keys = [0]\<rparr>
        (snd (snd (video_frame (scripted_env [7, 3, 7]) sample_cfg (Some ()) None
                     colour_frame 1 [7] \<lparr>trace = [], keys = [0]\<rparr>))))
      = [cvtColor (scripted_env [7, 3, 7]) colour_frame]
   \<and> shown_images (events_since \<lparr>trace = [], keys = [0]\<rparr>
        (snd (snd (video_frame (scripted_env [7, 3, 7]) sample_cfg (Some ()) None
                     colour_frame 1 [7] \<lparr>trace = [], keys = [0]\<rparr>))))
      = [colour_frame]"
proof -
  let ?env = "scripted_env [7, 3, 7]"
  let ?w = "\<lparr>trace = [], keys = [0, 0, 0]\<rparr>"
  let ?run = "run_video_mode ?env sample_cfg ''face.avi'' None ?w"
  have v: "VideoCapture ?env ''face.avi'' = Some [colour_frame, gray_frame, colour_frame]"
    by (simp add: scripted_env_def)
  have r: "?run = (Inr 0, snd ?run)"
    by (simp add: run_defs video_loop.simps Let_def five_points_def)
  have g: "video_gray_image ?env colour_frame = Inr (cvtColor ?env colour_frame)"
    "video_gray_image ?env gray_frame = Inr gray_frame"
    by (simp_all add: video_gray_image_def colour_frame_def gray_frame_def CV_8UC1_def
          CV_8UC3_def CV_MAKETYPE_def)
  have nz: "rows colour_frame > 0 \<and> cols colour_frame > 0" "rows gray_frame > 0 \<and> cols gray_frame > 0"
    by (simp_all add: colour_frame_def gray_frame_def)
  have z: "\<not> (rows empty_Mat > 0 \<and> cols empty_Mat > 0)"
    by (simp add: empty_Mat_def)
  have b: "rows bgra_frame > 0 \<and> cols bgra_frame > 0
           \<and> mat_type bgra_frame \<noteq> CV_8UC3 \<and> mat_type bgra_frame \<noteq> CV_8UC1"
    by (simp add: bgra_frame_def CV_8UC1_def CV_8UC3_def CV_MAKETYPE_def)
  have c: "mat_type colour_frame = CV_8UC3" by (simp add: colour_frame_def)
  have nv: "\<not> verbose sample_cfg" by (simp add: sample_cfg_def)
  have ne: "cvtColor ?env colour_frame \<noteq> colour_frame"
    by (simp add: scripted_env_def colour_frame_def CV_8UC1_def CV_8UC3_def CV_MAKETYPE_def)
  note run = video_mode_frames [OF v, where cfg = sample_cfg and la = None
      and w = ?w and img = colour_frame and input = "[colour_frame]" and p = "Some ()" and n = 1
      and tr = "[7]"]
  note one = video_mode_frames [OF v, where cfg = sample_cfg and la = None
      and w = "\<lparr>trace = [], keys = [0]\<rparr>" and img = colour_frame and input = "[colour_frame]"
      and p = "Some ()" and n = 1 and tr = "[7]"]
  note stop = video_mode_frames [OF v, where cfg = sample_cfg and la = None
      and w = start and img = empty_Mat and input = "[colour_frame]" and p = "Some ()" and n = 1
      and tr = "[7]"]
  note odd = video_mode_frames [OF v, where cfg = sample_cfg and la = None
      and w = start and img = bgra_frame and input = "[colour_frame]" and p = "Some ()" and n = 1
      and tr = "[7]"]
  from run [THEN conjunct1, rule_format, OF r]
  have 1: "map Inr (tracked_images (events_since ?w (snd ?run)))
      = map (video_gray_image ?env)
          (takeWhile (\<lambda>f. rows f > 0 \<and> cols f > 0) [colour_frame, gray_frame, colour_frame])"
    and 2: "shown_images (events_since ?w (snd ?run))
      = (if None = (None :: string option) \<or> verbose sample_cfg
         then takeWhile (\<lambda>f. rows f > 0 \<and> cols f > 0) [colour_frame, gray_frame, colour_frame]
         else [])"
    by simp_all
  from 1 g nz have 3: "tracked_images (events_since ?w (snd ?run))
      = [cvtColor ?env colour_frame, gray_frame, cvtColor ?env colour_frame]"
    by (simp add: map_eq_Cons_conv)
  from 2 nz have sh: "shown_images (events_since ?w (snd ?run))
      = [colour_frame, gray_frame, colour_frame]"
    by simp
  from stop [THEN conjunct2, THEN conjunct2, THEN conjunct2, THEN conjunct2, THEN conjunct1,
      rule_format, OF z]
  have 4: "video_loop ?env sample_cfg (Some ()) None empty_Mat [colour_frame] 1 [7] start
      = (Inr (), [7], start)" .
  from odd [THEN conjunct2, THEN conjunct2, THEN conjunct2, THEN conjunct2, THEN conjunct2,
      THEN conjunct1, rule_format, OF b] nv
  have 5: "video_loop ?env sample_cfg (Some ()) None bgra_frame [colour_frame] 1 [7] start
      = (Inl (runtime_error ''Do not know how to convert video frame to a grayscale image.''),
         [7], start)"
    by simp
  from one [THEN conjunct2, THEN conjunct2, THEN conjunct2, THEN conjunct2, THEN conjunct2,
      THEN conjunct2, THEN conjunct2, THEN conjunct1, rule_format, OF c]
  have 6: "tracked_images (events_since \<lparr>trace = [], keys = [0]\<rparr>
        (snd (snd (video_frame ?env sample_cfg (Some ()) None colour_frame 1 [7]
                     \<lparr>trace = [], keys = [0]\<rparr>))))
      = [cvtColor ?env colour_frame]
   \<and> shown_images (events_since \<lparr>trace = [], keys = [0]\<rparr>
        (snd (snd (video_frame ?env sample_cfg (Some ()) None colour_frame 1 [7]
                     \<lparr>trace = [], keys = [0]\<rparr>))))
      = [colour_frame]"
    by simp
  have r0: "fst ?run = Inr 0" by (subst r) simp
  from r0 3 sh ne 4 5 6 show ?thesis by (intro conjI) (elim conjE, assumption)+
qed

text \<open>C7 as stated fails for a frame of three channels that are not 8 bits wide: the
  frame has three channels, and video mode does not convert it but ends the run with the
  error, before the tracker is called.\<close>

theorem three_channel_frame_not_converted:
  "channels deep_frame = 3
   \<and> rows deep_frame > 0 \<and> cols deep_frame > 0
   \<and> VideoCapture (scripted_env [7, 7]) ''deep.avi'' = Some [deep_frame, gray_frame]
   \<and> video_gray_image (scripted_env [7, 7]) deep_frame
      = Inl (runtime_error ''Do not know how to convert video frame to a grayscale image.'')
   \<and> fst (run_video_mode (scripted_env [7, 7]) sample_cfg ''deep.avi'' None start)
      = Inl (runtime_error ''Do not know how to convert video frame to a grayscale image.'')
   \<and> tracked_images (events_since start
        (snd (run_video_mode (scripted_env [7, 7]) sample_cfg ''deep.avi'' None start))) = []
   \<and> events_since start
        (snd (run_video_mode (scripted_env [7, 7]) sample_cfg ''deep.avi'' None start))
      = [Ev_LoadFaceTracker ''face.tracker'', Ev_LoadFaceTrackerParams ''face.params'',
         Ev_VideoCapture ''deep.avi'', Ev_VideoCapture_read]"
  by (simp add: run_defs video_loop.simps Let_def channels_def)

subsection \<open>The pathnames of video mode\<close>











lemma render_simps [simp]:
  "render [] n = []"
  "render (Lit c # ps) n = c # render ps n"
  "render (Slot z m width # ps) n = conv_u z m width n @ render ps n"
  by (simp_all add: render_def)

lemma slot_count_simps [simp]:
  "slot_count [] = 0"
  "slot_count (Lit c # ps) = slot_count ps"
  "slot_count (Slot z m width # ps) = Suc (slot_count ps)"
  by (simp_all add: slot_count_def)














subsection \<open>Exit codes\<close>










end
